(* ===== verification/Prelude.thy ===== *)
theory Prelude
  imports Main "HOL-Library.Word"
begin

text \<open>
  Shared vocabulary of the watchmaker development: machine integers, Go results (a value, an
  error, or a run-time panic), computations that pass an explicit state, and the generic lemmas
  on them that the component theories use.

  A Go function \<open>f(...) (T, error)\<close> that touches the machine becomes a function of type
  \<open>('w, 'a) io\<close>: from the state before to the outcome and the state after. The state after is
  given on every outcome, because a Go function that fails has still had its effects.
\<close>

section \<open>Machine integers\<close>

type_synonym byte = "8 word"
type_synonym u32 = "32 word"
type_synonym u64 = "64 word"

section \<open>Errors and results\<close>

text \<open>
  An error value: a kernel error number (\<open>syscall.Errno\<close>), the two causes \<open>strconv\<close>
  reports, a \<open>time.ParseError\<close> with its five fields (layout, value,
  the elements of both, message), or \<open>fmt.Errorf\<close> with its format
  and the errors printed into it.
\<close>

datatype gerr =
    Errno nat
  | ErrSyntax
  | ErrRange
  | TimeParseError string string string string string
  | Errorf string "gerr list"

text \<open>The outcome of a Go call: a value, a non-nil error, or a run-time panic.\<close>

datatype 'a res = Ok 'a | Err gerr | Panic

type_synonym ('w, 'a) io = "'w \<Rightarrow> 'a res \<times> 'w"

definition is_ok :: "'a res \<Rightarrow> bool" where
  "is_ok r = (case r of Ok _ \<Rightarrow> True | _ \<Rightarrow> False)"

lemma is_ok_simps [simp]: "is_ok (Ok a)" "\<not> is_ok (Err e)" "\<not> is_ok Panic"
  by (simp_all add: is_ok_def)

fun res_bind :: "'a res \<Rightarrow> ('a \<Rightarrow> 'b res) \<Rightarrow> 'b res" where
  "res_bind (Ok a) f = f a"
| "res_bind (Err e) f = Err e"
| "res_bind Panic f = Panic"

fun map_res :: "('a \<Rightarrow> 'b) \<Rightarrow> 'a res \<Rightarrow> 'b res" where
  "map_res f (Ok a) = Ok (f a)"
| "map_res f (Err e) = Err e"
| "map_res f Panic = Panic"

text \<open>Wrapping the error of a pure call.\<close>

fun map_err :: "(gerr \<Rightarrow> gerr) \<Rightarrow> 'a res \<Rightarrow> 'a res" where
  "map_err g (Ok a) = Ok a"
| "map_err g (Err e) = Err (g e)"
| "map_err g Panic = Panic"

lemma map_err_Ok_iff [simp]: "map_err g r = Ok b \<longleftrightarrow> r = Ok b"
  by (cases r) auto

lemma map_err_Panic_iff [simp]: "map_err g r = Panic \<longleftrightarrow> r = Panic"
  by (cases r) auto

lemma res_bind_Ok_iff: "res_bind r f = Ok b \<longleftrightarrow> (\<exists>a. r = Ok a \<and> f a = Ok b)"
  by (cases r) auto

lemma res_bind_Panic_iff:
  "res_bind r f = Panic \<longleftrightarrow> r = Panic \<or> (\<exists>a. r = Ok a \<and> f a = Panic)"
  by (cases r) auto

lemma map_res_Ok_iff: "map_res f r = Ok b \<longleftrightarrow> (\<exists>a. r = Ok a \<and> b = f a)"
  by (cases r) auto

lemma map_res_Panic_iff [simp]: "map_res f r = Panic \<longleftrightarrow> r = Panic"
  by (cases r) auto

section \<open>Stateful computations\<close>

definition ret :: "'a \<Rightarrow> ('w, 'a) io" where
  "ret a w = (Ok a, w)"

definition throw :: "gerr \<Rightarrow> ('w, 'a) io" where
  "throw e w = (Err e, w)"

definition go_panic :: "('w, 'a) io" where
  "go_panic w = (Panic, w)"

text \<open>
  \<open>and_then m f\<close> is \<open>x, err := m; if err != nil { return err }; f(x)\<close>.
\<close>

definition and_then :: "('w, 'a) io \<Rightarrow> ('a \<Rightarrow> ('w, 'b) io) \<Rightarrow> ('w, 'b) io" where
  "and_then m f w =
     (case m w of
        (Ok a, w') \<Rightarrow> f a w'
      | (Err e, w') \<Rightarrow> (Err e, w')
      | (Panic, w') \<Rightarrow> (Panic, w'))"

text \<open>
  \<open>wrap_err g m\<close> is \<open>if err != nil { return fmt.Errorf(..., err) }\<close>: the error is wrapped,
  the value and the effects stay.
\<close>

definition wrap_err :: "(gerr \<Rightarrow> gerr) \<Rightarrow> ('w, 'a) io \<Rightarrow> ('w, 'a) io" where
  "wrap_err g m w =
     (case m w of
        (Ok a, w') \<Rightarrow> (Ok a, w')
      | (Err e, w') \<Rightarrow> (Err (g e), w')
      | (Panic, w') \<Rightarrow> (Panic, w'))"

text \<open>
  \<open>attempt m\<close> hands the error to the code that follows as a value, for the places where the Go
  code looks at \<open>err\<close> and goes on.
\<close>

definition attempt :: "('w, 'a) io \<Rightarrow> ('w, gerr + 'a) io" where
  "attempt m w =
     (case m w of
        (Ok a, w') \<Rightarrow> (Ok (Inr a), w')
      | (Err e, w') \<Rightarrow> (Ok (Inl e), w')
      | (Panic, w') \<Rightarrow> (Panic, w'))"

text \<open>
  \<open>deferred m f\<close> runs \<open>m\<close> and then the deferred closure \<open>f\<close>, which sees the outcome and may
  change the state, on every outcome (a panic runs the deferred closures as well). The outcome
  of \<open>m\<close> is returned: none of the deferred closures of the program names its result.
\<close>

definition deferred :: "('w, 'a) io \<Rightarrow> ('a res \<Rightarrow> 'w \<Rightarrow> 'w) \<Rightarrow> ('w, 'a) io" where
  "deferred m f w = (case m w of (r, w') \<Rightarrow> (r, f r w'))"

text \<open>A computation on the second component of a pair of states.\<close>

definition on_snd :: "('w, 'a) io \<Rightarrow> ('s \<times> 'w, 'a) io" where
  "on_snd m sw = (case m (snd sw) of (r, w') \<Rightarrow> (r, (fst sw, w')))"

definition get_fst :: "('s \<times> 'w, 's) io" where
  "get_fst sw = (Ok (fst sw), sw)"

definition put_fst :: "'s \<Rightarrow> ('s \<times> 'w, unit) io" where
  "put_fst s sw = (Ok (), (s, snd sw))"

definition lift_res :: "'a res \<Rightarrow> ('w, 'a) io" where
  "lift_res r w = (r, w)"

named_theorems io_defs \<open>unfolding equations of the state-passing combinators\<close>

declare ret_def [io_defs] throw_def [io_defs] go_panic_def [io_defs] and_then_def [io_defs]
  wrap_err_def [io_defs] attempt_def [io_defs] deferred_def [io_defs] on_snd_def [io_defs]
  get_fst_def [io_defs] put_fst_def [io_defs] lift_res_def [io_defs]

named_theorems io_ok \<open>what a successful run of a combinator says of its parts\<close>

lemma ret_Ok_iff [io_ok]: "ret a w = (Ok b, w') \<longleftrightarrow> b = a \<and> w' = w"
  by (auto simp: ret_def)

lemma throw_Ok_iff [io_ok]: "throw e w = (Ok b, w') \<longleftrightarrow> False"
  by (simp add: throw_def)

lemma go_panic_Ok_iff [io_ok]: "go_panic w = (Ok b, w') \<longleftrightarrow> False"
  by (simp add: go_panic_def)

lemma and_then_Ok_iff [io_ok]:
  "and_then m f w = (Ok b, w'') \<longleftrightarrow> (\<exists>a w'. m w = (Ok a, w') \<and> f a w' = (Ok b, w''))"
  by (auto simp: and_then_def split: prod.splits res.splits)

lemma wrap_err_Ok_iff [io_ok]: "wrap_err g m w = (Ok b, w') \<longleftrightarrow> m w = (Ok b, w')"
  by (auto simp: wrap_err_def split: prod.splits res.splits)

lemma attempt_Ok_iff [io_ok]:
  "attempt m w = (Ok x, w') \<longleftrightarrow>
     (\<exists>a. x = Inr a \<and> m w = (Ok a, w')) \<or> (\<exists>e. x = Inl e \<and> m w = (Err e, w'))"
  by (auto simp: attempt_def split: prod.splits res.splits)

lemma deferred_Ok_iff [io_ok]:
  "deferred m f w = (Ok b, w'') \<longleftrightarrow> (\<exists>w'. m w = (Ok b, w') \<and> w'' = f (Ok b) w')"
  by (auto simp: deferred_def split: prod.splits)

lemma on_snd_Ok_iff [io_ok]:
  "on_snd m sw = (Ok b, sw') \<longleftrightarrow> (\<exists>w'. m (snd sw) = (Ok b, w') \<and> sw' = (fst sw, w'))"
  by (auto simp: on_snd_def split: prod.splits)

lemma get_fst_Ok_iff [io_ok]: "get_fst sw = (Ok s, sw') \<longleftrightarrow> s = fst sw \<and> sw' = sw"
  by (auto simp: get_fst_def)

lemma put_fst_Ok_iff [io_ok]: "put_fst s sw = (Ok u, sw') \<longleftrightarrow> sw' = (s, snd sw)"
  by (auto simp: put_fst_def)

lemma lift_res_Ok_iff [io_ok]: "lift_res r w = (Ok b, w') \<longleftrightarrow> r = Ok b \<and> w' = w"
  by (auto simp: lift_res_def)

lemma and_then_assoc: "and_then (and_then m f) g = and_then m (\<lambda>a. and_then (f a) g)"
  by (rule ext) (auto simp: and_then_def split: prod.splits res.splits)

section \<open>Frames\<close>

text \<open>
  \<open>keeps R m\<close>: on every outcome, error and panic included, the state after \<open>m\<close> is related to
  the state before by \<open>R\<close>. The locale \<open>io_frame\<close> collects, once for every reflexive and
  transitive \<open>R\<close>, the rules that carry a frame from the parts of a computation to the whole.
\<close>

definition keeps :: "('w \<Rightarrow> 'w \<Rightarrow> bool) \<Rightarrow> ('w, 'a) io \<Rightarrow> bool" where
  "keeps R m \<longleftrightarrow> (\<forall>w. R w (snd (m w)))"

lemma keepsI: "(\<And>w r w'. m w = (r, w') \<Longrightarrow> R w w') \<Longrightarrow> keeps R m"
  by (simp add: keeps_def prod_eq_iff)

lemma keepsD: "keeps R m \<Longrightarrow> m w = (r, w') \<Longrightarrow> R w w'"
  by (metis keeps_def snd_conv)

lemma keeps_If: "(b \<Longrightarrow> keeps R m) \<Longrightarrow> (\<not> b \<Longrightarrow> keeps R n) \<Longrightarrow> keeps R (if b then m else n)"
  by simp

lemma keeps_case_sum:
  "(\<And>e. keeps R (f e)) \<Longrightarrow> (\<And>a. keeps R (g a)) \<Longrightarrow> keeps R (case x of Inl e \<Rightarrow> f e | Inr a \<Rightarrow> g a)"
  by (cases x) auto

lemma keeps_case_option:
  "keeps R m \<Longrightarrow> (\<And>a. keeps R (g a)) \<Longrightarrow> keeps R (case x of None \<Rightarrow> m | Some a \<Rightarrow> g a)"
  by (cases x) auto

lemma keeps_case_prod: "(\<And>a b. keeps R (g a b)) \<Longrightarrow> keeps R (case x of (a, b) \<Rightarrow> g a b)"
  by (cases x) auto

text \<open>A relation between the second components of two pairs.\<close>

definition snd_rel :: "('w \<Rightarrow> 'w \<Rightarrow> bool) \<Rightarrow> 's \<times> 'w \<Rightarrow> 's \<times> 'w \<Rightarrow> bool" where
  "snd_rel R s s' \<longleftrightarrow> R (snd s) (snd s')"

lemma snd_rel_pair [simp]: "snd_rel R (s, w) (s', w') = R w w'"
  by (simp add: snd_rel_def)

locale io_frame =
  fixes R :: "'w \<Rightarrow> 'w \<Rightarrow> bool"
  assumes frame_refl: "R w w"
    and frame_trans: "R w1 w2 \<Longrightarrow> R w2 w3 \<Longrightarrow> R w1 w3"
begin

lemma keeps_ret: "keeps R (ret a)"
  by (simp add: keeps_def ret_def frame_refl)

lemma keeps_throw: "keeps R (throw e)"
  by (simp add: keeps_def throw_def frame_refl)

lemma keeps_go_panic: "keeps R go_panic"
  by (simp add: keeps_def go_panic_def frame_refl)

lemma keeps_lift_res: "keeps R (lift_res r)"
  by (simp add: keeps_def lift_res_def frame_refl)

lemma keeps_and_then: "keeps R m \<Longrightarrow> (\<And>a. keeps R (f a)) \<Longrightarrow> keeps R (and_then m f)"
  by (fastforce simp: keeps_def and_then_def prod_eq_iff split: prod.splits res.splits
      intro: frame_trans)

lemma keeps_wrap_err: "keeps R m \<Longrightarrow> keeps R (wrap_err g m)"
  by (auto simp: keeps_def wrap_err_def split: prod.splits res.splits) (metis snd_conv)+

lemma keeps_attempt: "keeps R m \<Longrightarrow> keeps R (attempt m)"
  by (auto simp: keeps_def attempt_def split: prod.splits res.splits) (metis snd_conv)+

lemma keeps_deferred: "keeps R m \<Longrightarrow> (\<And>r w. R w (f r w)) \<Longrightarrow> keeps R (deferred m f)"
  by (auto simp: keeps_def deferred_def split: prod.splits intro: frame_trans)

lemma snd_frame: "io_frame (snd_rel R)"
  by unfold_locales (auto simp: snd_rel_def intro: frame_refl frame_trans)

lemma keeps_on_snd: "keeps R m \<Longrightarrow> keeps (snd_rel R) (on_snd m)"
  by (auto simp: keeps_def on_snd_def snd_rel_def split: prod.splits) (metis snd_conv)

lemma keeps_get_fst: "keeps (snd_rel R) get_fst"
  by (simp add: keeps_def get_fst_def snd_rel_def frame_refl)

lemma keeps_put_fst: "keeps (snd_rel R) (put_fst s)"
  by (simp add: keeps_def put_fst_def snd_rel_def frame_refl)

lemmas keeps_rules = keeps_ret keeps_throw keeps_go_panic keeps_lift_res keeps_and_then
  keeps_wrap_err keeps_attempt keeps_If keeps_case_sum keeps_case_option keeps_case_prod

lemmas keeps_state_rules = keeps_on_snd keeps_get_fst keeps_put_fst

end

end
