(* ===== verification/GoBytes.thy ===== *)
theory GoBytes
  imports Prelude
begin

text \<open>
  Byte slices and \<open>encoding/binary\<close>: the fixed-width integer codecs the program uses to write
  addresses, instructions and variables into memory images, and the overwriting of part of a
  slice. The codecs share one contract, the locale \<open>int_codec\<close>, which is interpreted on every
  byte order and width the program uses.
\<close>

unbundle bit_operations_syntax

section \<open>Byte orders\<close>

text \<open>The order that an ELF header names and that \<open>elfFile.ByteOrder\<close> carries.\<close>

datatype byte_order = LittleEndian | BigEndian

fun put_le :: "nat \<Rightarrow> 'a::len word \<Rightarrow> byte list" where
  "put_le 0 v = []"
| "put_le (Suc n) v = ucast v # put_le n (drop_bit 8 v)"

fun get_le :: "byte list \<Rightarrow> 'a::len word" where
  "get_le [] = 0"
| "get_le (b # bs) = ucast b OR push_bit 8 (get_le bs)"

definition put_uint :: "byte_order \<Rightarrow> nat \<Rightarrow> 'a::len word \<Rightarrow> byte list" where
  "put_uint bo n v = (case bo of LittleEndian \<Rightarrow> put_le n v | BigEndian \<Rightarrow> rev (put_le n v))"

definition get_uint :: "byte_order \<Rightarrow> byte list \<Rightarrow> 'a::len word" where
  "get_uint bo bs = (case bo of LittleEndian \<Rightarrow> get_le bs | BigEndian \<Rightarrow> get_le (rev bs))"

definition PutUint16 :: "byte_order \<Rightarrow> 16 word \<Rightarrow> byte list" where
  "PutUint16 bo v = put_uint bo 2 v"

definition PutUint32 :: "byte_order \<Rightarrow> u32 \<Rightarrow> byte list" where
  "PutUint32 bo v = put_uint bo 4 v"

definition PutUint64 :: "byte_order \<Rightarrow> u64 \<Rightarrow> byte list" where
  "PutUint64 bo v = put_uint bo 8 v"

definition GetUint16 :: "byte_order \<Rightarrow> byte list \<Rightarrow> 16 word" where
  "GetUint16 bo bs = get_uint bo bs"

definition GetUint32 :: "byte_order \<Rightarrow> byte list \<Rightarrow> u32" where
  "GetUint32 bo bs = get_uint bo bs"

definition GetUint64 :: "byte_order \<Rightarrow> byte list \<Rightarrow> u64" where
  "GetUint64 bo bs = get_uint bo bs"

subsection \<open>Lemmas\<close>

lemma length_put_le [simp]: "length (put_le n v) = n"
  by (induction n arbitrary: v) auto

lemma get_put_le: "get_le (put_le n v) = take_bit (8 * n) (v :: 'a::len word)"
proof (induction n arbitrary: v)
  case (Suc n)
  show ?case
    by (rule bit_word_eqI) (auto simp: Suc bit_simps)
qed simp

lemma bit_get_le: "bit (get_le bs :: 'a::len word) k \<longleftrightarrow>
    k < LENGTH('a) \<and> k div 8 < length bs \<and> bit (bs ! (k div 8)) (k mod 8)"
proof (induction bs arbitrary: k)
  case (Cons b bs)
  show ?case
  proof (cases "k < 8")
    case True
    then show ?thesis by (auto simp: bit_simps)
  next
    case False
    then obtain j where j: "k = 8 + j" by (metis le_add_diff_inverse not_less)
    have "\<not> bit b (8 + j)" using bit_imp_le_length [of b "8 + j"] by auto
    moreover have "(8 + j) div 8 = Suc (j div 8)" by simp
    ultimately show ?thesis by (auto simp: bit_simps j Cons simp del: div_add_self1)
  qed
qed simp

lemma nth_put_le: "i < n \<Longrightarrow> bit (put_le n (v :: 'a::len word) ! i) k \<longleftrightarrow> k < 8 \<and> bit v (8 * i + k)"
proof (induction n arbitrary: v i)
  case (Suc n)
  then show ?case
    by (cases i) (auto simp: bit_simps algebra_simps)
qed simp

lemma put_get_le:
  assumes "8 * length bs \<le> LENGTH('a::len)"
  shows "put_le (length bs) (get_le bs :: 'a word) = bs"
proof (rule nth_equalityI)
  fix i assume i: "i < length (put_le (length bs) (get_le bs :: 'a word))"
  show "put_le (length bs) (get_le bs :: 'a word) ! i = bs ! i"
  proof (rule bit_word_eqI)
    fix k assume "k < LENGTH(8)"
    then have k: "k < 8" by simp
    have "(8 * i + k) div 8 = i" "(8 * i + k) mod 8 = k" using k by auto
    moreover have "8 * i + k < LENGTH('a)" using assms i k by simp
    ultimately show "bit (put_le (length bs) (get_le bs :: 'a word) ! i) k = bit (bs ! i) k"
      using i k by (simp add: nth_put_le bit_get_le)
  qed
qed simp

section \<open>Overwriting part of a slice\<close>

text \<open>\<open>overwrite xs off ys\<close> is \<open>copy(xs[off:], ys)\<close> where \<open>ys\<close> fits.\<close>

definition overwrite :: "'a list \<Rightarrow> nat \<Rightarrow> 'a list \<Rightarrow> 'a list" where
  "overwrite xs off ys = take off xs @ ys @ drop (off + length ys) xs"

lemma length_overwrite [simp]:
  "off + length ys \<le> length xs \<Longrightarrow> length (overwrite xs off ys) = length xs"
  by (simp add: overwrite_def)

lemma overwrite_read [simp]:
  "off + length ys \<le> length xs \<Longrightarrow> take (length ys) (drop off (overwrite xs off ys)) = ys"
  by (simp add: overwrite_def)

lemma nth_overwrite:
  "off + length ys \<le> length xs \<Longrightarrow> i < length xs \<Longrightarrow>
     overwrite xs off ys ! i = (if off \<le> i \<and> i < off + length ys then ys ! (i - off) else xs ! i)"
  by (auto simp: overwrite_def nth_append min_def)

lemma overwrite_append:
  "off + length ys \<le> length xs \<Longrightarrow> overwrite (xs @ zs) off ys = overwrite xs off ys @ zs"
  by (simp add: overwrite_def)

lemma overwrite_other:
  assumes "off + length ys \<le> length xs" and "off' + n \<le> off \<or> off + length ys \<le> off'"
    and "off' + n \<le> length xs"
  shows "take n (drop off' (overwrite xs off ys)) = take n (drop off' xs)"
proof (rule nth_equalityI)
  fix i assume "i < length (take n (drop off' (overwrite xs off ys)))"
  then show "take n (drop off' (overwrite xs off ys)) ! i = take n (drop off' xs) ! i"
    using assms by (auto simp: nth_overwrite)
qed (use assms in simp)

section \<open>The codec contract\<close>

text \<open>
  What the program relies on of an integer codec: the width, and that decoding inverts encoding
  in both directions. The facts about writing an integer into a slice and reading it back are
  proved once from this contract.
\<close>

locale int_codec =
  fixes put :: "'i \<Rightarrow> byte list" and get :: "byte list \<Rightarrow> 'i" and width :: nat
  assumes length_put: "length (put v) = width"
    and get_put: "get (put v) = v"
    and put_get: "length bs = width \<Longrightarrow> put (get bs) = bs"
begin

lemma put_inj: "put v = put v' \<Longrightarrow> v = v'"
  by (metis get_put)

lemma get_inj: "length bs = width \<Longrightarrow> length bs' = width \<Longrightarrow> get bs = get bs' \<Longrightarrow> bs = bs'"
  by (metis put_get)

lemma length_store: "off + width \<le> length xs \<Longrightarrow> length (overwrite xs off (put v)) = length xs"
  by (simp add: length_put)

lemma read_store:
  "off + width \<le> length xs \<Longrightarrow> get (take width (drop off (overwrite xs off (put v)))) = v"
  using overwrite_read [of off "put v" xs] by (simp add: length_put get_put)

lemma read_store_other:
  "off + width \<le> length xs \<Longrightarrow> off' + n \<le> off \<or> off + width \<le> off' \<Longrightarrow>
     off' + n \<le> length xs \<Longrightarrow>
     take n (drop off' (overwrite xs off (put v))) = take n (drop off' xs)"
  by (rule overwrite_other) (auto simp: length_put)

end

lemma codec_laws:
  "length (put_uint bo n v) = n"
  "8 * n = LENGTH('a) \<Longrightarrow> get_uint bo (put_uint bo n v) = (v :: 'a::len word)"
  "length bs = n \<Longrightarrow> 8 * n = LENGTH('a) \<Longrightarrow> put_uint bo n (get_uint bo bs :: 'a word) = bs"
  using put_get_le [of "rev bs", where 'a = 'a] put_get_le [of bs, where 'a = 'a]
  by (auto simp: put_uint_def get_uint_def get_put_le take_bit_word_eq_self rev_swap
      split: byte_order.splits)

interpretation u16_codec: int_codec "PutUint16 bo" "GetUint16 bo" 2 for bo
  by unfold_locales (simp_all add: PutUint16_def GetUint16_def codec_laws)

interpretation u32_codec: int_codec "PutUint32 bo" "GetUint32 bo" 4 for bo
  by unfold_locales (simp_all add: PutUint32_def GetUint32_def codec_laws)

interpretation u64_codec: int_codec "PutUint64 bo" "GetUint64 bo" 8 for bo
  by unfold_locales (simp_all add: PutUint64_def GetUint64_def codec_laws)

lemma PutUint64_ne [simp]: "PutUint64 bo v \<noteq> []"
  using u64_codec.length_put [of bo v] by (metis list.size(3) zero_neq_numeral)

lemmas codec_lengths [simp] = u16_codec.length_put u32_codec.length_put u64_codec.length_put

end
