(* ===== verification/GoStrings.thy ===== *)
theory GoStrings
  imports Prelude
begin

text \<open>
  What the program uses of Go's \<open>strings\<close>, \<open>strconv\<close>, \<open>unicode\<close> and \<open>unicode/utf8\<close>. A Go
  string is a sequence of bytes, here a list of characters with one \<open>char\<close> per byte; indices
  and lengths count bytes. A rune is a natural number.

  The letter, digit and lower-case tables of the Unicode standard are data outside the
  repository: beyond Latin-1 (for the case mapping, beyond ASCII) they are the parameter
  \<open>unicode_tables\<close>.
\<close>

section \<open>strings.Split and strings.ToLower\<close>

fun Split :: "char \<Rightarrow> string \<Rightarrow> string list" where
  "Split sep [] = [[]]"
| "Split sep (c # cs) =
     (if c = sep then [] # Split sep cs
      else (case Split sep cs of
              [] \<Rightarrow> [[c]]
            | w # ws \<Rightarrow> (c # w) # ws))"

fun Join :: "char \<Rightarrow> string list \<Rightarrow> string" where
  "Join sep [] = []"
| "Join sep [w] = w"
| "Join sep (w # v # ws) = w @ sep # Join sep (v # ws)"

definition HasPrefix :: "string \<Rightarrow> string \<Rightarrow> bool" where
  "HasPrefix s p = (take (length p) s = p)"

lemma Split_nonempty [simp]: "Split sep s \<noteq> []"
  by (cases s) (auto split: list.splits)

lemma Split_single: "sep \<notin> set w \<Longrightarrow> Split sep w = [w]"
  by (induction w) auto

lemma Split_append: "sep \<notin> set w \<Longrightarrow> Split sep (w @ sep # s) = w # Split sep s"
  by (induction w) auto

lemma Split_Join: "ws \<noteq> [] \<Longrightarrow> \<forall>w \<in> set ws. sep \<notin> set w \<Longrightarrow> Split sep (Join sep ws) = ws"
  by (induction sep ws rule: Join.induct) (auto simp: Split_single Split_append)

lemma Join_Split: "Join sep (Split sep s) = s"
proof (induction s)
  case (Cons c cs)
  obtain w ws where "Split sep cs = w # ws" by (meson Split_nonempty neq_Nil_conv)
  with Cons show ?case by (cases ws) auto
qed simp

lemma Split_no_sep: "w \<in> set (Split sep s) \<Longrightarrow> sep \<notin> set w"
  by (induction s arbitrary: w) (auto split: list.splits if_splits)

section \<open>strconv\<close>

definition digit_val :: "char \<Rightarrow> nat option" where
  "digit_val c =
     (let n = of_char c :: nat in
      if 48 \<le> n \<and> n \<le> 57 then Some (n - 48)
      else if 97 \<le> n \<and> n \<le> 122 then Some (n - 97 + 10)
      else if 65 \<le> n \<and> n \<le> 90 then Some (n - 65 + 10)
      else None)"

text \<open>The digit loop of \<open>ParseUint\<close>: both the check before and the check after the addition
  fail exactly when the value would exceed \<open>maxv\<close>.\<close>

fun parse_digits :: "nat \<Rightarrow> nat \<Rightarrow> nat \<Rightarrow> string \<Rightarrow> nat res" where
  "parse_digits base maxv n [] = Ok n"
| "parse_digits base maxv n (c # cs) =
     (case digit_val c of
        None \<Rightarrow> Err ErrSyntax
      | Some d \<Rightarrow>
          if base \<le> d then Err ErrSyntax
          else if maxv < n * base + d then Err ErrRange
          else parse_digits base maxv (n * base + d) cs)"

text \<open>\<open>strconv.ParseUint\<close> for the explicit bases the program passes.\<close>

definition ParseUint :: "string \<Rightarrow> nat \<Rightarrow> nat \<Rightarrow> nat res" where
  "ParseUint s base bits =
     (if s = [] then Err ErrSyntax else parse_digits base (2 ^ bits - 1) 0 s)"

text \<open>\<open>strconv.ParseInt\<close>: the sign, the digits, and the bounds of a signed integer.\<close>

definition drop_sign :: "string \<Rightarrow> string" where
  "drop_sign s = (if hd s = CHR ''+'' \<or> hd s = CHR ''-'' then tl s else s)"

definition sign_value :: "bool \<Rightarrow> nat \<Rightarrow> nat \<Rightarrow> int res" where
  "sign_value neg bits un =
     (if \<not> neg \<and> 2 ^ (bits - 1) \<le> un then Err ErrRange
      else if neg \<and> 2 ^ (bits - 1) < un then Err ErrRange
      else Ok (if neg then - int un else int un))"

definition ParseInt :: "string \<Rightarrow> nat \<Rightarrow> nat \<Rightarrow> int res" where
  "ParseInt s base bits =
     (if s = [] then Err ErrSyntax
      else res_bind (ParseUint (drop_sign s) base bits) (sign_value (hd s = CHR ''-'') bits))"

text \<open>\<open>strconv.Atoi\<close>; \<open>int\<close> has 64 bits on both supported architectures.\<close>

definition Atoi :: "string \<Rightarrow> int res" where
  "Atoi s = ParseInt s 10 64"

subsection \<open>Lemmas\<close>

lemma parse_digits_not_Panic [simp]: "parse_digits base maxv n s \<noteq> Panic"
  by (induction base maxv n s rule: parse_digits.induct) (auto split: option.splits)

lemma ParseUint_not_Panic [simp]: "ParseUint s base bits \<noteq> Panic"
  by (simp add: ParseUint_def)

lemma ParseInt_not_Panic [simp]: "ParseInt s base bits \<noteq> Panic"
  by (auto simp: ParseInt_def sign_value_def res_bind_Panic_iff split: if_splits)

lemma Atoi_not_Panic [simp]: "Atoi s \<noteq> Panic"
  by (simp add: Atoi_def)

lemma parse_digits_le: "parse_digits base maxv n s = Ok m \<Longrightarrow> n \<le> maxv \<Longrightarrow> m \<le> maxv"
  by (induction base maxv n s rule: parse_digits.induct) (auto split: option.splits if_splits)

lemma ParseUint_less: "ParseUint s base bits = Ok n \<Longrightarrow> n < 2 ^ bits"
proof -
  assume "ParseUint s base bits = Ok n"
  then have "n \<le> 2 ^ bits - 1"
    by (auto simp: ParseUint_def split: if_splits dest: parse_digits_le)
  moreover have "(0::nat) < 2 ^ bits" by simp
  ultimately show ?thesis by linarith
qed

lemma sign_value_bounds:
  assumes "sign_value neg bits un = Ok v"
  shows "- (2 ^ (bits - 1)) \<le> v \<and> v < 2 ^ (bits - 1)"
proof -
  define B where "B = (2::nat) ^ (bits - 1)"
  have p: "(2::int) ^ (bits - 1) = int B" and "0 < B" by (simp_all add: B_def)
  with assms show ?thesis
    unfolding sign_value_def p B_def [symmetric] by (auto split: if_splits)
qed

lemma ParseInt_bounds:
  "ParseInt s base bits = Ok v \<Longrightarrow> - (2 ^ (bits - 1)) \<le> v \<and> v < 2 ^ (bits - 1)"
  unfolding ParseInt_def using sign_value_bounds by (auto simp: res_bind_Ok_iff split: if_splits)

text \<open>
  Rendering in a base, the inverse of the digit loop: the digits of \<open>n\<close>, most significant
  first, in lower case.
\<close>

definition digit_char :: "nat \<Rightarrow> char" where
  "digit_char d = char_of (if d < 10 then 48 + d else 87 + d)"

fun render_digits :: "nat \<Rightarrow> nat \<Rightarrow> string" where
  "render_digits base n =
     (if base < 2 \<or> n < base then [digit_char n]
      else render_digits base (n div base) @ [digit_char (n mod base)])"

declare render_digits.simps [simp del]

lemma digit_val_char: "d < 36 \<Longrightarrow> digit_val (digit_char d) = Some d"
  by (auto simp: digit_val_def digit_char_def Let_def)

lemma parse_digits_append:
  "parse_digits base maxv n (s @ t) =
     res_bind (parse_digits base maxv n s) (\<lambda>m. parse_digits base maxv m t)"
  by (induction base maxv n s rule: parse_digits.induct) (auto split: option.splits)

lemma parse_render_digits:
  assumes "2 \<le> base" "base \<le> 36" "n \<le> maxv"
  shows "parse_digits base maxv 0 (render_digits base n) = Ok n"
  using assms
proof (induction base n rule: render_digits.induct)
  case (1 base n)
  show ?case
  proof (cases "n < base")
    case True
    with "1.prems" show ?thesis
      by (subst render_digits.simps) (simp add: digit_val_char)
  next
    case False
    then have "n div base \<le> maxv" using "1.prems" by (meson div_le_dividend le_trans)
    with False "1.prems" have "parse_digits base maxv 0 (render_digits base (n div base)) = Ok (n div base)"
      by (intro "1.IH") auto
    moreover have "n mod base < base" using "1.prems" by simp
    moreover have "n div base * base + n mod base = n" by simp
    moreover have "n mod base < 36" using "1.prems" by (intro order.strict_trans2 [OF mod_less_divisor]) auto
    moreover have "\<not> base \<le> n mod base" using "1.prems" by (simp add: not_le)
    ultimately show ?thesis
      using False "1.prems"
      by (subst render_digits.simps) (simp add: parse_digits_append digit_val_char)
  qed
qed

lemma render_digits_nonempty [simp]: "render_digits base n \<noteq> []"
  by (subst render_digits.simps) simp

lemma ParseUint_render:
  "2 \<le> base \<Longrightarrow> base \<le> 36 \<Longrightarrow> n < 2 ^ bits \<Longrightarrow> ParseUint (render_digits base n) base bits = Ok n"
  by (simp add: ParseUint_def parse_render_digits)

lemma render_digits_digit:
  "2 \<le> base \<Longrightarrow> base \<le> 36 \<Longrightarrow> c \<in> set (render_digits base n) \<Longrightarrow> digit_val c \<noteq> None"
proof (induction base n rule: render_digits.induct)
  case (1 base n)
  have "n mod base < base" using "1.prems" by simp
  then have "n mod base < 36" using "1.prems"(2) by (rule less_le_trans)
  then have m: "digit_val (digit_char (n mod base)) \<noteq> None"
    by (simp add: digit_val_char)
  show ?case
  proof (cases "n < base")
    case True
    with "1.prems" show ?thesis by (simp add: render_digits.simps [of base n] digit_val_char)
  next
    case False
    then have "c \<in> set (render_digits base (n div base)) \<or> c = digit_char (n mod base)"
      using "1.prems" by (auto simp: render_digits.simps [of base n])
    with False m "1.IH" "1.prems" show ?thesis by auto
  qed
qed

lemma digit_val_separators [simp]:
  "digit_val CHR '' '' = None" "digit_val CHR ''-'' = None" "digit_val CHR ''\<newline>'' = None"
  "digit_val CHR ''+'' = None"
  by (simp_all add: digit_val_def)

section \<open>Runes\<close>

record unicode_tables =
  uni_letter :: "nat \<Rightarrow> bool"
  uni_digit :: "nat \<Rightarrow> bool"
  uni_lower :: "nat \<Rightarrow> nat"

definition IsDigit :: "unicode_tables \<Rightarrow> nat \<Rightarrow> bool" where
  "IsDigit U r = (if r \<le> 255 then 48 \<le> r \<and> r \<le> 57 else uni_digit U r)"

definition IsLetter :: "unicode_tables \<Rightarrow> nat \<Rightarrow> bool" where
  "IsLetter U r =
     (if r \<le> 255 then
        65 \<le> r \<and> r \<le> 90 \<or> 97 \<le> r \<and> r \<le> 122 \<or> r = 170 \<or> r = 181 \<or> r = 186 \<or>
        192 \<le> r \<and> r \<noteq> 215 \<and> r \<noteq> 247
      else uni_letter U r)"

definition RuneError :: nat where
  "RuneError = 65533"

definition cont_byte :: "nat \<Rightarrow> bool" where
  "cont_byte b = (128 \<le> b \<and> b \<le> 191)"

text \<open>\<open>utf8.DecodeRuneInString\<close>: the rune at the start of a string and its width in bytes; an
  invalid encoding is \<open>RuneError\<close> of width 1.\<close>

fun decode_bytes :: "nat list \<Rightarrow> nat \<times> nat" where
  "decode_bytes [] = (RuneError, 0)"
| "decode_bytes (b0 # bs) =
     (if b0 < 128 then (b0, 1)
      else if 194 \<le> b0 \<and> b0 \<le> 223 then
        (case bs of
           b1 # _ \<Rightarrow> if cont_byte b1 then ((b0 - 192) * 64 + (b1 - 128), 2) else (RuneError, 1)
         | _ \<Rightarrow> (RuneError, 1))
      else if 224 \<le> b0 \<and> b0 \<le> 239 then
        (case bs of
           b1 # b2 # _ \<Rightarrow>
             if (if b0 = 224 then 160 else 128) \<le> b1 \<and> b1 \<le> (if b0 = 237 then 159 else 191)
                \<and> cont_byte b2
             then ((b0 - 224) * 4096 + (b1 - 128) * 64 + (b2 - 128), 3) else (RuneError, 1)
         | _ \<Rightarrow> (RuneError, 1))
      else if 240 \<le> b0 \<and> b0 \<le> 244 then
        (case bs of
           b1 # b2 # b3 # _ \<Rightarrow>
             if (if b0 = 240 then 144 else 128) \<le> b1 \<and> b1 \<le> (if b0 = 244 then 143 else 191)
                \<and> cont_byte b2 \<and> cont_byte b3
             then ((b0 - 240) * 262144 + (b1 - 128) * 4096 + (b2 - 128) * 64 + (b3 - 128), 4)
             else (RuneError, 1)
         | _ \<Rightarrow> (RuneError, 1))
      else (RuneError, 1))"

definition DecodeRune :: "string \<Rightarrow> nat \<times> nat" where
  "DecodeRune s = decode_bytes (map of_char s)"

lemma decode_bytes_width:
  "bs \<noteq> [] \<Longrightarrow> 1 \<le> snd (decode_bytes bs) \<and> snd (decode_bytes bs) \<le> length bs"
  by (cases bs) (simp_all split: list.split if_split del: One_nat_def)

lemma DecodeRune_width:
  "s \<noteq> [] \<Longrightarrow> 1 \<le> snd (DecodeRune s) \<and> snd (DecodeRune s) \<le> length s"
  using decode_bytes_width [of "map of_char s"] by (simp add: DecodeRune_def)

lemma DecodeRune_ascii:
  "of_char c < (128::nat) \<Longrightarrow> DecodeRune (c # s) = (of_char c, 1)"
  by (simp add: DecodeRune_def)

text \<open>\<open>utf8.AppendRune\<close>.\<close>

definition EncodeRune :: "nat \<Rightarrow> string" where
  "EncodeRune r =
     map char_of
       (if r < 128 then [r]
        else if r < 2048 then [192 + r div 64, 128 + r mod 64]
        else if r > 1114111 \<or> 55296 \<le> r \<and> r \<le> 57343 then [239, 191, 189]
        else if r < 65536 then [224 + r div 4096, 128 + r div 64 mod 64, 128 + r mod 64]
        else [240 + r div 262144, 128 + r div 4096 mod 64, 128 + r div 64 mod 64, 128 + r mod 64])"

function runes :: "string \<Rightarrow> nat list" where
  "runes s = (if s = [] then [] else fst (DecodeRune s) # runes (drop (snd (DecodeRune s)) s))"
  by pat_completeness auto
termination
  by (relation "measure length") (use DecodeRune_width in \<open>fastforce+\<close>)

declare runes.simps [simp del]

definition to_lower :: "unicode_tables \<Rightarrow> nat \<Rightarrow> nat" where
  "to_lower U r = (if r < 128 then (if 65 \<le> r \<and> r \<le> 90 then r + 32 else r) else uni_lower U r)"

text \<open>\<open>strings.ToLower\<close>: the byte-wise path for ASCII, else \<open>strings.Map(unicode.ToLower, s)\<close>.\<close>

definition ToLower :: "unicode_tables \<Rightarrow> string \<Rightarrow> string" where
  "ToLower U s =
     (if \<forall>c \<in> set s. of_char c < (128::nat)
      then map (\<lambda>c. char_of (to_lower U (of_char c))) s
      else concat (map (\<lambda>r. EncodeRune (to_lower U r)) (runes s)))"

lemma EncodeRune_nonempty [simp]: "EncodeRune r \<noteq> []"
  by (simp add: EncodeRune_def)

lemma runes_nonempty: "s \<noteq> [] \<Longrightarrow> runes s \<noteq> []"
  by (subst runes.simps) simp

lemma ToLower_Nil_iff [simp]: "ToLower U s = [] \<longleftrightarrow> s = []"
proof (cases "s = []")
  case False
  then have "runes s \<noteq> []" by (rule runes_nonempty)
  with False show ?thesis by (auto simp: ToLower_def neq_Nil_conv)
qed (simp add: ToLower_def)

lemma ToLower_id:
  assumes "\<forall>c \<in> set s. of_char c < (128::nat) \<and> \<not> (65 \<le> (of_char c :: nat) \<and> of_char c \<le> (90::nat))"
  shows "ToLower U s = s"
proof -
  have "map (\<lambda>c. char_of (to_lower U (of_char c))) s = map id s"
    using assms by (intro map_cong) (auto simp: to_lower_def)
  with assms show ?thesis by (simp add: ToLower_def)
qed

section \<open>Decimal numbers\<close>

definition all_digits :: "string \<Rightarrow> bool" where
  "all_digits s \<longleftrightarrow> (\<forall>c \<in> set s. (48::nat) \<le> of_char c \<and> of_char c \<le> (57::nat))"

fun decimal_from :: "nat \<Rightarrow> string \<Rightarrow> nat" where
  "decimal_from n [] = n"
| "decimal_from n (c # cs) = decimal_from (n * 10 + (of_char c - 48)) cs"

abbreviation decimal :: "string \<Rightarrow> nat" where
  "decimal \<equiv> decimal_from 0"

lemma decimal_from_mono: "n \<le> decimal_from n s"
proof (induction n s rule: decimal_from.induct)
  case (2 n c cs)
  have "n \<le> n * 10 + (of_char c - 48)" by simp
  with "2.IH" show ?case by simp
qed simp

lemma parse_digits_decimal:
  "all_digits s \<Longrightarrow> parse_digits 10 m n s =
     (if s = [] \<or> decimal_from n s \<le> m then Ok (decimal_from n s) else Err ErrRange)"
proof (induction s arbitrary: n)
  case (Cons c cs)
  have d: "(48::nat) \<le> of_char c" "of_char c \<le> (57::nat)" "all_digits cs" using Cons.prems by (auto simp: all_digits_def)
  then have v: "digit_val c = Some (of_char c - 48 :: nat)" by (simp add: digit_val_def)
  have lt: "of_char c - 48 < (10::nat)" using d by linarith
  show ?case
    using Cons.IH [OF d(3), of "n * 10 + (of_char c - 48)"] decimal_from_mono [of "n * 10 + (of_char c - 48)" cs] lt
    by (auto simp: v)
qed simp

lemma parse_digits_unit:
  "all_digits s \<Longrightarrow> digit_val u = Some k \<Longrightarrow> 10 \<le> k \<Longrightarrow> \<exists>e. parse_digits 10 m n (s @ [u]) = Err e"
  by (simp add: parse_digits_append parse_digits_decimal)

end
