(* ===== verification/Kernel.thy ===== *)
theory Kernel
  imports GoBytes GoStrings
begin

text \<open>
  The operating system as the program sees it. Linux is not part of the repository, so the
  calls that the program makes through \<open>os\<close> and \<open>golang.org/x/sys/unix\<close> are the fields of a
  record, a parameter of every definition that uses them. A call maps the state of the world
  before to an error number or a value, and the state after. The state type \<open>'w\<close> is arbitrary.

  \<open>kspec\<close> extends the calls by what the documented behaviour speaks of: the bytes of a process's
  memory that the process does not itself write while the program runs (its code pages, the
  injected image), and the registers of its main thread. \<open>kernel_ok\<close> states the documented
  behaviour of the calls on them.
\<close>

section \<open>Registers\<close>

text \<open>
  The members of \<open>unix.PtraceRegs\<close> that the code names, for both architectures; \<open>OtherReg\<close>
  stands for the rest of the structure, which the code only copies.
\<close>

datatype arch = AMD64 | ARM64

datatype reg =
    Rax | Rdi | Rsi | Rdx | R10 | R8 | R9 | Rip
  | Regs nat | Pc
  | OtherReg nat

type_synonym ptrace_regs = "reg \<Rightarrow> u64"

section \<open>The calls\<close>

type_synonym ('w, 'a) syscall = "'w \<Rightarrow> (nat + 'a) \<times> 'w"

record 'w kernel =
  ReadDirTask :: "int \<Rightarrow> ('w, string list) syscall"
  ReadFileMaps :: "int \<Rightarrow> ('w, string) syscall"
  Getpagesize :: u64
  PtraceSeize :: "int \<Rightarrow> ('w, unit) syscall"
  PtraceInterrupt :: "int \<Rightarrow> ('w, unit) syscall"
  PtraceDetach :: "int \<Rightarrow> ('w, unit) syscall"
  Wait4 :: "int \<Rightarrow> ('w, int) syscall"
  PtraceGetRegs :: "int \<Rightarrow> ('w, ptrace_regs) syscall"
  PtraceSetRegs :: "int \<Rightarrow> ptrace_regs \<Rightarrow> ('w, unit) syscall"
  PtracePeekData :: "int \<Rightarrow> u64 \<Rightarrow> nat \<Rightarrow> ('w, byte list) syscall"
  PtracePokeData :: "int \<Rightarrow> u64 \<Rightarrow> byte list \<Rightarrow> ('w, unit) syscall"
  PtraceSingleStep :: "int \<Rightarrow> ('w, unit) syscall"
  ProcessVMReadv :: "int \<Rightarrow> u64 \<Rightarrow> nat \<Rightarrow> ('w, byte list) syscall"
  ProcessVMWritev :: "int \<Rightarrow> u64 \<Rightarrow> byte list \<Rightarrow> ('w, nat) syscall"
  SYS_MMAP :: u64
  PROT_READ :: u64
  PROT_WRITE :: u64
  PROT_EXEC :: u64
  MAP_ANON :: u64
  MAP_PRIVATE :: u64

text \<open>A call as a step of the program: its error number becomes a Go error.\<close>

definition sys :: "('w, 'a) syscall \<Rightarrow> ('w, 'a) io" where
  "sys c w = (case c w of (Inl n, w') \<Rightarrow> (Err (Errno n), w') | (Inr a, w') \<Rightarrow> (Ok a, w'))"

declare sys_def [io_defs]

lemma sys_Ok_iff [io_ok]: "sys c w = (Ok a, w') \<longleftrightarrow> c w = (Inr a, w')"
  by (auto simp: sys_def split: prod.splits sum.splits)

lemma sys_not_Panic [simp]: "sys c w = (Panic, w') \<longleftrightarrow> False"
  by (auto simp: sys_def split: prod.splits sum.splits)

text \<open>
  \<open>strings.Contains(err.Error(), "no such process")\<close>: the message of \<open>ESRCH\<close>, error number 3.
\<close>

definition is_esrch :: "gerr \<Rightarrow> bool" where
  "is_esrch e = (e = Errno 3)"

section \<open>Documented behaviour\<close>

text \<open>
  \<open>mem_of\<close> is the memory of a process (\<open>None\<close>: not mapped), \<open>regs_of\<close> the registers of its main
  thread, \<open>traced_of\<close> the living threads this program is attached to, \<open>stopped_of\<close> those of them
  that are in a ptrace-stop, and \<open>still\<close> the addresses that the process's own code does not write. Everything below that says memory is unchanged says it
  of \<open>still\<close> addresses, because the threads that are not stopped go on running.
\<close>

record 'w kspec = "'w kernel" +
  mem_of :: "'w \<Rightarrow> int \<Rightarrow> u64 \<Rightarrow> byte option"
  regs_of :: "'w \<Rightarrow> int \<Rightarrow> ptrace_regs"
  traced_of :: "'w \<Rightarrow> int set"
  stopped_of :: "'w \<Rightarrow> int set"
  still :: "int \<Rightarrow> u64 set"

definition in_range :: "u64 \<Rightarrow> nat \<Rightarrow> u64 \<Rightarrow> bool" where
  "in_range a n x \<longleftrightarrow> unat (x - a) < n"

definition holds_at :: "(u64 \<Rightarrow> byte option) \<Rightarrow> u64 \<Rightarrow> byte list \<Rightarrow> bool" where
  "holds_at m a bs \<longleftrightarrow> (\<forall>i < length bs. m (a + of_nat i) = Some (bs ! i))"

text \<open>Memory of every process is as before, but for the bytes of \<open>pid\<close> in a range.\<close>

definition same_but :: "('w, 'z) kspec_scheme \<Rightarrow> int \<Rightarrow> u64 \<Rightarrow> nat \<Rightarrow> 'w \<Rightarrow> 'w \<Rightarrow> bool" where
  "same_but K pid a n w w' \<longleftrightarrow>
     (\<forall>q. \<forall>x \<in> still K q. q = pid \<and> in_range a n x \<or> mem_of K w' q x = mem_of K w q x)"

definition same_mem :: "('w, 'z) kspec_scheme \<Rightarrow> 'w \<Rightarrow> 'w \<Rightarrow> bool" where
  "same_mem K w w' \<longleftrightarrow> (\<forall>q. \<forall>x \<in> still K q. mem_of K w' q x = mem_of K w q x)"

definition same_other :: "('w, 'z) kspec_scheme \<Rightarrow> int \<Rightarrow> 'w \<Rightarrow> 'w \<Rightarrow> bool" where
  "same_other K pid w w' \<longleftrightarrow> (\<forall>q. \<forall>x \<in> still K q. q = pid \<or> mem_of K w' q x = mem_of K w q x)"

text \<open>The calls that write no memory of a traced process.\<close>

definition reads_only :: "('w, 'z) kspec_scheme \<Rightarrow> ('w, 'a) syscall \<Rightarrow> bool" where
  "reads_only K c \<longleftrightarrow> (\<forall>w. same_mem K w (snd (c w)))"

definition readers_ok :: "('w, 'z) kspec_scheme \<Rightarrow> bool" where
  "readers_ok K \<longleftrightarrow>
     (\<forall>p. reads_only K (ReadDirTask K p) \<and> reads_only K (ReadFileMaps K p)
        \<and> reads_only K (PtraceSeize K p) \<and> reads_only K (PtraceInterrupt K p)
        \<and> reads_only K (PtraceDetach K p) \<and> reads_only K (Wait4 K p)
        \<and> reads_only K (PtraceGetRegs K p)
        \<and> (\<forall>r. reads_only K (PtraceSetRegs K p r))
        \<and> (\<forall>a n. reads_only K (PtracePeekData K p a n))
        \<and> (\<forall>a n. reads_only K (ProcessVMReadv K p a n)))"

text \<open>
  Peeking and reading return the bytes in memory; \<open>process_vm_readv\<close> does not split an iovec, so
  a successful transfer with one iovec is complete.
\<close>

definition reads_ok :: "('w, 'z) kspec_scheme \<Rightarrow> bool" where
  "reads_ok K \<longleftrightarrow>
     (\<forall>p a n w bs w'. PtracePeekData K p a n w = (Inr bs, w') \<or>
                     ProcessVMReadv K p a n w = (Inr bs, w') \<longrightarrow>
        length bs = n \<and> holds_at (mem_of K w p) a bs)"

definition writes_ok :: "('w, 'z) kspec_scheme \<Rightarrow> bool" where
  "writes_ok K \<longleftrightarrow>
     (\<forall>p a bs w. same_but K p a (length bs) w (snd (PtracePokeData K p a bs w))
               \<and> same_but K p a (length bs) w (snd (ProcessVMWritev K p a bs w))) \<and>
     (\<forall>p a bs w u w'. PtracePokeData K p a bs w = (Inr u, w') \<longrightarrow> holds_at (mem_of K w' p) a bs) \<and>
     (\<forall>p a bs w n w'. ProcessVMWritev K p a bs w = (Inr n, w') \<longrightarrow> holds_at (mem_of K w' p) a bs)"

text \<open>Only \<open>PTRACE_SETREGS\<close> and running the thread change its registers.\<close>

definition regs_ok :: "('w, 'z) kspec_scheme \<Rightarrow> bool" where
  "regs_ok K \<longleftrightarrow>
     (\<forall>p w r w'. PtraceGetRegs K p w = (Inr r, w') \<longrightarrow> r = regs_of K w p \<and> regs_of K w' p = regs_of K w p) \<and>
     (\<forall>p r w u w'. PtraceSetRegs K p r w = (Inr u, w') \<longrightarrow> regs_of K w' p = r) \<and>
     (\<forall>p a n w. regs_of K (snd (PtracePeekData K p a n w)) p = regs_of K w p) \<and>
     (\<forall>p a bs w. regs_of K (snd (PtracePokeData K p a bs w)) p = regs_of K w p) \<and>
     (\<forall>p a n w. regs_of K (snd (ProcessVMReadv K p a n w)) p = regs_of K w p) \<and>
     (\<forall>p a bs w. regs_of K (snd (ProcessVMWritev K p a bs w)) p = regs_of K w p) \<and>
     (\<forall>p w. regs_of K (snd (Wait4 K p w)) p = regs_of K w p)"

text \<open>
  The system-call convention of the two architectures (\<open>syscall(2)\<close>), and what single-stepping an
  anonymous private \<open>mmap\<close> does: unless it returns an error number, the pages it returns were
  unmapped before, hold zeros after, and are unknown to the process's code.
\<close>

definition ip_reg :: "arch \<Rightarrow> reg" where
  "ip_reg A = (case A of AMD64 \<Rightarrow> Rip | ARM64 \<Rightarrow> Pc)"

definition nr_reg :: "arch \<Rightarrow> reg" where
  "nr_reg A = (case A of AMD64 \<Rightarrow> Rax | ARM64 \<Rightarrow> Regs 8)"

definition ret_reg :: "arch \<Rightarrow> reg" where
  "ret_reg A = (case A of AMD64 \<Rightarrow> Rax | ARM64 \<Rightarrow> Regs 0)"

definition arg_reg :: "arch \<Rightarrow> nat \<Rightarrow> reg" where
  "arg_reg A i = (case A of AMD64 \<Rightarrow> [Rdi, Rsi, Rdx, R10, R8, R9] ! i | ARM64 \<Rightarrow> Regs i)"

definition syscall_insn :: "arch \<Rightarrow> byte list" where
  "syscall_insn A =
     (case A of AMD64 \<Rightarrow> PutUint16 LittleEndian 0x050f | ARM64 \<Rightarrow> PutUint32 LittleEndian 0xd4000001)"

unbundle bit_operations_syntax

definition at_mmap :: "arch \<Rightarrow> ('w, 'z) kspec_scheme \<Rightarrow> int \<Rightarrow> 'w \<Rightarrow> bool" where
  "at_mmap A K p w \<longleftrightarrow>
     holds_at (mem_of K w p) (regs_of K w p (ip_reg A)) (syscall_insn A) \<and>
     regs_of K w p (nr_reg A) = SYS_MMAP K \<and>
     regs_of K w p (arg_reg A 0) = 0 \<and>
     regs_of K w p (arg_reg A 3) = MAP_ANON K OR MAP_PRIVATE K"

definition fresh_pages :: "('w, 'z) kspec_scheme \<Rightarrow> int \<Rightarrow> u64 \<Rightarrow> nat \<Rightarrow> 'w \<Rightarrow> 'w \<Rightarrow> bool" where
  "fresh_pages K p a n w w' \<longleftrightarrow>
     unat a + n \<le> 2 ^ 64 \<and>
     (\<forall>i < n. a + of_nat i \<in> still K p \<and> mem_of K w p (a + of_nat i) = None \<and>
             mem_of K w' p (a + of_nat i) = Some 0)"

definition step_ok :: "arch \<Rightarrow> ('w, 'z) kspec_scheme \<Rightarrow> bool" where
  "step_ok A K \<longleftrightarrow>
     (\<forall>p w r w'. PtraceSingleStep K p w = (r, w') \<longrightarrow>
        same_other K p w w' \<and>
        (at_mmap A K p w \<longrightarrow>
           (\<forall>x \<in> still K p. mem_of K w p x = None \<or> mem_of K w' p x = mem_of K w p x) \<and>
           (r = Inr () \<longrightarrow>
              0xFFFFFFFFFFFFF000 < regs_of K w' p (ret_reg A) \<or>
              fresh_pages K p (regs_of K w' p (ret_reg A)) (unat (regs_of K w p (arg_reg A 1))) w w')))"

text \<open>
  Attaching and detaching, as \<open>ptrace(2)\<close> and \<open>wait4(2)\<close> describe them. Only \<open>PTRACE_SEIZE\<close> attaches; a
  stopped thread stays stopped until it is detached, unless it dies. A thread that \<open>wait4\<close> reports has
  stopped or died. \<open>PTRACE_DETACH\<close> needs a stopped thread: on one that is not it fails with \<open>ESRCH\<close> and
  has no effect; on a stopped one it fails only when the thread has died.
\<close>

definition keeps_stopped :: "('w, 'z) kspec_scheme \<Rightarrow> 'w \<Rightarrow> 'w \<Rightarrow> bool" where
  "keeps_stopped K w w' \<longleftrightarrow>
     traced_of K w' \<subseteq> traced_of K w \<and> stopped_of K w \<inter> traced_of K w' \<subseteq> stopped_of K w'"

definition attach_ok :: "('w, 'z) kspec_scheme \<Rightarrow> bool" where
  "attach_ok K \<longleftrightarrow>
     (\<forall>t w r w'. PtraceSeize K t w = (r, w') \<longrightarrow>
        traced_of K w' \<subseteq> (case r of Inr _ \<Rightarrow> insert t (traced_of K w) | Inl _ \<Rightarrow> traced_of K w) \<and>
        stopped_of K w \<inter> traced_of K w' \<subseteq> stopped_of K w') \<and>
     (\<forall>t w r w'. PtraceDetach K t w = (r, w') \<longrightarrow>
        traced_of K w' \<subseteq> traced_of K w \<and> (stopped_of K w - {t}) \<inter> traced_of K w' \<subseteq> stopped_of K w' \<and>
        (t \<in> stopped_of K w \<or> r = Inr () \<longrightarrow> t \<notin> traced_of K w')) \<and>
     (\<forall>t w r w'. Wait4 K t w = (r, w') \<longrightarrow>
        keeps_stopped K w w' \<and> (r = Inr t \<longrightarrow> t \<in> stopped_of K w' \<or> t \<notin> traced_of K w')) \<and>
     (\<forall>t w. keeps_stopped K w (snd (PtraceInterrupt K t w))) \<and>
     (\<forall>p w. keeps_stopped K w (snd (ReadDirTask K p w))) \<and>
     (\<forall>p w. keeps_stopped K w (snd (ReadFileMaps K p w)))"

definition kernel_ok :: "arch \<Rightarrow> ('w, 'z) kspec_scheme \<Rightarrow> bool" where
  "kernel_ok A K \<longleftrightarrow>
     readers_ok K \<and> reads_ok K \<and> writes_ok K \<and> regs_ok K \<and> step_ok A K \<and> attach_ok K"

section \<open>Lemmas\<close>

lemma holds_at_iff_read:
  "holds_at m a bs \<Longrightarrow> holds_at m a cs \<Longrightarrow> length bs = length cs \<Longrightarrow> bs = cs"
  by (rule nth_equalityI) (auto simp: holds_at_def)

lemma holds_at_append:
  "holds_at m a (xs @ ys) \<longleftrightarrow> holds_at m a xs \<and> holds_at m (a + of_nat (length xs)) ys"
proof -
  have "(\<forall>i < length xs + length ys. m (a + of_nat i) = Some ((xs @ ys) ! i)) \<longleftrightarrow>
    (\<forall>i < length xs. m (a + of_nat i) = Some (xs ! i)) \<and>
    (\<forall>i < length ys. m (a + of_nat (length xs) + of_nat i) = Some (ys ! i))" (is "?l \<longleftrightarrow> ?r")
  proof
    assume l: ?l
    have "m (a + of_nat (length xs) + of_nat i) = Some (ys ! i)" if "i < length ys" for i
      using l [rule_format, of "length xs + i"] that by (simp add: add.assoc)
    moreover have "m (a + of_nat i) = Some (xs ! i)" if "i < length xs" for i
      using l [rule_format, of i] that by (simp add: nth_append)
    ultimately show ?r by blast
  next
    assume r: ?r
    show ?l
    proof (intro allI impI)
      fix i assume i: "i < length xs + length ys"
      show "m (a + of_nat i) = Some ((xs @ ys) ! i)"
      proof (cases "i < length xs")
        case True
        with r show ?thesis by (simp add: nth_append)
      next
        case False
        then obtain j where "i = length xs + j" by (metis le_add_diff_inverse not_less)
        with r i show ?thesis by (simp add: add.assoc)
      qed
    qed
  qed
  then show ?thesis by (simp add: holds_at_def)
qed

lemma holds_at_Nil [simp]: "holds_at m a []"
  by (simp add: holds_at_def)

lemma in_rangeI: "i < n \<Longrightarrow> n \<le> 2 ^ 64 \<Longrightarrow> in_range a n (a + of_nat i)"
  by (simp add: in_range_def unat_of_nat)

lemma in_range_iff: "in_range a n x \<longleftrightarrow> (\<exists>i < n. i < 2 ^ 64 \<and> x = a + of_nat i)"
proof
  assume "in_range a n x"
  moreover have "unat (x - a) < 2 ^ LENGTH(64)" by (rule unsigned_less)
  moreover have "x = a + of_nat (unat (x - a))" by simp
  ultimately show "\<exists>i < n. i < 2 ^ 64 \<and> x = a + of_nat i"
    unfolding in_range_def by (intro exI [of _ "unat (x - a)"]) simp
next
  assume "\<exists>i < n. i < 2 ^ 64 \<and> x = a + of_nat i"
  then show "in_range a n x" by (auto simp: in_range_def unat_of_nat)
qed

text \<open>Two ranges at offsets from one address.\<close>

lemma in_range_offset:
  assumes "i < 2 ^ 64" "n + m \<le> 2 ^ 64"
  shows "in_range (a + of_nat n) m (a + of_nat i) \<longleftrightarrow> n \<le> i \<and> i < n + m"
proof
  assume "in_range (a + of_nat n) m (a + of_nat i)"
  then obtain j where j: "j < m" "a + of_nat i = a + of_nat n + of_nat j" by (auto simp: in_range_iff)
  then have "(of_nat i :: u64) = of_nat (n + j)" by simp
  from arg_cong [OF this, of unat] j(1) assms have "i = n + j"
    by (simp add: unat_of_nat del: of_nat_add)
  with j(1) show "n \<le> i \<and> i < n + m" by simp
next
  assume "n \<le> i \<and> i < n + m"
  then have e: "a + of_nat i = a + of_nat n + of_nat (i - n)" and "i - n < m" by (auto simp: of_nat_diff)
  then show "in_range (a + of_nat n) m (a + of_nat i)"
    unfolding e using assms by (intro in_rangeI) simp_all
qed

lemma same_butD:
  "same_but K p a n w w' \<Longrightarrow> x \<in> still K q \<Longrightarrow> q \<noteq> p \<or> \<not> in_range a n x \<Longrightarrow>
     mem_of K w' q x = mem_of K w q x"
  by (auto simp: same_but_def)

lemma holds_at_same_but:
  "holds_at (mem_of K w p) a bs \<Longrightarrow> same_but K p b n w w' \<Longrightarrow>
     \<forall>i < length bs. a + of_nat i \<in> still K p \<and> \<not> in_range b n (a + of_nat i) \<Longrightarrow>
     holds_at (mem_of K w' p) a bs"
  unfolding holds_at_def by (simp add: same_butD)

lemma same_mem_refl [simp]: "same_mem K w w"
  by (simp add: same_mem_def)

lemma same_mem_trans: "same_mem K w1 w2 \<Longrightarrow> same_mem K w2 w3 \<Longrightarrow> same_mem K w1 w3"
  by (simp add: same_mem_def)

lemma same_but_trans:
  "same_but K p a n w1 w2 \<Longrightarrow> same_but K p a n w2 w3 \<Longrightarrow> same_but K p a n w1 w3"
  unfolding same_but_def by metis

lemma same_mem_but: "same_mem K w w' \<Longrightarrow> same_but K p a n w w'"
  by (auto simp: same_mem_def same_but_def)

lemma same_but_other: "same_but K p a n w w' \<Longrightarrow> same_other K p w w'"
  by (auto simp: same_but_def same_other_def)

lemma same_mem_other: "same_mem K w w' \<Longrightarrow> same_other K p w w'"
  by (auto simp: same_mem_def same_other_def)

lemma holds_at_same_mem:
  assumes "same_mem K w w'" "holds_at (mem_of K w p) a bs"
    and "\<forall>i < length bs. a + of_nat i \<in> still K p"
  shows "holds_at (mem_of K w' p) a bs"
  using assms by (auto simp: same_mem_def holds_at_def)

interpretation other_frame: io_frame "same_other K pid" for K pid
  by unfold_locales (auto simp: same_other_def, metis)

interpretation mem_frame: io_frame "same_mem K" for K
  by unfold_locales (auto simp: same_mem_def)

interpretation other_frame2: io_frame "snd_rel (same_other K pid)" for K pid
  by (rule other_frame.snd_frame)

interpretation mem_frame2: io_frame "snd_rel (same_mem K)" for K
  by (rule mem_frame.snd_frame)

lemma keeps_sys: "(\<And>w. R w (snd (c w))) \<Longrightarrow> keeps R (sys c)"
  by (auto simp: keeps_def sys_def split: prod.splits sum.splits) (metis snd_conv)+

lemma reads_only_keeps: "reads_only K c \<Longrightarrow> keeps (same_mem K) (sys c)"
  by (rule keeps_sys) (simp add: reads_only_def)

lemma keeps_mono: "keeps R m \<Longrightarrow> (\<And>w w'. R w w' \<Longrightarrow> S w w') \<Longrightarrow> keeps S m"
  by (auto simp: keeps_def)

text \<open>The calls of a documented kernel as steps that keep the memory of every process.\<close>

lemma kernel_okD:
  assumes "kernel_ok A K"
  shows "readers_ok K" "reads_ok K" "writes_ok K" "regs_ok K" "step_ok A K" "attach_ok K"
  using assms by (simp_all add: kernel_ok_def)

lemma keeps_readers:
  assumes "readers_ok K"
  shows "keeps (same_mem K) (sys (ReadDirTask K p))" "keeps (same_mem K) (sys (ReadFileMaps K p))"
    and "keeps (same_mem K) (sys (PtraceSeize K p))" "keeps (same_mem K) (sys (PtraceInterrupt K p))"
    and "keeps (same_mem K) (sys (PtraceDetach K p))" "keeps (same_mem K) (sys (Wait4 K p))"
    and "keeps (same_mem K) (sys (PtraceGetRegs K p))"
    and "keeps (same_mem K) (sys (PtraceSetRegs K p r))"
    and "keeps (same_mem K) (sys (PtracePeekData K p a n))"
    and "keeps (same_mem K) (sys (ProcessVMReadv K p a n))"
  using assms by (simp_all add: readers_ok_def reads_only_keeps)

lemma keeps_writers:
  assumes "writes_ok K"
  shows "keeps (same_but K p a (length bs)) (sys (PtracePokeData K p a bs))"
    and "keeps (same_but K p a (length bs)) (sys (ProcessVMWritev K p a bs))"
  using assms by (simp_all add: writes_ok_def keeps_sys)

lemma writes_okD:
  assumes "writes_ok K"
  shows "PtracePokeData K p a bs w = (r, w') \<Longrightarrow> same_but K p a (length bs) w w'"
    and "ProcessVMWritev K p a bs w = (r', w') \<Longrightarrow> same_but K p a (length bs) w w'"
    and "PtracePokeData K p a bs w = (Inr u, w') \<Longrightarrow> holds_at (mem_of K w' p) a bs"
    and "ProcessVMWritev K p a bs w = (Inr n, w') \<Longrightarrow> holds_at (mem_of K w' p) a bs"
proof -
  have 1: "same_but K p a (length bs) w (snd (PtracePokeData K p a bs w))"
    and 2: "same_but K p a (length bs) w (snd (ProcessVMWritev K p a bs w))"
    and 3: "\<And>u w'. PtracePokeData K p a bs w = (Inr u, w') \<Longrightarrow> holds_at (mem_of K w' p) a bs"
    and 4: "\<And>n w'. ProcessVMWritev K p a bs w = (Inr n, w') \<Longrightarrow> holds_at (mem_of K w' p) a bs"
    using assms unfolding writes_ok_def by simp_all
  show "PtracePokeData K p a bs w = (r, w') \<Longrightarrow> same_but K p a (length bs) w w'"
    using 1 by simp
  show "ProcessVMWritev K p a bs w = (r', w') \<Longrightarrow> same_but K p a (length bs) w w'"
    using 2 by simp
  show "PtracePokeData K p a bs w = (Inr u, w') \<Longrightarrow> holds_at (mem_of K w' p) a bs" by (rule 3)
  show "ProcessVMWritev K p a bs w = (Inr n, w') \<Longrightarrow> holds_at (mem_of K w' p) a bs" by (rule 4)
qed

end
