(* ===== verification/MapsReader.thy ===== *)
theory MapsReader
  imports Kernel
begin

text \<open>
  \<open>maps_reader.go\<close>: parsing \<open>/proc/[pid]/maps\<close> into the list of the process's mappings.
\<close>

section \<open>ReadMaps\<close>

record Entry =
  StartAddress :: u64
  EndAddress :: u64
  Privilege :: string
  PaddingSize :: u64
  Path :: string

definition parse_hex64 :: "string \<Rightarrow> u64 res" where
  "parse_hex64 s = map_res of_nat (ParseUint s 16 64)"

text \<open>
  The body of the loop over the lines. A line of fewer than three sections is skipped
  (\<open>None\<close>); \<open>addresses[1]\<close> panics where the first section holds no \<open>-\<close>.
\<close>

definition parse_line :: "string \<Rightarrow> Entry option res" where
  "parse_line line =
     (let sections = Split CHR '' '' line in
      if length sections < 3 then Ok None
      else
        let path = (if length sections > 5 then sections ! (length sections - 1) else []);
            addresses = Split CHR ''-'' (sections ! 0)
        in res_bind (parse_hex64 (addresses ! 0)) (\<lambda>startAddress.
           if length addresses < 2 then Panic else
           res_bind (parse_hex64 (addresses ! 1)) (\<lambda>endAddress.
           res_bind (parse_hex64 (sections ! 2)) (\<lambda>paddingSize.
             Ok (Some \<lparr>StartAddress = startAddress, EndAddress = endAddress,
                       Privilege = sections ! 1, PaddingSize = paddingSize, Path = path\<rparr>)))))"

fun parse_lines :: "string list \<Rightarrow> Entry list res" where
  "parse_lines [] = Ok []"
| "parse_lines (line # lines) =
     res_bind (parse_line line) (\<lambda>e.
     res_bind (parse_lines lines) (\<lambda>es.
       Ok (case e of None \<Rightarrow> es | Some en \<Rightarrow> en # es)))"

definition parse_maps :: "string \<Rightarrow> Entry list res" where
  "parse_maps data = parse_lines (Split CHR ''\<newline>'' data)"

definition ReadMaps :: "('w, 'z) kernel_scheme \<Rightarrow> int \<Rightarrow> ('w, Entry list) io" where
  "ReadMaps K pid = and_then (sys (ReadFileMaps K pid)) (\<lambda>data. lift_res (parse_maps data))"

section \<open>The format of the file\<close>

text \<open>
  What \<open>proc(5)\<close> says of a line: the two addresses, the permissions, the offset, the device and
  the inode, separated by single spaces, then padding and the path. The addresses and the offset
  are printed with at least eight hexadecimal digits (\<open>%08lx\<close>).
\<close>

definition hex64 :: "u64 \<Rightarrow> string" where
  "hex64 v = (let d = render_digits 16 (unat v) in replicate (8 - length d) CHR ''0'' @ d)"

definition maps_line :: "string \<Rightarrow> string \<Rightarrow> nat \<Rightarrow> Entry \<Rightarrow> string" where
  "maps_line dev inode pad e =
     Join CHR '' ''
       ([hex64 (StartAddress e) @ CHR ''-'' # hex64 (EndAddress e), Privilege e,
         hex64 (PaddingSize e), dev, inode] @ replicate pad [] @ [Path e])"

definition plain :: "string \<Rightarrow> bool" where
  "plain s \<longleftrightarrow> CHR '' '' \<notin> set s \<and> CHR ''\<newline>'' \<notin> set s"

definition wf_entry :: "Entry \<Rightarrow> bool" where
  "wf_entry e \<longleftrightarrow> plain (Privilege e) \<and> plain (Path e)"

definition maps_file :: "(string \<times> string \<times> nat \<times> Entry) list \<Rightarrow> string" where
  "maps_file ls = Join CHR ''\<newline>'' (map (\<lambda>(dev, inode, pad, e). maps_line dev inode pad e) ls @ [[]])"

section \<open>Lemmas\<close>

lemma parse_digits_zeros: "parse_digits 16 maxv 0 (replicate n CHR ''0'' @ s) = parse_digits 16 maxv 0 s"
  by (induction n) (simp_all add: digit_val_def)

lemma parse_hex64_hex64 [simp]: "parse_hex64 (hex64 v) = Ok v"
proof -
  have "unat v < 2 ^ LENGTH(64)" by (rule unsigned_less)
  then have "ParseUint (render_digits 16 (unat v)) 16 64 = Ok (unat v)" by (simp add: ParseUint_render)
  then have "ParseUint (hex64 v) 16 64 = Ok (unat v)"
    by (simp add: ParseUint_def hex64_def Let_def parse_digits_zeros)
  then show ?thesis by (simp add: parse_hex64_def)
qed

lemma parse_hex64_not_Panic [simp]: "parse_hex64 s \<noteq> Panic"
  by (simp add: parse_hex64_def)

lemma hex64_no_sep: "digit_val c = None \<Longrightarrow> c \<notin> set (hex64 v)"
  using render_digits_digit [of 16 c "unat v"] by (auto simp: hex64_def Let_def digit_val_def)

lemma set_Join_subset: "set (Join sep ws) \<subseteq> insert sep (\<Union>w \<in> set ws. set w)"
  by (induction sep ws rule: Join.induct) auto

lemma maps_line_sections:
  assumes "wf_entry e" "plain dev" "plain inode"
  shows "Split CHR '' '' (maps_line dev inode pad e) =
    [hex64 (StartAddress e) @ CHR ''-'' # hex64 (EndAddress e), Privilege e,
         hex64 (PaddingSize e), dev, inode] @ replicate pad [] @ [Path e]"
  unfolding maps_line_def
  by (rule Split_Join) (use assms in \<open>auto simp: wf_entry_def plain_def hex64_no_sep\<close>)

lemma maps_line_no_newline:
  assumes "wf_entry e" "plain dev" "plain inode"
  shows "CHR ''\<newline>'' \<notin> set (maps_line dev inode pad e)"
proof
  assume "CHR ''\<newline>'' \<in> set (maps_line dev inode pad e)"
  then have "\<exists>w \<in> set (Split CHR '' '' (maps_line dev inode pad e)). CHR ''\<newline>'' \<in> set w"
    using set_Join_subset [of "CHR '' ''" "Split CHR '' '' (maps_line dev inode pad e)"]
    by (auto simp: Join_Split)
  then show False
    unfolding maps_line_sections [OF assms]
    using assms by (auto simp: wf_entry_def plain_def hex64_no_sep)
qed

lemma parse_maps_line:
  assumes "wf_entry e" "plain dev" "plain inode"
  shows "parse_line (maps_line dev inode pad e) = Ok (Some e)"
  unfolding parse_line_def Let_def maps_line_sections [OF assms]
  by (simp add: Split_append Split_single hex64_no_sep nth_append)

lemma parse_lines_maps:
  "\<forall>(dev, inode, pad, e) \<in> set ls. wf_entry e \<and> plain dev \<and> plain inode \<Longrightarrow>
   parse_lines (map (\<lambda>(dev, inode, pad, e). maps_line dev inode pad e) ls @ [[]]) =
     Ok (map (\<lambda>(dev, inode, pad, e). e) ls)"
  by (induction ls) (auto simp: parse_maps_line parse_line_def [of "[]"])

lemma parse_maps_file:
  assumes "\<forall>(dev, inode, pad, e) \<in> set ls. wf_entry e \<and> plain dev \<and> plain inode"
  shows "parse_maps (maps_file ls) = Ok (map (\<lambda>(dev, inode, pad, e). e) ls)"
proof -
  have "Split CHR ''\<newline>'' (maps_file ls) =
      map (\<lambda>(dev, inode, pad, e). maps_line dev inode pad e) ls @ [[]]"
    unfolding maps_file_def
    by (rule Split_Join) (use assms in \<open>auto simp: maps_line_no_newline\<close>)
  then show ?thesis using assms by (simp add: parse_maps_def parse_lines_maps)
qed

lemma is_ok_map: "is_ok (map_res f r) = is_ok r"
  by (cases r) simp_all

text \<open>A panic can only come from a line whose first section holds a number and no dash.\<close>

lemma parse_line_Panic:
  "parse_line line = Panic \<longleftrightarrow>
     3 \<le> length (Split CHR '' '' line) \<and>
     CHR ''-'' \<notin> set (Split CHR '' '' line ! 0) \<and>
     is_ok (parse_hex64 (Split CHR '' '' line ! 0))"
proof -
  define s where "s = Split CHR '' '' line ! 0"
  consider (none) "CHR ''-'' \<notin> set s" "Split CHR ''-'' s = [s]"
    | (dash) a b where "CHR ''-'' \<in> set s" "Split CHR ''-'' s = a # Split CHR ''-'' b"
    by (metis Split_append Split_single split_list_first)
  then show ?thesis
  proof cases
    case none
    then show ?thesis
      by (cases "parse_hex64 s") (auto simp: parse_line_def Let_def s_def [symmetric])
  next
    case dash
    then have "\<not> length (Split CHR ''-'' s) < 2"
      by (cases "Split CHR ''-'' b") auto
    with dash show ?thesis
      by (auto simp: parse_line_def Let_def s_def [symmetric] res_bind_Panic_iff)
  qed
qed

text \<open>The lines are parsed in order: the first one that is not parsed decides.\<close>

lemma parse_lines_Panic:
  "parse_lines ls = Panic \<longleftrightarrow>
     (\<exists>before l after. ls = before @ l # after \<and> list_all (\<lambda>l1. is_ok (parse_line l1)) before \<and> parse_line l = Panic)"
proof (induction ls)
  case (Cons x xs)
  show ?case
  proof (cases "parse_line x")
    case (Ok e)
    then have "parse_lines (x # xs) = Panic \<longleftrightarrow> parse_lines xs = Panic" by (simp add: res_bind_Panic_iff)
    also have "\<dots> \<longleftrightarrow> (\<exists>before l after. xs = before @ l # after \<and>
        list_all (\<lambda>l1. is_ok (parse_line l1)) before \<and> parse_line l = Panic)"
      by (rule Cons.IH)
    also have "\<dots> \<longleftrightarrow> (\<exists>before l after. x # xs = before @ l # after \<and>
        list_all (\<lambda>l1. is_ok (parse_line l1)) before \<and> parse_line l = Panic)" (is "?l \<longleftrightarrow> ?r")
    proof
      assume ?l
      then obtain before l after where "xs = before @ l # after" "list_all (\<lambda>l1. is_ok (parse_line l1)) before"
        "parse_line l = Panic" by blast
      then show ?r using Ok by (intro exI [of _ "x # before"] exI [of _ l] exI [of _ after]) simp
    next
      assume ?r
      then obtain before l after where b: "x # xs = before @ l # after"
        "list_all (\<lambda>l1. is_ok (parse_line l1)) before" "parse_line l = Panic" by blast
      then obtain before' where "before = x # before'" using Ok by (cases before) auto
      with b show ?l by auto
    qed
    finally show ?thesis .
  next
    case Panic
    then have "x # xs = [] @ x # xs \<and> list_all (\<lambda>l1. is_ok (parse_line l1)) [] \<and> parse_line x = Panic" by simp
    then have "\<exists>before l after. x # xs = before @ l # after \<and>
        list_all (\<lambda>l1. is_ok (parse_line l1)) before \<and> parse_line l = Panic" by blast
    then show ?thesis by (simp add: Panic)
  qed (auto simp: Cons_eq_append_conv)
qed simp

section \<open>Properties\<close>

text \<open>
  C33: reading a file of \<open>/proc/[pid]/maps\<close> in the format the kernel prints returns the mappings it
  was printed from, all of them and in order, for every number of mappings, padding, device and
  inode, as long as no path contains a space.
\<close>

theorem ReadMaps_roundtrip:
  assumes "\<forall>(dev, inode, pad, e) \<in> set ls. wf_entry e \<and> plain dev \<and> plain inode"
    and "ReadFileMaps K p w = (Inr (maps_file ls), w')"
  shows "ReadMaps K p w = (Ok (map (\<lambda>(dev, inode, pad, e). e) ls), w')"
  using parse_maps_file [OF assms(1)] assms(2) by (simp add: ReadMaps_def io_defs)

text \<open>
  C40: \<open>ReadMaps\<close> panics exactly when the file has a line of three sections or more whose first section
  is a hexadecimal number without a dash, where the code indexes \<open>addresses[1]\<close>, and every line before
  it is parsed or skipped. An earlier line that is reported as an error keeps it from panicking.
\<close>

theorem ReadMaps_panics:
  "fst (ReadMaps K p w) = Panic \<longleftrightarrow>
     (\<exists>data w' before line after.
        ReadFileMaps K p w = (Inr data, w') \<and> Split CHR ''\<newline>'' data = before @ line # after \<and>
        list_all (\<lambda>l. is_ok (parse_line l)) before \<and>
        3 \<le> length (Split CHR '' '' line) \<and> CHR ''-'' \<notin> set (Split CHR '' '' line ! 0) \<and>
        is_ok (ParseUint (Split CHR '' '' line ! 0) 16 64))"
proof (cases "ReadFileMaps K p w")
  case (Pair r w1)
  show ?thesis
  proof (cases r)
    case (Inl e)
    with Pair show ?thesis by (simp add: ReadMaps_def io_defs)
  next
    case (Inr data)
    with Pair have "fst (ReadMaps K p w) = Panic \<longleftrightarrow> parse_lines (Split CHR ''\<newline>'' data) = Panic"
      by (simp add: ReadMaps_def io_defs parse_maps_def split: res.split)
    also have "\<dots> \<longleftrightarrow> (\<exists>before line after. Split CHR ''\<newline>'' data = before @ line # after \<and>
        list_all (\<lambda>l. is_ok (parse_line l)) before \<and> parse_line line = Panic)"
      by (rule parse_lines_Panic)
    finally show ?thesis using Pair Inr by (simp add: parse_line_Panic parse_hex64_def is_ok_map)
  qed
qed

end
