(* ===== verification/SimKernel.thy ===== *)
theory SimKernel
  imports Kernel
begin

text \<open>
  A small concrete kernel that has the documented behaviour: its processes do nothing of their
  own, memory is a partial function, \<open>mmap\<close> hands out addresses upwards. It shows that the
  hypotheses \<open>kernel_ok\<close> can hold, and the concrete instances of the theorems run on it. Its
  pages have 16 bytes, so that evaluation stays small.
\<close>

unbundle bit_operations_syntax

record sim =
  s_mem :: "int \<Rightarrow> u64 \<Rightarrow> byte option"
  s_regs :: "int \<Rightarrow> ptrace_regs"
  s_traced :: "int set"
  s_threads :: "string list"
  s_maps :: string
  s_next :: u64

definition mapped :: "(u64 \<Rightarrow> byte option) \<Rightarrow> u64 \<Rightarrow> nat \<Rightarrow> bool" where
  "mapped m a n \<longleftrightarrow> list_all (\<lambda>i. m (a + of_nat i) \<noteq> None) [0..<n]"

definition unmapped :: "(u64 \<Rightarrow> byte option) \<Rightarrow> u64 \<Rightarrow> nat \<Rightarrow> bool" where
  "unmapped m a n \<longleftrightarrow> list_all (\<lambda>i. m (a + of_nat i) = None) [0..<n]"

definition mem_read :: "(u64 \<Rightarrow> byte option) \<Rightarrow> u64 \<Rightarrow> nat \<Rightarrow> byte list" where
  "mem_read m a n = map (\<lambda>i. the (m (a + of_nat i))) [0..<n]"

definition mem_write :: "(u64 \<Rightarrow> byte option) \<Rightarrow> u64 \<Rightarrow> byte list \<Rightarrow> (u64 \<Rightarrow> byte option)" where
  "mem_write m a bs = (\<lambda>x. if in_range a (length bs) x then Some (bs ! unat (x - a)) else m x)"

definition sim_read :: "int \<Rightarrow> u64 \<Rightarrow> nat \<Rightarrow> (sim, byte list) syscall" where
  "sim_read p a n w = ((if mapped (s_mem w p) a n then Inr (mem_read (s_mem w p) a n) else Inl 14), w)"

definition sim_write :: "int \<Rightarrow> u64 \<Rightarrow> byte list \<Rightarrow> (sim, nat) syscall" where
  "sim_write p a bs w =
     (if length bs < 2 ^ 64 \<and> mapped (s_mem w p) a (length bs)
      then (Inr (length bs), w\<lparr>s_mem := (s_mem w)(p := mem_write (s_mem w p) a bs)\<rparr>)
      else (Inl 14, w))"

definition sim_poke :: "int \<Rightarrow> u64 \<Rightarrow> byte list \<Rightarrow> (sim, unit) syscall" where
  "sim_poke p a bs w = (case sim_write p a bs w of (Inr n, w') \<Rightarrow> (Inr (), w') | (Inl e, w') \<Rightarrow> (Inl 5, w'))"

definition sim_at_mmap :: "arch \<Rightarrow> int \<Rightarrow> sim \<Rightarrow> bool" where
  "sim_at_mmap A p w \<longleftrightarrow>
     (let r = s_regs w p; i = syscall_insn A in
        mapped (s_mem w p) (r (ip_reg A)) (length i) \<and>
        mem_read (s_mem w p) (r (ip_reg A)) (length i) = i \<and>
        r (nr_reg A) = 9 \<and> r (arg_reg A 0) = 0 \<and> r (arg_reg A 3) = 0x22)"

definition sim_step :: "arch \<Rightarrow> int \<Rightarrow> (sim, unit) syscall" where
  "sim_step A p w =
     (if sim_at_mmap A p w then
        let n = unat (s_regs w p (arg_reg A 1)); a = s_next w in
        if 0 < n \<and> unat a + n \<le> 2 ^ 64 \<and> unmapped (s_mem w p) a n then
          (Inr (), w\<lparr>s_mem := (s_mem w)(p := mem_write (s_mem w p) a (replicate n 0)),
                    s_regs := (s_regs w)(p := (s_regs w p)(ret_reg A := a)),
                    s_next := a + of_nat n\<rparr>)
        else (Inr (), w\<lparr>s_regs := (s_regs w)(p := (s_regs w p)(ret_reg A := 0xFFFFFFFFFFFFFFF4))\<rparr>)
      else (Inl 3, w))"

definition sim_kernel :: "arch \<Rightarrow> sim kspec" where
  "sim_kernel A =
     \<lparr>ReadDirTask = (\<lambda>p w. (Inr (s_threads w), w)),
      ReadFileMaps = (\<lambda>p w. (Inr (s_maps w), w)),
      Getpagesize = 16,
      PtraceSeize = (\<lambda>t w. (Inr (), w\<lparr>s_traced := insert t (s_traced w)\<rparr>)),
      PtraceInterrupt = (\<lambda>t w. (Inr (), w)),
      PtraceDetach = (\<lambda>t w. (Inr (), w\<lparr>s_traced := s_traced w - {t}\<rparr>)),
      Wait4 = (\<lambda>t w. (Inr t, w)),
      PtraceGetRegs = (\<lambda>p w. (Inr (s_regs w p), w)),
      PtraceSetRegs = (\<lambda>p r w. (Inr (), w\<lparr>s_regs := (s_regs w)(p := r)\<rparr>)),
      PtracePeekData = sim_read,
      PtracePokeData = sim_poke,
      PtraceSingleStep = sim_step A,
      ProcessVMReadv = sim_read,
      ProcessVMWritev = sim_write,
      SYS_MMAP = 9, PROT_READ = 1, PROT_WRITE = 2, PROT_EXEC = 4,
      MAP_ANON = 0x20, MAP_PRIVATE = 2,
      mem_of = s_mem, regs_of = s_regs, traced_of = s_traced, stopped_of = s_traced, still = (\<lambda>_. UNIV)\<rparr>"

lemma sim_fields [simp]:
  "ReadDirTask (sim_kernel A) = (\<lambda>p w. (Inr (s_threads w), w))"
  "ReadFileMaps (sim_kernel A) = (\<lambda>p w. (Inr (s_maps w), w))"
  "Getpagesize (sim_kernel A) = 16"
  "PtraceSeize (sim_kernel A) = (\<lambda>t w. (Inr (), w\<lparr>s_traced := insert t (s_traced w)\<rparr>))"
  "PtraceInterrupt (sim_kernel A) = (\<lambda>t w. (Inr (), w))"
  "PtraceDetach (sim_kernel A) = (\<lambda>t w. (Inr (), w\<lparr>s_traced := s_traced w - {t}\<rparr>))"
  "Wait4 (sim_kernel A) = (\<lambda>t w. (Inr t, w))"
  "PtraceGetRegs (sim_kernel A) = (\<lambda>p w. (Inr (s_regs w p), w))"
  "PtraceSetRegs (sim_kernel A) = (\<lambda>p r w. (Inr (), w\<lparr>s_regs := (s_regs w)(p := r)\<rparr>))"
  "PtracePeekData (sim_kernel A) = sim_read"
  "PtracePokeData (sim_kernel A) = sim_poke"
  "PtraceSingleStep (sim_kernel A) = sim_step A"
  "ProcessVMReadv (sim_kernel A) = sim_read"
  "ProcessVMWritev (sim_kernel A) = sim_write"
  "SYS_MMAP (sim_kernel A) = 9" "PROT_READ (sim_kernel A) = 1" "PROT_WRITE (sim_kernel A) = 2"
  "PROT_EXEC (sim_kernel A) = 4" "MAP_ANON (sim_kernel A) = 0x20" "MAP_PRIVATE (sim_kernel A) = 2"
  "mem_of (sim_kernel A) = s_mem" "regs_of (sim_kernel A) = s_regs"
  "traced_of (sim_kernel A) = s_traced" "stopped_of (sim_kernel A) = s_traced" "still (sim_kernel A) = (\<lambda>_. UNIV)"
  by (simp_all add: sim_kernel_def)

section \<open>The documented behaviour holds\<close>

lemma mapped_iff: "mapped m a n \<longleftrightarrow> (\<forall>i < n. m (a + of_nat i) \<noteq> None)"
  by (auto simp: mapped_def list_all_iff)

lemma unmapped_iff: "unmapped m a n \<longleftrightarrow> (\<forall>i < n. m (a + of_nat i) = None)"
  by (auto simp: unmapped_def list_all_iff)

lemma holds_at_mem_write: "length bs \<le> 2 ^ 64 \<Longrightarrow> holds_at (mem_write m a bs) a bs"
  by (auto simp: holds_at_def mem_write_def in_range_def unat_of_nat)

lemma length_mem_read: "length (mem_read m a n) = n"
  by (simp add: mem_read_def)

lemma holds_at_mem_read: "mapped m a n \<Longrightarrow> holds_at m a (mem_read m a n)"
  by (auto simp: holds_at_def mem_read_def mapped_iff)

lemma holds_at_mem_read_eq: "holds_at m a bs \<Longrightarrow> mapped m a (length bs) \<and> mem_read m a (length bs) = bs"
  by (auto simp: holds_at_def mem_read_def mapped_iff intro!: nth_equalityI)

lemma sim_write_same_but: "same_but (sim_kernel A) p a (length bs) w (snd (sim_write p a bs w))"
  by (auto simp: sim_write_def same_but_def mem_write_def)

lemma sim_write_holds:
  "sim_write p a bs w = (Inr n, w') \<Longrightarrow> holds_at (s_mem w' p) a bs"
  by (auto simp: sim_write_def holds_at_mem_write split: if_splits)

lemma sim_poke_snd: "snd (sim_poke p a bs w) = snd (sim_write p a bs w)"
  by (auto simp: sim_poke_def split: prod.splits sum.splits)

lemma sim_poke_Inr: "sim_poke p a bs w = (Inr u, w') \<Longrightarrow> \<exists>n. sim_write p a bs w = (Inr n, w')"
  by (auto simp: sim_poke_def split: prod.splits sum.splits)

lemma sim_write_regs: "s_regs (snd (sim_write p a bs w)) = s_regs w"
  by (simp add: sim_write_def)

lemma sim_readers_ok: "readers_ok (sim_kernel A)"
  by (simp add: readers_ok_def reads_only_def same_mem_def sim_read_def)

lemma sim_reads_ok: "reads_ok (sim_kernel A)"
  by (auto simp: reads_ok_def sim_read_def holds_at_mem_read length_mem_read
      split: if_splits)

lemma sim_writes_ok: "writes_ok (sim_kernel A)"
  using sim_write_same_but [of A]
  by (auto simp: writes_ok_def sim_poke_snd sim_write_holds
      dest!: sim_poke_Inr)

lemma sim_regs_ok: "regs_ok (sim_kernel A)"
  by (auto simp: regs_ok_def sim_read_def sim_poke_snd sim_write_regs)

lemma sim_attach_ok: "attach_ok (sim_kernel A)"
  by (auto simp: attach_ok_def keeps_stopped_def)

lemma sim_step_ok: "step_ok A (sim_kernel A)"
proof -
  have at: "sim_at_mmap A p w" if "at_mmap A (sim_kernel A) p w" for p w
    using that holds_at_mem_read_eq
    by (simp add: at_mmap_def sim_at_mmap_def Let_def)
  have other: "same_other (sim_kernel A) p w (snd (sim_step A p w))" for p w
    by (simp add: same_other_def sim_step_def Let_def)
  have mmap: "(\<forall>x. s_mem w p x = None \<or> s_mem w' p x = s_mem w p x) \<and>
      (0xFFFFFFFFFFFFF000 < s_regs w' p (ret_reg A) \<or>
       fresh_pages (sim_kernel A) p (s_regs w' p (ret_reg A)) (unat (s_regs w p (arg_reg A 1))) w w')"
    if "sim_at_mmap A p w" "sim_step A p w = (r, w')" for p w r w'
  proof (cases "let n = unat (s_regs w p (arg_reg A 1)); a = s_next w in
      0 < n \<and> unat a + n \<le> 2 ^ 64 \<and> unmapped (s_mem w p) a n")
    case True
    define n where "n = unat (s_regs w p (arg_reg A 1))"
    have h: "unat (s_next w) + n \<le> 2 ^ 64" "unmapped (s_mem w p) (s_next w) n"
      using True by (simp_all add: n_def Let_def)
    have w': "w' = w\<lparr>s_mem := (s_mem w)(p := mem_write (s_mem w p) (s_next w) (replicate n 0)),
                    s_regs := (s_regs w)(p := (s_regs w p)(ret_reg A := s_next w)),
                    s_next := s_next w + of_nat n\<rparr>"
      using that True by (simp add: sim_step_def Let_def n_def)
    have "holds_at (s_mem w' p) (s_next w) (replicate n 0)"
      using h(1) w' holds_at_mem_write [of "replicate n 0"] by simp
    then have zero: "\<forall>i < n. s_mem w' p (s_next w + of_nat i) = Some 0"
      by (simp add: holds_at_def)
    have none: "s_mem w p x = None" if "in_range (s_next w) n x" for x
      using that h(2) by (auto simp: in_range_iff unmapped_iff)
    have keep: "s_mem w p x = None \<or> s_mem w' p x = s_mem w p x" for x
      using none [of x] w' by (simp add: mem_write_def)
    have ret: "s_regs w' p (ret_reg A) = s_next w" using w' by simp
    have "fresh_pages (sim_kernel A) p (s_next w) n w w'"
      using h zero unfolding fresh_pages_def unmapped_iff by simp
    with keep show ?thesis unfolding ret n_def by blast
  next
    case False
    with that have "w' = w\<lparr>s_regs := (s_regs w)(p := (s_regs w p)(ret_reg A := 0xFFFFFFFFFFFFFFF4))\<rparr>"
      by (auto simp: sim_step_def Let_def split: if_splits)
    then show ?thesis by simp
  qed
  show ?thesis
    unfolding step_ok_def
  proof (intro allI impI)
    fix p w r w' assume run: "PtraceSingleStep (sim_kernel A) p w = (r, w')"
    then have "same_other (sim_kernel A) p w w'" using other [of p w] by simp
    moreover have "at_mmap A (sim_kernel A) p w \<Longrightarrow> sim_at_mmap A p w" by (rule at)
    ultimately show "same_other (sim_kernel A) p w w' \<and>
        (at_mmap A (sim_kernel A) p w \<longrightarrow>
           (\<forall>x \<in> still (sim_kernel A) p. mem_of (sim_kernel A) w p x = None \<or>
              mem_of (sim_kernel A) w' p x = mem_of (sim_kernel A) w p x) \<and>
           (r = Inr () \<longrightarrow>
              0xFFFFFFFFFFFFF000 < regs_of (sim_kernel A) w' p (ret_reg A) \<or>
              fresh_pages (sim_kernel A) p (regs_of (sim_kernel A) w' p (ret_reg A))
                (unat (regs_of (sim_kernel A) w p (arg_reg A 1))) w w'))"
      using mmap [of p w r w'] run by simp
  qed
qed

lemma sim_kernel_ok: "kernel_ok A (sim_kernel A)"
  by (simp add: kernel_ok_def sim_readers_ok sim_reads_ok sim_writes_ok sim_regs_ok
      sim_attach_ok sim_step_ok)

section \<open>Evaluation\<close>

text \<open>Writing keeps memory mapped, so that a run is evaluated without looking at the bytes.\<close>

lemma mapped_mem_write [simp]: "mapped m b n \<Longrightarrow> mapped (mem_write m a bs) b n"
  by (simp add: mapped_iff mem_write_def)

lemma mapped_pages [simp]:
  assumes "a \<le> b" "unat (b - a) + n \<le> length bs" "length bs < 2 ^ 64"
  shows "mapped (mem_write m a bs) b n"
proof -
  have "in_range a (length bs) (b + of_nat i)" if "i < n" for i
  proof -
    have "b + of_nat i = a + of_nat (unat (b - a) + i)" by simp
    then show ?thesis using in_rangeI [of "unat (b - a) + i" "length bs" a] assms(2,3) that by simp
  qed
  then show ?thesis by (simp add: mapped_iff mem_write_def)
qed

lemma sim_write_eval [simp]:
  "mapped (s_mem w p) a (length bs) \<Longrightarrow> length bs < 2 ^ 64 \<Longrightarrow>
     sim_write p a bs w = (Inr (length bs), w\<lparr>s_mem := (s_mem w)(p := mem_write (s_mem w p) a bs)\<rparr>)"
  by (simp add: sim_write_def)

lemma sim_poke_eval [simp]:
  "mapped (s_mem w p) a (length bs) \<Longrightarrow> length bs < 2 ^ 64 \<Longrightarrow>
     sim_poke p a bs w = (Inr (), w\<lparr>s_mem := (s_mem w)(p := mem_write (s_mem w p) a bs)\<rparr>)"
  by (simp add: sim_poke_def)

lemma sim_read_eval [simp]:
  "mapped (s_mem w p) a n \<Longrightarrow> sim_read p a n w = (Inr (mem_read (s_mem w p) a n), w)"
  by (simp add: sim_read_def)

lemma mem_read_write [simp]:
  "n = length bs \<Longrightarrow> n < 2 ^ 64 \<Longrightarrow> mem_read (mem_write m a bs) a n = bs"
  using holds_at_mem_read_eq [OF holds_at_mem_write [of bs m a]] by simp

lemma length_mem_read_simp [simp]: "length (mem_read m a n) = n"
  by (rule length_mem_read)

lemma unmapped_write [simp]:
  assumes "unmapped m b n" "length bs \<le> unat (b - a)" "unat (b - a) + n \<le> 2 ^ 64"
  shows "unmapped (mem_write m a bs) b n"
proof -
  have "\<not> in_range a (length bs) (b + of_nat i)" if "i < n" for i
  proof -
    have "b + of_nat i - a = (b - a) + of_nat i" by simp
    moreover have "unat ((b - a) + of_nat i) = unat (b - a) + i"
      using that assms(3) by (simp add: unat_word_ariths unat_of_nat)
    ultimately have "unat (b + of_nat i - a) = unat (b - a) + i" by (simp only:)
    then show ?thesis using assms(2) by (simp add: in_range_def)
  qed
  with assms(1) show ?thesis by (simp add: unmapped_iff mem_write_def)
qed

lemma unmapped_empty [simp]: "unmapped (\<lambda>_. None) b n"
  by (simp add: unmapped_iff)

end
