(* ===== verification/Tracing.thy ===== *)
theory Tracing
  imports MapsReader SimKernel
begin

text \<open>
  \<open>ptrace_linux.go\<close>, first part: the traced program, attaching to every thread of a process and
  detaching again.
\<close>

section \<open>The traced program\<close>

text \<open>
  The struct \<open>TracedProgram\<close> in two parts: what \<open>Trace\<close> sets once and the methods only read, and
  the back-up of registers and code, which \<open>Protect\<close> overwrites.
\<close>

record TracedProgram =
  pid :: int
  tids :: "int list"
  Entries :: "Entry list"

record backup =
  backupRegs :: ptrace_regs
  backupCode :: "byte list"

definition waitPid :: "('w, 'z) kernel_scheme \<Rightarrow> int \<Rightarrow> ('w, unit) io" where
  "waitPid K p =
     and_then (sys (Wait4 K p)) (\<lambda>wpid.
       if wpid = p then ret () else throw (Errorf ''waitpid ret value: %d'' []))"

section \<open>Trace\<close>

text \<open>
  The local variables of \<open>Trace\<close>: the map of the threads seen so far (a set: every stored value
  is \<open>true\<close>) and the slice the deferred clean-up walks over.
\<close>

record trace_vars =
  tidMap :: "int set"
  attachedTids :: "int list"

text \<open>
  The loop over one listing of \<open>/proc/[pid]/task\<close>, with the flag \<open>subset\<close> and the map \<open>tids\<close> of
  this listing. A new thread is recorded for the clean-up after \<open>PtraceSeize\<close> and
  \<open>PtraceInterrupt\<close> have both succeeded, and in \<open>tidMap\<close> after it has stopped.
\<close>

fun scan_threads ::
  "('w, 'z) kernel_scheme \<Rightarrow> string list \<Rightarrow> bool \<Rightarrow> int set \<Rightarrow> (trace_vars \<times> 'w, bool \<times> int set) io" where
  "scan_threads K [] sub seen = ret (sub, seen)"
| "scan_threads K (name # names) sub seen =
     and_then (lift_res (ParseInt name 10 32)) (\<lambda>tid.
     and_then get_fst (\<lambda>v.
     if tid \<in> tidMap v then scan_threads K names sub (insert tid seen)
     else
       and_then (on_snd (sys (PtraceSeize K tid))) (\<lambda>_.
       and_then (on_snd (sys (PtraceInterrupt K tid))) (\<lambda>_.
       and_then (put_fst (v\<lparr>attachedTids := attachedTids v @ [tid]\<rparr>)) (\<lambda>_.
       and_then (on_snd (waitPid K tid)) (\<lambda>_.
       and_then (put_fst (v\<lparr>attachedTids := attachedTids v @ [tid],
                            tidMap := insert tid (tidMap v)\<rparr>)) (\<lambda>_.
       scan_threads K names False (insert tid seen))))))))"

text \<open>Every thread number fits an \<open>int32\<close>: the bound on which the outer loop terminates.\<close>

abbreviation tid_range :: "int set" where
  "tid_range \<equiv> {- (2 ^ 31)..<2 ^ 31}"

lemma scan_threads_tidMap:
  "scan_threads K names sub seen (v, w) = (Ok (sub', seen'), (v', w')) \<Longrightarrow>
     tidMap v \<subseteq> tidMap v' \<and> tidMap v' \<subseteq> tidMap v \<union> tid_range \<and>
     (\<not> sub' \<longrightarrow> \<not> sub \<or> (\<exists>t \<in> tid_range. t \<notin> tidMap v \<and> t \<in> tidMap v'))"
proof (induction names arbitrary: sub seen v w)
  case Nil
  then show ?case by (auto simp: io_ok)
next
  case (Cons name names)
  from Cons.prems obtain tid where tid: "ParseInt name 10 32 = Ok tid"
    by (auto simp: io_ok)
  then have r: "tid \<in> tid_range" using ParseInt_bounds [OF tid] by simp
  show ?case
  proof (cases "tid \<in> tidMap v")
    case True
    with Cons.prems tid have "scan_threads K names sub (insert tid seen) (v, w) =
        (Ok (sub', seen'), (v', w'))"
      by (simp add: and_then_def lift_res_def get_fst_def)
    then show ?thesis by (rule Cons.IH)
  next
    case False
    with Cons.prems tid obtain w1 where "scan_threads K names False (insert tid seen)
        (v\<lparr>attachedTids := attachedTids v @ [tid], tidMap := insert tid (tidMap v)\<rparr>, w1) =
        (Ok (sub', seen'), (v', w'))"
      by (auto simp: io_ok)
    from Cons.IH [OF this] False r show ?thesis by auto
  qed
qed

text \<open>The loop over the listings, until one holds no new thread. It returns the last listing's map.\<close>

function trace_loop :: "('w, 'z) kernel_scheme \<Rightarrow> int \<Rightarrow> trace_vars \<times> 'w \<Rightarrow> int set res \<times> (trace_vars \<times> 'w)" where
  "trace_loop K p (v, w) =
     (case sys (ReadDirTask K p) w of
        (Ok threads, w1) \<Rightarrow>
          (case scan_threads K threads True {} (v, w1) of
             (Ok (sub, seen), (v2, w2)) \<Rightarrow>
               if sub then (Ok seen, (v2\<lparr>tidMap := seen\<rparr>, w2)) else trace_loop K p (v2, w2)
           | (Err e, vw2) \<Rightarrow> (Err e, vw2)
           | (Panic, vw2) \<Rightarrow> (Panic, vw2))
      | (Err e, w1) \<Rightarrow> (Err e, (v, w1))
      | (Panic, w1) \<Rightarrow> (Panic, (v, w1)))"
  by pat_completeness auto
termination
proof (relation "measure (\<lambda>(K, p, v, w). card (tid_range - tidMap v))", goal_cases)
  case 1
  show ?case by simp
next
  case (2 K p v w r w1 threads r2 vw2 q sub seen v2 w2)
  then have "tidMap v \<subseteq> tidMap v2" "\<exists>t \<in> tid_range. t \<notin> tidMap v \<and> t \<in> tidMap v2"
    using scan_threads_tidMap [of K threads True "{}" v w1 sub seen v2 w2] by auto
  then have "tid_range - tidMap v2 \<subset> tid_range - tidMap v" by blast
  then show ?case by (simp add: psubset_card_mono)
qed

declare trace_loop.simps [simp del]

definition trace_body :: "('w, 'z) kernel_scheme \<Rightarrow> int \<Rightarrow> nat \<Rightarrow> (trace_vars \<times> 'w, TracedProgram \<times> backup) io" where
  "trace_body K p instrSize =
     and_then (trace_loop K p) (\<lambda>seen.
     and_then (on_snd (ReadMaps K p)) (\<lambda>entries.
       ret (\<lparr>pid = p, tids = sorted_list_of_set seen, Entries = entries\<rparr>,
            \<lparr>backupRegs = (\<lambda>_. 0), backupCode = replicate instrSize 0\<rparr>)))"

text \<open>The deferred clean-up: every recorded thread is detached, errors are only logged.\<close>

definition detach_all :: "('w, 'z) kernel_scheme \<Rightarrow> int list \<Rightarrow> 'w \<Rightarrow> 'w" where
  "detach_all K ts w = fold (\<lambda>t w. snd (PtraceDetach K t w)) ts w"

definition Trace :: "('w, 'z) kernel_scheme \<Rightarrow> nat \<Rightarrow> int \<Rightarrow> ('w, TracedProgram \<times> backup) io" where
  "Trace K instrSize p w =
     (case trace_body K p instrSize (\<lparr>tidMap = {}, attachedTids = []\<rparr>, w) of
        (r, (v, w')) \<Rightarrow> (r, if is_ok r then w' else detach_all K (attachedTids v) w'))"

section \<open>Detach\<close>

fun detach_threads :: "('w, 'z) kernel_scheme \<Rightarrow> int list \<Rightarrow> ('w, unit) io" where
  "detach_threads K [] = ret ()"
| "detach_threads K (t # ts) =
     and_then (attempt (sys (PtraceDetach K t))) (\<lambda>x.
       case x of
         Inl e \<Rightarrow> if is_esrch e then detach_threads K ts else throw e
       | Inr _ \<Rightarrow> detach_threads K ts)"

definition Detach :: "('w, 'z) kernel_scheme \<Rightarrow> TracedProgram \<Rightarrow> ('w, unit) io" where
  "Detach K P = detach_threads K (tids P)"

section \<open>What the loop records\<close>

definition tids_of :: "string list \<Rightarrow> int set" where
  "tids_of names = {t. \<exists>n \<in> set names. ParseInt n 10 32 = Ok t}"

definition trace_inv :: "trace_vars \<Rightarrow> bool" where
  "trace_inv v \<longleftrightarrow> distinct (attachedTids v) \<and> set (attachedTids v) = tidMap v"

lemma scan_threads_inv:
  "scan_threads K names sub seen (v, w) = (Ok (sub', seen'), (v', w')) \<Longrightarrow> trace_inv v \<Longrightarrow>
     seen \<subseteq> tidMap v \<Longrightarrow>
     trace_inv v' \<and> seen' = seen \<union> tids_of names \<and> seen' \<subseteq> tidMap v'"
proof (induction names arbitrary: sub seen v w)
  case Nil
  then show ?case by (auto simp: io_ok tids_of_def)
next
  case (Cons name names)
  from Cons.prems(1) obtain tid where tid: "ParseInt name 10 32 = Ok tid"
    by (auto simp: io_ok)
  then have ins: "insert tid seen \<union> tids_of names = seen \<union> tids_of (name # names)"
    by (auto simp: tids_of_def)
  show ?case
  proof (cases "tid \<in> tidMap v")
    case True
    with Cons.prems(1) tid have "scan_threads K names sub (insert tid seen) (v, w) =
        (Ok (sub', seen'), (v', w'))"
      by (simp add: and_then_def lift_res_def get_fst_def)
    from Cons.IH [OF this Cons.prems(2)] Cons.prems(3) True ins show ?thesis by auto
  next
    case False
    with Cons.prems(1) tid obtain w1 where *: "scan_threads K names False (insert tid seen)
        (v\<lparr>attachedTids := attachedTids v @ [tid], tidMap := insert tid (tidMap v)\<rparr>, w1) =
        (Ok (sub', seen'), (v', w'))"
      by (auto simp: io_ok)
    have "trace_inv (v\<lparr>attachedTids := attachedTids v @ [tid], tidMap := insert tid (tidMap v)\<rparr>)"
      using Cons.prems(2) False by (auto simp: trace_inv_def)
    from Cons.IH [OF * this] Cons.prems(3) ins show ?thesis by auto
  qed
qed

text \<open>A listing without a new thread makes no system call.\<close>

lemma scan_threads_sub:
  "scan_threads K names sub seen (v, w) = (Ok (sub', seen'), (v', w')) \<Longrightarrow> sub' \<Longrightarrow> sub \<and> v' = v \<and> w' = w"
proof (induction names arbitrary: sub seen v w)
  case Nil
  then show ?case by (simp add: io_ok)
next
  case (Cons name names)
  from Cons.prems obtain tid where tid: "ParseInt name 10 32 = Ok tid" by (auto simp: io_ok)
  show ?case
  proof (cases "tid \<in> tidMap v")
    case True
    with Cons.prems tid have "scan_threads K names sub (insert tid seen) (v, w) =
        (Ok (sub', seen'), (v', w'))"
      by (simp add: and_then_def lift_res_def get_fst_def)
    from Cons.IH [OF this Cons.prems(2)] show ?thesis .
  next
    case False
    with Cons.prems(1) tid obtain w1 where "scan_threads K names False (insert tid seen)
        (v\<lparr>attachedTids := attachedTids v @ [tid], tidMap := insert tid (tidMap v)\<rparr>, w1) =
        (Ok (sub', seen'), (v', w'))"
      by (auto simp: io_ok)
    from Cons.IH [OF this Cons.prems(2)] show ?thesis by simp
  qed
qed

text \<open>
  When the loop ends, the threads it returns are those of its last listing, in the state that this
  listing left, and each of them has been attached, once.
\<close>

lemma trace_loop_listing:
  "trace_loop K p s = (Ok seen, (v', w')) \<Longrightarrow> trace_inv (fst s) \<Longrightarrow>
     distinct (attachedTids v') \<and> seen \<subseteq> set (attachedTids v') \<and>
     (\<exists>u names. ReadDirTask K p u = (Inr names, w') \<and> seen = tids_of names)"
proof (induction K p s rule: trace_loop.induct)
  case (1 K p v w)
  from "1.prems"(1) obtain names w1 where rd: "sys (ReadDirTask K p) w = (Ok names, w1)"
    by (subst (asm) trace_loop.simps) (auto split: prod.splits res.splits)
  with "1.prems"(1) obtain sub s2 v2 w2
    where sc: "scan_threads K names True {} (v, w1) = (Ok (sub, s2), (v2, w2))"
    by (subst (asm) trace_loop.simps) (auto split: prod.splits res.splits)
  have inv: "trace_inv v2" "s2 = tids_of names" "s2 \<subseteq> tidMap v2"
    using scan_threads_inv [OF sc] "1.prems"(2) by auto
  show ?case
  proof (cases sub)
    case True
    with "1.prems"(1) rd sc have "seen = s2" "v' = v2\<lparr>tidMap := s2\<rparr>" "w' = w2"
      by (subst (asm) trace_loop.simps; simp)+
    moreover have "w2 = w1" using scan_threads_sub [OF sc True] by simp
    ultimately show ?thesis using inv rd by (auto simp: trace_inv_def io_ok)
  next
    case False
    with "1.prems"(1) rd sc have "trace_loop K p (v2, w2) = (Ok seen, (v', w'))"
      by (subst (asm) trace_loop.simps) simp
    with "1.IH" [OF rd [symmetric] refl sc [symmetric] refl refl refl] False inv show ?thesis by auto
  qed
qed

section \<open>Which threads stay attached\<close>

text \<open>A thread that is settled can be detached: it is stopped, or not attached at all.\<close>

definition settled :: "('w, 'z) kspec_scheme \<Rightarrow> 'w \<Rightarrow> int \<Rightarrow> bool" where
  "settled K w t \<longleftrightarrow> t \<in> stopped_of K w \<or> t \<notin> traced_of K w"

lemma settled_kept: "keeps_stopped K w w' \<Longrightarrow> settled K w t \<Longrightarrow> settled K w' t"
  by (auto simp: keeps_stopped_def settled_def)

lemma keeps_stopped_trans: "keeps_stopped K w w1 \<Longrightarrow> keeps_stopped K w1 w2 \<Longrightarrow> keeps_stopped K w w2"
  by (auto simp: keeps_stopped_def)

lemma keeps_stopped_refl: "keeps_stopped K w w"
  by (simp add: keeps_stopped_def)

lemma attach_laws:
  assumes "attach_ok K"
  shows "PtraceInterrupt K t w = (r1, w1) \<Longrightarrow> keeps_stopped K w w1"
    and "Wait4 K t w = (r2, w2) \<Longrightarrow> keeps_stopped K w w2"
    and "Wait4 K t w = (Inr t, w3) \<Longrightarrow> settled K w3 t"
    and "ReadDirTask K p w = (r4, w4) \<Longrightarrow> keeps_stopped K w w4"
    and "ReadFileMaps K p w = (r5, w5) \<Longrightarrow> keeps_stopped K w w5"
  using assms unfolding attach_ok_def settled_def by (metis snd_conv)+

lemma seize_laws:
  assumes "attach_ok K"
  shows "PtraceSeize K t w = (Inr u, w') \<Longrightarrow> traced_of K w' \<subseteq> insert t (traced_of K w)"
    and "PtraceSeize K t w = (Inl e, w') \<Longrightarrow> traced_of K w' \<subseteq> traced_of K w"
    and "PtraceSeize K t w = (r, w') \<Longrightarrow> s \<noteq> t \<or> r \<noteq> Inr () \<Longrightarrow> settled K w s \<Longrightarrow> settled K w' s"
proof -
  have law: "traced_of K w' \<subseteq> (case r of Inr _ \<Rightarrow> insert t (traced_of K w) | Inl _ \<Rightarrow> traced_of K w) \<and>
      stopped_of K w \<inter> traced_of K w' \<subseteq> stopped_of K w'" if "PtraceSeize K t w = (r, w')" for r w'
    using assms that unfolding attach_ok_def by blast
  show "PtraceSeize K t w = (Inr u, w') \<Longrightarrow> traced_of K w' \<subseteq> insert t (traced_of K w)"
    using law [of "Inr u" w'] by simp
  show "PtraceSeize K t w = (Inl e, w') \<Longrightarrow> traced_of K w' \<subseteq> traced_of K w"
    using law [of "Inl e" w'] by simp
  show "settled K w' s" if "PtraceSeize K t w = (r, w')" "s \<noteq> t \<or> r \<noteq> Inr ()" "settled K w s"
    using law [OF that(1)] that(2,3) by (cases r) (auto simp: settled_def)
qed

lemma detach_laws:
  assumes "attach_ok K" "PtraceDetach K t w = (r, w')"
  shows "traced_of K w' \<subseteq> traced_of K w" "settled K w s \<Longrightarrow> settled K w' s"
    "settled K w t \<Longrightarrow> t \<notin> traced_of K w'"
proof -
  have law: "traced_of K w' \<subseteq> traced_of K w \<and> (stopped_of K w - {t}) \<inter> traced_of K w' \<subseteq> stopped_of K w' \<and>
      (t \<in> stopped_of K w \<or> r = Inr () \<longrightarrow> t \<notin> traced_of K w')"
    using assms unfolding attach_ok_def by blast
  then show "traced_of K w' \<subseteq> traced_of K w" and "settled K w s \<Longrightarrow> settled K w' s"
    and "settled K w t \<Longrightarrow> t \<notin> traced_of K w'"
    by (auto simp: settled_def)
qed

text \<open>The interrupt and the wait that follow a seize.\<close>

definition stop_thread :: "('w, 'z) kernel_scheme \<Rightarrow> int \<Rightarrow> ('w, unit) io" where
  "stop_thread K t = and_then (sys (PtraceInterrupt K t)) (\<lambda>_. waitPid K t)"

lemma waitPid_laws:
  assumes "attach_ok K" "waitPid K t w = (r, w')"
  shows "keeps_stopped K w w'" "is_ok r \<Longrightarrow> settled K w' t"
proof -
  obtain x w1 where wt: "Wait4 K t w = (x, w1)" by fastforce
  have e: "w' = w1 \<and> (is_ok r \<longrightarrow> x = Inr t)"
    using assms(2) wt by (cases x) (auto simp: waitPid_def io_defs split: if_splits)
  then show "keeps_stopped K w w'" using attach_laws(2) [OF assms(1) wt] by simp
  assume "is_ok r"
  with e wt have "Wait4 K t w = (Inr t, w')" by simp
  then show "settled K w' t" by (rule attach_laws(3) [OF assms(1)])
qed

lemma stop_thread_laws:
  assumes "attach_ok K" "stop_thread K t w = (r, w')"
  shows "keeps_stopped K w w'" "is_ok r \<Longrightarrow> settled K w' t"
proof -
  obtain x w1 where i: "PtraceInterrupt K t w = (x, w1)" by fastforce
  have k1: "keeps_stopped K w w1" by (rule attach_laws(1) [OF assms(1) i])
  have "keeps_stopped K w w' \<and> (is_ok r \<longrightarrow> settled K w' t)"
  proof (cases x)
    case (Inl e)
    with assms(2) i k1 show ?thesis by (auto simp: stop_thread_def io_defs)
  next
    case (Inr u)
    with assms(2) i have "waitPid K t w1 = (r, w')" by (simp add: stop_thread_def io_defs)
    from waitPid_laws [OF assms(1) this] keeps_stopped_trans [OF k1] show ?thesis by blast
  qed
  then show "keeps_stopped K w w'" "is_ok r \<Longrightarrow> settled K w' t" by simp_all
qed

text \<open>
  \<open>on_list\<close>: a thread that has become attached is on the list of the clean-up, and settled if the
  threads on the list were. \<open>leak e\<close>: the same but for one thread, which was seized and could not be
  stopped; the error of that is \<open>e\<close>, and the state is the one this left.
\<close>

definition on_list :: "('w, 'z) kspec_scheme \<Rightarrow> int set \<Rightarrow> trace_vars \<times> 'w \<Rightarrow> trace_vars \<times> 'w \<Rightarrow> bool" where
  "on_list K X s s' \<longleftrightarrow>
     set (attachedTids (fst s)) \<subseteq> set (attachedTids (fst s')) \<and>
     traced_of K (snd s') \<subseteq> traced_of K (snd s) \<union> set (attachedTids (fst s')) \<union> X \<and>
     ((\<forall>t \<in> set (attachedTids (fst s)). settled K (snd s) t) \<longrightarrow>
      (\<forall>t \<in> set (attachedTids (fst s')) - X. settled K (snd s') t))"

definition leak :: "('w, 'z) kspec_scheme \<Rightarrow> gerr \<Rightarrow> trace_vars \<times> 'w \<Rightarrow> trace_vars \<times> 'w \<Rightarrow> bool" where
  "leak K e s s' \<longleftrightarrow>
     (\<exists>t u u1. PtraceSeize K t u = (Inr (), u1) \<and> stop_thread K t u1 = (Err e, snd s') \<and> on_list K {t} s s')"

lemma on_list_refl: "on_list K {} s s"
  by (simp add: on_list_def)

lemma on_list_trans: "on_list K {} s s1 \<Longrightarrow> on_list K X s1 s2 \<Longrightarrow> on_list K X s s2"
  by (auto simp: on_list_def)

lemma leak_trans:
  assumes "on_list K {} s s1" "leak K e s1 s2"
  shows "leak K e s s2"
proof -
  obtain t u u1 where "PtraceSeize K t u = (Inr (), u1)" "stop_thread K t u1 = (Err e, snd s2)" "on_list K {t} s1 s2"
    using assms(2) unfolding leak_def by (elim exE conjE)
  with on_list_trans [OF assms(1)] show ?thesis unfolding leak_def by (intro exI conjI)
qed

lemma on_list_kept:
  assumes "keeps_stopped K w w'"
  shows "on_list K {} (v, w) (v\<lparr>tidMap := m\<rparr>, w')"
proof -
  have "traced_of K w' \<subseteq> traced_of K w" using assms by (simp add: keeps_stopped_def)
  then show ?thesis using settled_kept [OF assms] by (auto simp: on_list_def)
qed

text \<open>Attaching to one new thread, up to the stop.\<close>

abbreviation attach_one ::
  "('w, 'z) kspec_scheme \<Rightarrow> trace_vars \<Rightarrow> int \<Rightarrow> (trace_vars \<times> 'w, unit) io" where
  "attach_one K v tid \<equiv>
     and_then (on_snd (sys (PtraceSeize K tid))) (\<lambda>_.
     and_then (on_snd (sys (PtraceInterrupt K tid))) (\<lambda>_.
     and_then (put_fst (v\<lparr>attachedTids := attachedTids v @ [tid]\<rparr>)) (\<lambda>_.
     on_snd (waitPid K tid))))"

lemma attach_one_cases:
  assumes "attach_one K v tid (v, w) = (r, (v', w'))"
  obtains (unseized) e where "PtraceSeize K tid w = (Inl e, w')" "v' = v" "\<not> is_ok r"
  | (seized) w1 r1 where "PtraceSeize K tid w = (Inr (), w1)" "stop_thread K tid w1 = (r1, w')" "r = r1"
      "v' = v \<or> v' = v\<lparr>attachedTids := attachedTids v @ [tid]\<rparr>"
      "is_ok r \<Longrightarrow> v' = v\<lparr>attachedTids := attachedTids v @ [tid]\<rparr>"
proof (cases "PtraceSeize K tid w")
  case (Pair x w1)
  show thesis
  proof (cases x)
    case (Inl e)
    with Pair assms unseized show thesis by (auto simp: io_defs)
  next
    case (Inr u)
    obtain y w2 where i: "PtraceInterrupt K tid w1 = (y, w2)" by fastforce
    show thesis
    proof (cases y)
      case (Inl e)
      with Pair Inr i assms show thesis
        by (intro seized [of w1 r]) (auto simp: stop_thread_def io_defs)
    next
      case Inr2: (Inr u2)
      obtain r3 w3 where wt: "waitPid K tid w2 = (r3, w3)" by fastforce
      show thesis
        by (rule seized [of w1 r])
          (use Pair Inr Inr2 i wt assms in \<open>auto simp: stop_thread_def io_defs split: res.splits\<close>)
    qed
  qed
qed

lemma attach_one_on_list:
  assumes "attach_ok K" "attach_one K v tid (v, w) = (r, (v', w'))"
  shows "on_list K {} (v, w) (v', w') \<or> (\<exists>e. r = Err e \<and> leak K e (v, w) (v', w'))"
    "is_ok r \<Longrightarrow> v' = v\<lparr>attachedTids := attachedTids v @ [tid]\<rparr>"
proof -
  have "(on_list K {} (v, w) (v', w') \<or> (\<exists>e. r = Err e \<and> leak K e (v, w) (v', w'))) \<and>
      (is_ok r \<longrightarrow> v' = v\<lparr>attachedTids := attachedTids v @ [tid]\<rparr>)"
    using assms(2)
  proof (cases rule: attach_one_cases)
    case (unseized e)
    then show ?thesis
      using seize_laws(2,3) [OF assms(1) unseized(1)] by (auto simp: on_list_def)
  next
    case (seized w1 r1)
    note stop = stop_thread_laws [OF assms(1) seized(2)]
    have tr: "traced_of K w' \<subseteq> insert tid (traced_of K w)"
      using seize_laws(1) [OF assms(1) seized(1)] stop(1) by (auto simp: keeps_stopped_def)
    have st: "\<forall>s. s \<noteq> tid \<longrightarrow> settled K w s \<longrightarrow> settled K w' s"
      using settled_kept [OF stop(1)] seize_laws(3) [OF assms(1) seized(1)] by blast
    have x: "on_list K {tid} (v, w) (v', w')" using tr st seized(4) by (auto simp: on_list_def)
    show ?thesis
    proof (cases r)
      case (Ok u)
      with x stop(2) seized(3,5) show ?thesis by (auto simp: on_list_def)
    next
      case (Err e)
      with x seized(1-3) show ?thesis by (auto simp: leak_def)
    next
      case Panic
      with seized(2,3) show ?thesis
        by (auto simp: stop_thread_def waitPid_def io_defs split: prod.splits sum.splits if_splits)
    qed
  qed
  then show "on_list K {} (v, w) (v', w') \<or> (\<exists>e. r = Err e \<and> leak K e (v, w) (v', w'))"
    "is_ok r \<Longrightarrow> v' = v\<lparr>attachedTids := attachedTids v @ [tid]\<rparr>" by simp_all
qed

lemma scan_threads_on_list:
  assumes "attach_ok K"
  shows "scan_threads K names sub seen (v, w) = (r, (v', w')) \<Longrightarrow>
    on_list K {} (v, w) (v', w') \<or> (\<exists>e. r = Err e \<and> leak K e (v, w) (v', w'))"
proof (induction names arbitrary: sub seen v w)
  case Nil
  then show ?case by (auto simp: io_defs on_list_refl)
next
  case (Cons name names)
  show ?case
  proof (cases "ParseInt name 10 32")
    case (Ok tid)
    show ?thesis
    proof (cases "tid \<in> tidMap v")
      case True
      with Cons.prems Ok have "scan_threads K names sub (insert tid seen) (v, w) = (r, (v', w'))"
        by (simp add: and_then_def lift_res_def get_fst_def)
      then show ?thesis by (rule Cons.IH)
    next
      case False
      let ?v3 = "v\<lparr>attachedTids := attachedTids v @ [tid], tidMap := insert tid (tidMap v)\<rparr>"
      from False Ok Cons.prems
      have run: "and_then (attach_one K v tid) (\<lambda>_. and_then (put_fst ?v3)
          (\<lambda>_. scan_threads K names False (insert tid seen))) (v, w) = (r, (v', w'))"
        by (simp add: and_then_assoc) (simp add: and_then_def lift_res_def get_fst_def)
      obtain r1 v1 w1 where m: "attach_one K v tid (v, w) = (r1, (v1, w1))" by (metis surj_pair)
      note one = attach_one_on_list [OF assms m]
      show ?thesis
      proof (cases "is_ok r1")
        case True
        with run m have "scan_threads K names False (insert tid seen) (?v3, w1) = (r, (v', w'))"
          by (auto simp: and_then_def put_fst_def is_ok_def split: res.splits)
        from Cons.IH [OF this]
        have "on_list K {} (?v3, w1) (v', w') \<or> (\<exists>e. r = Err e \<and> leak K e (?v3, w1) (v', w'))" .
        moreover have "on_list K {} (v, w) (?v3, w1)"
          using one True by (auto simp: on_list_def)
        ultimately show ?thesis using on_list_trans leak_trans by blast
      next
        case False
        with run m have "v' = v1" "w' = w1" "\<forall>e. r1 = Err e \<longrightarrow> r = Err e"
          by (auto simp: and_then_def is_ok_def split: res.splits)
        with one(1) show ?thesis by blast
      qed
    qed
  qed (use Cons.prems in \<open>auto simp: io_defs on_list_refl\<close>)
qed

lemma trace_loop_on_list:
  "attach_ok K \<Longrightarrow> trace_loop K p s = (r, s') \<Longrightarrow> on_list K {} s s' \<or> (\<exists>e. r = Err e \<and> leak K e s s')"
proof (induction K p s rule: trace_loop.induct)
  case (1 K p v w)
  obtain r1 w1 where rd: "sys (ReadDirTask K p) w = (r1, w1)" by fastforce
  then have "keeps_stopped K w w1"
    using attach_laws(4) [OF "1.prems"(1)] by (auto simp: sys_def split: prod.splits sum.splits)
  from on_list_kept [OF this, of v "tidMap v"] have l1: "on_list K {} (v, w) (v, w1)" by simp
  show ?case
  proof (cases r1)
    case (Ok names)
    obtain r2 v2 w2 where sc: "scan_threads K names True {} (v, w1) = (r2, (v2, w2))" by (metis surj_pair)
    have l2: "on_list K {} (v, w) (v2, w2) \<or> (\<exists>e. r2 = Err e \<and> leak K e (v, w) (v2, w2))"
      using scan_threads_on_list [OF "1.prems"(1) sc] on_list_trans [OF l1] leak_trans [OF l1] by blast
    show ?thesis
    proof (cases "\<exists>sn. r2 = Ok (False, sn)")
      case True
      then obtain sn where r2: "r2 = Ok (False, sn)" by blast
      with "1.prems"(2) rd Ok sc have "trace_loop K p (v2, w2) = (r, s')"
        by (subst (asm) trace_loop.simps) simp
      with "1.IH" [OF rd [symmetric] Ok sc [symmetric] r2 refl refl] "1.prems"(1) l2 r2 show ?thesis
        using on_list_trans leak_trans by blast
    next
      case False
      with "1.prems"(2) rd Ok sc
      have s': "(s' = (v2, w2) \<and> (\<forall>e. r2 = Err e \<longrightarrow> r = Err e)) \<or> (\<exists>m u. r2 = Ok u \<and> s' = (v2\<lparr>tidMap := m\<rparr>, w2))"
        by (subst (asm) trace_loop.simps) (auto split: res.splits if_splits)
      have "on_list K {} (v, w) (v2\<lparr>tidMap := m\<rparr>, w2)" if "on_list K {} (v, w) (v2, w2)" for m
        using that by (simp add: on_list_def)
      with s' l2 show ?thesis by auto
    qed
  qed (use "1.prems"(2) rd l1 in \<open>auto simp: trace_loop.simps\<close>)
qed

lemma trace_body_on_list:
  assumes "attach_ok K" "trace_body K p n s = (r, s')"
  shows "on_list K {} s s' \<or> (\<exists>e. r = Err e \<and> leak K e s s')"
proof -
  obtain r1 v1 w1 where l: "trace_loop K p s = (r1, (v1, w1))" by (metis surj_pair)
  note one = trace_loop_on_list [OF assms(1) l]
  show ?thesis
  proof (cases r1)
    case (Ok seen)
    obtain r2 w2 where m: "ReadMaps K p w1 = (r2, w2)" by fastforce
    then have "keeps_stopped K w1 w2"
      using attach_laws(5) [OF assms(1)]
      by (auto simp: ReadMaps_def io_defs split: prod.splits sum.splits)
    from on_list_kept [OF this, of v1 "tidMap v1"] have "on_list K {} (v1, w1) (v1, w2)" by simp
    moreover have "s' = (v1, w2)"
      using assms(2) l Ok m by (auto simp: trace_body_def io_defs split: res.splits)
    ultimately show ?thesis using one Ok on_list_trans by blast
  qed (use assms(2) l one in \<open>auto simp: trace_body_def io_defs\<close>)
qed

lemma detach_all_traced:
  assumes "attach_ok K"
  shows "traced_of K (detach_all K ts w) \<subseteq> {t \<in> traced_of K w. t \<in> set ts \<longrightarrow> \<not> settled K w t}"
proof (induction ts arbitrary: w)
  case Nil
  then show ?case by (simp add: detach_all_def)
next
  case (Cons t ts)
  obtain r w1 where d: "PtraceDetach K t w = (r, w1)" by fastforce
  have "detach_all K (t # ts) w = detach_all K ts w1" by (simp add: detach_all_def d)
  with Cons.IH [of w1] detach_laws [OF assms d] show ?case by auto
qed

lemma detach_threads_traced:
  assumes "attach_ok K"
  shows "detach_threads K ts w = (Ok u, w') \<Longrightarrow>
    traced_of K w' \<subseteq> {t \<in> traced_of K w. t \<in> set ts \<longrightarrow> \<not> settled K w t}"
proof (induction ts arbitrary: w)
  case Nil
  then show ?case by (simp add: io_ok)
next
  case (Cons t ts)
  obtain x w1 where d: "PtraceDetach K t w = (x, w1)" by fastforce
  with Cons.prems have "detach_threads K ts w1 = (Ok u, w')"
    by (auto simp: io_defs is_esrch_def split: sum.splits if_splits)
  from Cons.IH [OF this] detach_laws [OF assms d] show ?case by auto
qed

text \<open>A frame of the parts of the loop is a frame of the loop, on every outcome.\<close>

lemma trace_loop_frame:
  assumes "io_frame R"
    and rd: "\<And>v w. R (v, w) (v, snd (sys (ReadDirTask K p) w))"
    and sc: "\<And>names. keeps R (scan_threads K names True {})"
    and fin: "\<And>v w m. R (v, w) (v\<lparr>tidMap := m\<rparr>, w)"
  shows "trace_loop K p s = (r, s') \<Longrightarrow> R s s'"
  using rd sc
proof (induction K p s rule: trace_loop.induct)
  case (1 K p v w)
  note trans = io_frame.frame_trans [OF assms(1)]
  obtain r1 w1 where rd: "sys (ReadDirTask K p) w = (r1, w1)" by fastforce
  with "1.prems"(2) [of v w] have R1: "R (v, w) (v, w1)" by simp
  show ?case
  proof (cases r1)
    case (Ok names)
    obtain r2 v2 w2 where sc: "scan_threads K names True {} (v, w1) = (r2, (v2, w2))"
      by (metis surj_pair)
    with "1.prems"(3) have "R (v, w1) (v2, w2)" by (rule keepsD)
    with R1 have R2: "R (v, w) (v2, w2)" by (rule trans)
    show ?thesis
    proof (cases "\<exists>sn. r2 = Ok (False, sn)")
      case True
      then obtain sn where r2: "r2 = Ok (False, sn)" by blast
      with "1.prems"(1) rd Ok sc have "trace_loop K p (v2, w2) = (r, s')"
        by (subst (asm) trace_loop.simps) simp
      with "1.IH" [OF rd [symmetric] Ok sc [symmetric] r2 refl refl] "1.prems"(2,3)
      have "R (v2, w2) s'" by simp
      with R2 show ?thesis by (rule trans)
    next
      case False
      with "1.prems"(1) rd Ok sc have "s' = (v2, w2) \<or> (\<exists>m. s' = (v2\<lparr>tidMap := m\<rparr>, w2))"
        by (subst (asm) trace_loop.simps) (auto split: res.splits if_splits)
      with R2 show ?thesis by (auto intro: trans fin)
    qed
  qed (use "1.prems"(1) rd R1 in \<open>simp_all add: trace_loop.simps\<close>)
qed

lemma trace_body_frame:
  assumes "io_frame R" and "keeps R (trace_loop K p)" and "keeps R (on_snd (ReadMaps K p))"
  shows "keeps R (trace_body K p n)"
  unfolding trace_body_def using assms
  by (intro io_frame.keeps_and_then io_frame.keeps_ret)

lemma keeps_waitPid: "readers_ok K \<Longrightarrow> keeps (same_mem K) (waitPid K p)"
  unfolding waitPid_def by (intro mem_frame.keeps_rules keeps_readers)

lemma keeps_scan_threads:
  "readers_ok K \<Longrightarrow> keeps (snd_rel (same_mem K)) (scan_threads K names sub seen)"
  by (induction names arbitrary: sub seen)
    (auto intro!: mem_frame2.keeps_rules mem_frame.keeps_state_rules keeps_readers keeps_waitPid)

lemma keeps_Trace:
  assumes "readers_ok K"
  shows "keeps (same_mem K) (Trace K n p)"
proof -
  have loop: "keeps (snd_rel (same_mem K)) (trace_loop K p)"
  proof (rule keepsI, erule trace_loop_frame [OF mem_frame2.io_frame_axioms, rotated 3])
    fix v :: trace_vars and w
    show "snd_rel (same_mem K) (v, w) (v, snd (sys (ReadDirTask K p) w))"
      using keeps_readers(1) [OF assms, of p] by (simp add: keeps_def)
  qed (use assms in \<open>auto intro: keeps_scan_threads\<close>)
  have body: "keeps (snd_rel (same_mem K)) (trace_body K p n)"
    using assms
    by (intro trace_body_frame mem_frame2.io_frame_axioms loop)
      (auto simp: ReadMaps_def intro!: mem_frame.keeps_rules mem_frame.keeps_state_rules keeps_readers)
  have clean: "same_mem K w (detach_all K ts w)" for ts w
  proof (induction ts arbitrary: w)
    case (Cons t ts)
    have "same_mem K w (snd (PtraceDetach K t w))"
      using assms by (simp add: readers_ok_def reads_only_def)
    with Cons [of "snd (PtraceDetach K t w)"] show ?case
      by (auto simp: detach_all_def intro: same_mem_trans)
  qed (simp add: detach_all_def)
  show ?thesis
  proof (rule keepsI)
    fix w r w' assume run: "Trace K n p w = (r, w')"
    obtain r1 v w1 where b: "trace_body K p n (\<lparr>tidMap = {}, attachedTids = []\<rparr>, w) = (r1, (v, w1))"
      by (metis surj_pair)
    then have kept: "same_mem K w w1" using keepsD [OF body b] by simp
    from run b have "w' = w1 \<or> w' = detach_all K (attachedTids v) w1"
      by (auto simp: Trace_def split: if_splits)
    then show "same_mem K w w'" using kept same_mem_trans [OF kept clean] by auto
  qed
qed

lemma keeps_Detach:
  assumes "readers_ok K"
  shows "keeps (same_mem K) (Detach K P)"
proof -
  have "keeps (same_mem K) (detach_threads K ts)" for ts
    using assms by (induction ts) (auto intro!: mem_frame.keeps_rules keeps_readers)
  then show ?thesis by (simp add: Detach_def)
qed

section \<open>Properties\<close>

text \<open>
  C16: a \<open>Trace\<close> that fails detaches every thread it has attached to, with one exception: a thread that
  it had just seized and whose \<open>PTRACE_INTERRUPT\<close> or \<open>wait4\<close> failed may stay attached. Then the error
  of that call is the one returned, and the final state is the one that call left, followed by the
  clean-up. So a \<open>Trace\<close> that fails for any other reason (the listing, a name that is no number,
  \<open>PTRACE_SEIZE\<close>, the maps) leaves no thread attached.
\<close>

theorem Trace_no_leak:
  assumes "attach_ok K" and "Trace K n p w = (r, w')" and "\<not> is_ok r"
  shows "traced_of K w' \<subseteq> traced_of K w \<or>
    (\<exists>t u u1 u2 e ts. PtraceSeize K t u = (Inr (), u1) \<and> stop_thread K t u1 = (Err e, u2) \<and>
       r = Err e \<and> w' = detach_all K ts u2 \<and> traced_of K w' \<subseteq> insert t (traced_of K w))"
proof -
  obtain v w1 where b: "trace_body K p n (\<lparr>tidMap = {}, attachedTids = []\<rparr>, w) = (r, (v, w1))"
      and w': "w' = detach_all K (attachedTids v) w1"
    using assms(2,3) by (auto simp: Trace_def split: prod.splits)
  note det = detach_all_traced [OF assms(1), of "attachedTids v" w1, folded w']
  show ?thesis
    using trace_body_on_list [OF assms(1) b]
  proof
    assume "on_list K {} (\<lparr>tidMap = {}, attachedTids = []\<rparr>, w) (v, w1)"
    then have "traced_of K w' \<subseteq> traced_of K w" using det by (auto simp: on_list_def)
    then show ?thesis ..
  next
    assume "\<exists>e. r = Err e \<and> leak K e (\<lparr>tidMap = {}, attachedTids = []\<rparr>, w) (v, w1)"
    then obtain e t u u1 where l: "r = Err e" "PtraceSeize K t u = (Inr (), u1)" "stop_thread K t u1 = (Err e, w1)"
      "on_list K {t} (\<lparr>tidMap = {}, attachedTids = []\<rparr>, w) (v, w1)"
      by (auto simp: leak_def)
    moreover have "traced_of K w' \<subseteq> insert t (traced_of K w)" using l(4) det by (auto simp: on_list_def)
    ultimately show ?thesis using w' by blast
  qed
qed

definition sim0 :: "string list \<Rightarrow> string \<Rightarrow> sim" where
  "sim0 threads maps = \<lparr>s_mem = (\<lambda>_ _. None), s_regs = (\<lambda>_ _. 0), s_traced = {}, s_threads = threads,
     s_maps = maps, s_next = 0x1000\<rparr>"

text \<open>In the simulation a seized thread can always be stopped.\<close>

lemma sim_stop_thread: "stop_thread (sim_kernel A) t w = (Ok (), w)"
  by (simp add: stop_thread_def waitPid_def io_defs)

theorem Trace_no_leak_witness:
  "traced_of (sim_kernel AMD64) (snd (Trace (sim_kernel AMD64) 2 7 (sim0 [''7'', ''8'', ''x''] [])))
     \<subseteq> traced_of (sim_kernel AMD64) (sim0 [''7'', ''8'', ''x''] [])"
proof -
  let ?t = "Trace (sim_kernel AMD64) 2 7 (sim0 [''7'', ''8'', ''x''] [])"
  have "?t = (fst ?t, snd ?t)" by simp
  moreover have "\<not> is_ok (fst ?t)"
    by (simp add: Trace_def trace_body_def trace_loop.simps sim0_def io_defs waitPid_def
        ParseInt_def ParseUint_def drop_sign_def digit_val_def sign_value_def)
  ultimately show ?thesis
    using Trace_no_leak [OF sim_attach_ok, of AMD64 2 7 "sim0 [''7'', ''8'', ''x''] []" "fst ?t" "snd ?t"]
    by (simp add: sim_stop_thread)
qed

text \<open>
  C17: a successful \<open>Trace\<close> ends with a listing of the thread group in which nothing is new: its
  threads are the ones returned, each once and in order, and nothing but the reading of the maps
  comes after it. Each of them is stopped (or has died), so no thread is left that could start
  another one; and as long as they are, a successful \<open>Detach\<close> leaves none of them attached.
\<close>

theorem Trace_attached:
  assumes "attach_ok K" and "Trace K n p w = (Ok (P, b), w')"
  shows "pid P = p \<and> sorted (tids P) \<and> distinct (tids P) \<and>
    (\<exists>u names u'. ReadDirTask K p u = (Inr names, u') \<and> set (tids P) = tids_of names \<and>
       ReadMaps K p u' = (Ok (Entries P), w')) \<and>
    (\<forall>t \<in> set (tids P). settled K w' t) \<and>
    (\<forall>w2 w3. (\<forall>t \<in> set (tids P). settled K w2 t) \<longrightarrow> Detach K P w2 = (Ok (), w3) \<longrightarrow>
       traced_of K w3 \<inter> set (tids P) = {})"
proof -
  obtain v where b: "trace_body K p n (\<lparr>tidMap = {}, attachedTids = []\<rparr>, w) = (Ok (P, b), (v, w'))"
    using assms(2) by (auto simp: Trace_def split: prod.splits)
  then obtain seen v1 w2 where l: "trace_loop K p (\<lparr>tidMap = {}, attachedTids = []\<rparr>, w) = (Ok seen, (v1, w2))"
      and m: "ReadMaps K p w2 = (Ok (Entries P), w')" and v: "v = v1"
      and P: "pid P = p" "tids P = sorted_list_of_set seen"
    by (auto simp: trace_body_def io_ok)
  have s: "seen \<subseteq> set (attachedTids v1)" and
      e: "\<exists>u names. ReadDirTask K p u = (Inr names, w2) \<and> seen = tids_of names"
    using trace_loop_listing [OF l] by (auto simp: trace_inv_def)
  have "finite seen" using finite_subset [OF s] by simp
  then have tids: "sorted (tids P)" "distinct (tids P)" "set (tids P) = seen" by (simp_all add: P)
  have "on_list K {} (\<lparr>tidMap = {}, attachedTids = []\<rparr>, w) (v, w')"
    using trace_body_on_list [OF assms(1) b] by simp
  then have "\<forall>t \<in> set (tids P). settled K w' t" using s v tids(3) by (auto simp: on_list_def)
  moreover have "traced_of K w3 \<inter> set (tids P) = {}"
    if "\<forall>t \<in> set (tids P). settled K w2 t" "Detach K P w2 = (Ok (), w3)" for w2 w3
    using detach_threads_traced [OF assms(1), of "tids P" w2 "()" w3] that by (auto simp: Detach_def)
  ultimately show ?thesis using P(1) tids e m by blast
qed

lemmas trace_eval = Trace_def trace_body_def trace_loop.simps sim0_def io_defs waitPid_def
  ParseInt_def ParseUint_def drop_sign_def digit_val_def sign_value_def

theorem Trace_attached_witness:
  "\<exists>P b. fst (Trace (sim_kernel AMD64) 2 7 (sim0 [''7'', ''8''] [])) = Ok (P, b) \<and> sorted (tids P)"
proof -
  let ?t = "Trace (sim_kernel AMD64) 2 7 (sim0 [''7'', ''8''] [])"
  have "is_ok (fst ?t)"
    by (simp add: trace_eval ReadMaps_def parse_maps_def parse_line_def)
  then obtain P b where "fst ?t = Ok (P, b)" by (cases "fst ?t") auto
  then have "?t = (Ok (P, b), snd ?t)" by (simp add: prod_eq_iff)
  from Trace_attached [OF sim_attach_ok this] \<open>fst ?t = Ok (P, b)\<close> show ?thesis by blast
qed

text \<open>
  C39: the clean-up misses a thread whose \<open>PTRACE_INTERRUPT\<close> fails. \<open>Trace\<close> has seized it by then
  but records it only afterwards, so no \<open>PTRACE_DETACH\<close> is issued: the state after the failed
  \<open>Trace\<close> is the state the failed interrupt left.
\<close>

theorem Trace_interrupt_leak:
  assumes "ReadDirTask K p w = (Inr [name], w1)" and "ParseInt name 10 32 = Ok tid"
    and "PtraceSeize K tid w1 = (Inr (), w2)" and "PtraceInterrupt K tid w2 = (Inl e, w3)"
  shows "Trace K n p w = (Err (Errno e), w3)"
  using assms by (simp add: Trace_def trace_body_def trace_loop.simps io_defs detach_all_def)

definition no_interrupt :: "sim kspec" where
  "no_interrupt = (sim_kernel AMD64)\<lparr>PtraceInterrupt := (\<lambda>t w. (Inl 1, w))\<rparr>"

theorem Trace_interrupt_leak_witness:
  "fst (Trace no_interrupt 2 7 (sim0 [''7''] [])) = Err (Errno 1) \<and>
   7 \<in> traced_of no_interrupt (snd (Trace no_interrupt 2 7 (sim0 [''7''] [])))"
proof -
  let ?w = "sim0 [''7''] []"
  have "Trace no_interrupt 2 7 ?w = (Err (Errno 1), ?w\<lparr>s_traced := {7}\<rparr>)"
    by (rule Trace_interrupt_leak [where name = "''7''" and tid = 7 and ?w1.0 = ?w])
      (simp_all add: no_interrupt_def sim0_def trace_eval)
  then show ?thesis by (simp add: no_interrupt_def sim0_def)
qed

text \<open>A process with 32 bytes of code at its instruction pointer, and the program that traces it.\<close>

definition page_sim :: sim where
  "page_sim = \<lparr>s_mem = (\<lambda>_. mem_write (\<lambda>_. None) 0x1000 (replicate 32 0x90)), s_regs = (\<lambda>_ _. 0x1000),
     s_traced = {7}, s_threads = [''7''], s_maps = [], s_next = 0x2000\<rparr>"

definition prog7 :: TracedProgram where
  "prog7 = \<lparr>pid = 7, tids = [7], Entries = []\<rparr>"

lemma prog7_fields [simp]: "pid prog7 = 7" "tids prog7 = [7]" "Entries prog7 = []"
  by (simp_all add: prog7_def)

text \<open>Two mappings, one of them without a path.\<close>

definition two_maps :: "(string \<times> string \<times> nat \<times> Entry) list" where
  "two_maps =
     [(''00:00'', ''0'', 3, \<lparr>StartAddress = 0x1000, EndAddress = 0x1020, Privilege = ''r-xp'',
        PaddingSize = 0, Path = ''[vdso]''\<rparr>),
      (''08:01'', ''77'', 0, \<lparr>StartAddress = 0xffffffffff600000, EndAddress = 0xffffffffff601000,
        Privilege = ''r--p'', PaddingSize = 16, Path = []\<rparr>)]"

theorem ReadMaps_roundtrip_witness:
  "ReadMaps (sim_kernel AMD64) 7 (sim0 [] (maps_file two_maps)) =
     (Ok (map (\<lambda>(dev, inode, pad, e). e) two_maps), sim0 [] (maps_file two_maps))"
  by (rule ReadMaps_roundtrip) (simp_all add: two_maps_def wf_entry_def plain_def sim0_def)

end
