(* ===== verification/TraceeMemory.thy ===== *)
theory TraceeMemory
  imports Tracing
begin

text \<open>
  \<open>ptrace_linux.go\<close>, reading and writing the memory of the traced program, and the contract the
  fake image relies on: the locale \<open>tracee_memory\<close>, interpreted on both ways of writing.
\<close>

section \<open>Reading and writing\<close>

text \<open>
  \<open>ReadSlice\<close> panics for size 0 at \<open>&buffer[0]\<close>, and in \<open>make\<close> above the allocation limit
  of the runtime, \<open>2 ^ 48\<close> bytes. The bytes the kernel did not fill stay zero.
\<close>

definition ReadSlice :: "('w, 'z) kernel_scheme \<Rightarrow> TracedProgram \<Rightarrow> u64 \<Rightarrow> u64 \<Rightarrow> ('w, byte list) io" where
  "ReadSlice K P addr sz =
     (if sz = 0 \<or> 2 ^ 48 < unat sz then go_panic
      else and_then (sys (ProcessVMReadv K (pid P) addr (unat sz))) (\<lambda>bs.
             ret (bs @ replicate (unat sz - length bs) 0)))"

definition WriteSlice :: "('w, 'z) kernel_scheme \<Rightarrow> TracedProgram \<Rightarrow> u64 \<Rightarrow> byte list \<Rightarrow> ('w, unit) io" where
  "WriteSlice K P addr buffer =
     (if buffer = [] then go_panic
      else and_then (sys (ProcessVMWritev K (pid P) addr buffer)) (\<lambda>_. ret ()))"

text \<open>\<open>ptrSize\<close> is 8 on both architectures.\<close>

definition alignBuffer :: "byte list \<Rightarrow> byte list" where
  "alignBuffer buffer =
     (let alignedSize = length buffer div 8 * 8;
          alignedSize = (if alignedSize < length buffer then alignedSize + 8 else alignedSize)
      in buffer @ replicate (alignedSize - length buffer) 0)"

function poke_loop :: "('w, 'z) kernel_scheme \<Rightarrow> int \<Rightarrow> u64 \<Rightarrow> byte list \<Rightarrow> nat \<Rightarrow> ('w, unit) io" where
  "poke_loop K p addr buffer wroteSize =
     (if wroteSize + 8 \<le> length buffer then
        and_then (wrap_err (\<lambda>e. Errorf ''%T write to addr %x with %+v failed'' [e])
          (sys (PtracePokeData K p (addr + of_nat wroteSize) (take 8 (drop wroteSize buffer)))))
          (\<lambda>_. poke_loop K p addr buffer (wroteSize + 8))
      else ret ())"
  by pat_completeness auto
termination
  by (relation "measure (\<lambda>(K, p, addr, buffer, wroteSize). length buffer - wroteSize)") auto

declare poke_loop.simps [simp del]

definition PtraceWriteSlice ::
  "('w, 'z) kernel_scheme \<Rightarrow> TracedProgram \<Rightarrow> u64 \<Rightarrow> byte list \<Rightarrow> ('w, unit) io" where
  "PtraceWriteSlice K P addr buffer = poke_loop K (pid P) addr (alignBuffer buffer) 0"

definition GetLibBuffer :: "('w, 'z) kernel_scheme \<Rightarrow> TracedProgram \<Rightarrow> Entry \<Rightarrow> ('w, byte list) io" where
  "GetLibBuffer K P entry =
     (if 0 < PaddingSize entry then throw (Errorf ''entry with padding size is not supported'' [])
      else ReadSlice K P (StartAddress entry) (EndAddress entry - StartAddress entry))"

definition WriteUint64ToAddr :: "('w, 'z) kernel_scheme \<Rightarrow> TracedProgram \<Rightarrow> u64 \<Rightarrow> u64 \<Rightarrow> ('w, unit) io" where
  "WriteUint64ToAddr K P addr v = WriteSlice K P addr (PutUint64 LittleEndian v)"

section \<open>alignBuffer\<close>

definition align8 :: "nat \<Rightarrow> nat" where
  "align8 n = (n + 7) div 8 * 8"

lemma align8_parts: "n = 8 * q + r \<Longrightarrow> r < 8 \<Longrightarrow> align8 n = (if r = 0 then 8 * q else 8 * q + 8)"
proof -
  assume n: "n = 8 * q + r" "r < 8"
  have "(8 * q + r + 7) div 8 = q + (r + 7) div 8" using div_mult_self4 [of 8 q "r + 7"] by (simp add: add.assoc)
  moreover have "(r + 7) div 8 = (if r = 0 then 0 else 1)" using n(2) by (cases "r = 0") (simp_all add: div_if)
  ultimately show ?thesis using n by (simp add: align8_def)
qed

lemma div_parts: "(n::nat) = 8 * (n div 8) + n mod 8" "n mod 8 < 8"
  by simp_all

lemma align8_bounds: "n \<le> align8 n \<and> align8 n < n + 8 \<and> 8 dvd align8 n"
proof -
  obtain q r where "n = 8 * q + r" "r < 8" using div_parts by blast
  then show ?thesis using align8_parts [of n q r] by simp
qed

lemma align8_id: "8 dvd n \<Longrightarrow> align8 n = n"
  using align8_parts [of n "n div 8" 0] by simp

lemma alignBuffer_eq: "alignBuffer bs = bs @ replicate (align8 (length bs) - length bs) 0"
proof -
  obtain q r where n: "length bs = 8 * q + r" "r < 8" using div_parts by blast
  then have "length bs div 8 = q" by simp
  then have "(if length bs div 8 * 8 < length bs then length bs div 8 * 8 + 8 else length bs div 8 * 8) =
      align8 (length bs)"
    using align8_parts [OF n] n by simp
  then show ?thesis by (simp add: alignBuffer_def Let_def)
qed

lemma length_alignBuffer [simp]: "length (alignBuffer bs) = align8 (length bs)"
  using align8_bounds [of "length bs"] by (simp add: alignBuffer_eq)

lemma alignBuffer_id: "8 dvd length bs \<Longrightarrow> alignBuffer bs = bs"
  by (simp add: alignBuffer_eq align8_id)

section \<open>The contract\<close>

text \<open>
  What the fake image relies on, for a range of addresses that the traced process does not write
  itself: a successful read returns the bytes there and changes nothing; after a successful write
  the bytes are there, and only the bytes up to \<open>span\<close> of the length have changed, on every
  outcome.
\<close>

locale tracee_memory =
  fixes ok :: bool
    and rd :: "u64 \<Rightarrow> u64 \<Rightarrow> ('w, byte list) io"
    and wr :: "u64 \<Rightarrow> byte list \<Rightarrow> ('w, unit) io"
    and mem :: "'w \<Rightarrow> u64 \<Rightarrow> byte option"
    and code :: "u64 \<Rightarrow> bool"
    and span :: "nat \<Rightarrow> nat"
  assumes rd_bytes: "ok \<Longrightarrow> rd a n w = (Ok bs, w') \<Longrightarrow> length bs = unat n \<and> holds_at (mem w) a bs"
    and rd_frame: "ok \<Longrightarrow> rd a n w = (r, w') \<Longrightarrow> code x \<Longrightarrow> mem w' x = mem w x"
    and wr_bytes: "ok \<Longrightarrow> wr a bs w = (Ok u, w') \<Longrightarrow> length bs \<le> 2 ^ 48 \<Longrightarrow>
        \<forall>i < span (length bs). code (a + of_nat i) \<Longrightarrow> holds_at (mem w') a bs"
    and wr_frame: "ok \<Longrightarrow> wr a bs w = (r', w') \<Longrightarrow> code x \<Longrightarrow> \<not> in_range a (span (length bs)) x \<Longrightarrow>
        mem w' x = mem w x"
    and span_ge: "k \<le> span k"
begin

lemma rd_holds:
  "ok \<Longrightarrow> rd a n w = (Ok bs, w') \<Longrightarrow> holds_at (mem w) a cs \<Longrightarrow> length cs = unat n \<Longrightarrow> bs = cs"
  using rd_bytes holds_at_iff_read by metis

text \<open>Reading back what was written.\<close>

lemma wr_rd:
  assumes "ok" "wr a bs w = (Ok u, w1)" "length bs \<le> 2 ^ 48"
    and "\<forall>i < span (length bs). code (a + of_nat i)"
    and "rd a n w1 = (Ok cs, w2)" "unat n = length bs"
  shows "cs = bs"
  using wr_bytes [OF assms(1-4)] rd_holds [OF assms(1,5)] assms(6) by simp

text \<open>Bytes outside the range of a write stay in place.\<close>

lemma wr_keeps:
  assumes "ok" "wr a bs w = (r, w')" "holds_at (mem w) b cs"
    and "\<forall>i < length cs. code (b + of_nat i) \<and> \<not> in_range a (span (length bs)) (b + of_nat i)"
  shows "holds_at (mem w') b cs"
  using assms(3,4) wr_frame [OF assms(1,2)] by (simp add: holds_at_def)

lemma rd_keeps:
  assumes "ok" "rd a n w = (r, w')" "holds_at (mem w) b cs" "\<forall>i < length cs. code (b + of_nat i)"
  shows "holds_at (mem w') b cs"
  using assms(3,4) rd_frame [OF assms(1,2)] by (simp add: holds_at_def)

text \<open>Writing a range back to what was read from it before restores it, where the span is exact.\<close>

lemma rd_wr_restores:
  assumes "ok" "rd a n w0 = (Ok bs, w1)" "wr a bs w = (Ok u, w')"
    and "length bs \<le> 2 ^ 48" "\<forall>i < span (length bs). code (a + of_nat i)"
  shows "holds_at (mem w') a bs \<and> holds_at (mem w0) a bs"
  using wr_bytes [OF assms(1,3-5)] rd_bytes [OF assms(1,2)] by simp

end

section \<open>The contract holds\<close>

lemma ReadSlice_Ok:
  assumes "reads_ok K" "ReadSlice K P a n w = (Ok bs, w')"
  shows "length bs = unat n \<and> holds_at (mem_of K w (pid P)) a bs"
proof -
  from assms(2) obtain cs where "ProcessVMReadv K (pid P) a (unat n) w = (Inr cs, w')"
      and bs: "bs = cs @ replicate (unat n - length cs) 0"
    by (auto simp: ReadSlice_def io_ok split: if_splits)
  then have "length cs = unat n \<and> holds_at (mem_of K w (pid P)) a cs"
    using assms(1) unfolding reads_ok_def by blast
  with bs show ?thesis by simp
qed

lemma keeps_ReadSlice: "readers_ok K \<Longrightarrow> keeps (same_mem K) (ReadSlice K P a n)"
  unfolding ReadSlice_def by (intro mem_frame.keeps_rules keeps_readers)

lemma WriteSlice_Ok:
  assumes "writes_ok K" "WriteSlice K P a bs w = (Ok u, w')"
  shows "holds_at (mem_of K w' (pid P)) a bs"
proof -
  from assms(2) obtain n where "ProcessVMWritev K (pid P) a bs w = (Inr n, w')"
    by (auto simp: WriteSlice_def io_ok split: if_splits)
  then show ?thesis by (rule writes_okD(4) [OF assms(1)])
qed

lemma WriteSlice_same_but:
  assumes "writes_ok K" "WriteSlice K P a bs w = (r, w')"
  shows "same_but K (pid P) a (length bs) w w'"
proof (cases "bs = []")
  case True
  with assms(2) show ?thesis by (simp add: WriteSlice_def go_panic_def same_but_def)
next
  case False
  obtain r1 w1 where s: "sys (ProcessVMWritev K (pid P) a bs) w = (r1, w1)" by fastforce
  with keeps_writers(2) [OF assms(1)] have "same_but K (pid P) a (length bs) w w1" by (rule keepsD)
  with False s assms(2) show ?thesis
    by (auto simp: WriteSlice_def and_then_def ret_def split: res.splits)
qed

lemma same_but_mono:
  assumes "same_but K p (a + of_nat j) n w w'" "j + n \<le> m" "m \<le> 2 ^ 64"
  shows "same_but K p a m w w'"
proof -
  have "in_range a m x" if r: "in_range (a + of_nat j) n x" for x
  proof -
    obtain i where i: "i < n" "x = (a + of_nat j) + of_nat i"
      using r by (auto simp: in_range_iff)
    then have "x = a + of_nat (j + i)" by simp
    moreover have "j + i < m" using i(1) assms(2) by simp
    ultimately show ?thesis using in_rangeI [of "j + i" m a] assms(3) by simp
  qed
  with assms(1) show ?thesis unfolding same_but_def by blast
qed

text \<open>One round of the loop.\<close>

lemma poke_loop_step:
  "n + 8 \<le> length buf \<Longrightarrow> poke_loop K p a buf n =
     and_then (wrap_err (\<lambda>e. Errorf ''%T write to addr %x with %+v failed'' [e])
       (sys (PtracePokeData K p (a + of_nat n) (take 8 (drop n buf)))))
       (\<lambda>_. poke_loop K p a buf (n + 8))"
  "\<not> n + 8 \<le> length buf \<Longrightarrow> poke_loop K p a buf n = ret ()"
  by (simp_all add: poke_loop.simps [of K p a buf n])

lemma poke_same_but:
  assumes "writes_ok K" "n + 8 \<le> length buf" "length buf \<le> 2 ^ 64"
    and "PtracePokeData K p (a + of_nat n) (take 8 (drop n buf)) w = (r, w')"
  shows "same_but K p a (length buf) w w'"
proof -
  have "same_but K p (a + of_nat n) (length (take 8 (drop n buf))) w w'"
    by (rule writes_okD(1) [OF assms(1,4)])
  then show ?thesis using assms(2,3) by (intro same_but_mono [of K p a n 8]) auto
qed

lemma poke_loop_same_but:
  "poke_loop K p a buf n w = (r, w') \<Longrightarrow> writes_ok K \<Longrightarrow> length buf \<le> 2 ^ 64 \<Longrightarrow>
     same_but K p a (length buf) w w'"
proof (induction K p a buf n arbitrary: w rule: poke_loop.induct)
  case (1 K p a buf n)
  show ?case
  proof (cases "n + 8 \<le> length buf")
    case True
    obtain r1 w1 where p: "PtracePokeData K p (a + of_nat n) (take 8 (drop n buf)) w = (r1, w1)"
      by fastforce
    have s: "same_but K p a (length buf) w w1"
      by (rule poke_same_but [OF "1.prems"(2) True "1.prems"(3) p])
    show ?thesis
    proof (cases r1)
      case (Inl e)
      with "1.prems"(1) True p s show ?thesis by (simp add: poke_loop_step io_defs)
    next
      case (Inr u)
      with "1.prems"(1) True p have "poke_loop K p a buf (n + 8) w1 = (r, w')"
        by (simp add: poke_loop_step io_defs)
      from "1.IH" [OF True this "1.prems"(2,3)] s show ?thesis by (blast intro: same_but_trans)
    qed
  next
    case False
    with "1.prems"(1) show ?thesis by (simp add: poke_loop_step io_defs same_but_def)
  qed
qed

text \<open>The bytes written so far stay, because each round touches the next eight bytes only.\<close>

lemma poke_loop_holds:
  "poke_loop K p a buf n w = (Ok u, w') \<Longrightarrow> writes_ok K \<Longrightarrow> length buf \<le> 2 ^ 64 \<Longrightarrow>
     8 dvd length buf \<Longrightarrow> 8 dvd n \<Longrightarrow> n \<le> length buf \<Longrightarrow>
     \<forall>i < length buf. a + of_nat i \<in> still K p \<Longrightarrow>
     holds_at (mem_of K w p) a (take n buf) \<Longrightarrow> holds_at (mem_of K w' p) a buf"
proof (induction K p a buf n arbitrary: w rule: poke_loop.induct)
  case (1 K p a buf n)
  show ?case
  proof (cases "n + 8 \<le> length buf")
    case True
    with "1.prems"(1) obtain w1
      where p: "PtracePokeData K p (a + of_nat n) (take 8 (drop n buf)) w = (Inr (), w1)"
        and l: "poke_loop K p a buf (n + 8) w1 = (Ok u, w')"
      by (auto simp: poke_loop_step io_ok)
    have new: "holds_at (mem_of K w1 p) (a + of_nat n) (take 8 (drop n buf))"
      by (rule writes_okD(3) [OF "1.prems"(2) p])
    have sb: "same_but K p (a + of_nat n) (length (take 8 (drop n buf))) w w1"
      by (rule writes_okD(1) [OF "1.prems"(2) p])
    have old: "holds_at (mem_of K w1 p) a (take n buf)"
      unfolding holds_at_def
    proof (intro allI impI)
      fix i assume i: "i < length (take n buf)"
      have "\<not> in_range (a + of_nat n) 8 (a + of_nat i)"
      proof
        assume "in_range (a + of_nat n) 8 (a + of_nat i)"
        then obtain j where j: "j < 8" "a + of_nat i = (a + of_nat n) + of_nat j"
          by (auto simp: in_range_iff)
        then have e: "(of_nat i :: u64) = of_nat (n + j)" by simp
        have "i < 2 ^ 64" "n + j < 2 ^ 64" using i j(1) True "1.prems"(3) by simp_all
        then have "i = n + j" using arg_cong [OF e, of unat]
          by (simp add: unat_of_nat del: of_nat_add)
        with i show False by simp
      qed
      moreover have "length (take 8 (drop n buf)) = 8" using True by simp
      moreover have "a + of_nat i \<in> still K p" using i "1.prems"(7) by simp
      ultimately have "mem_of K w1 p (a + of_nat i) = mem_of K w p (a + of_nat i)"
        using sb by (auto simp: same_but_def)
      then show "mem_of K w1 p (a + of_nat i) = Some (take n buf ! i)"
        using "1.prems"(8) i by (simp add: holds_at_def)
    qed
    have "take (n + 8) buf = take n buf @ take 8 (drop n buf)" by (simp add: take_add)
    moreover have "length (take n buf) = n" using True by simp
    ultimately have "holds_at (mem_of K w1 p) a (take (n + 8) buf)"
      using old new by (simp only: holds_at_append)
    then show ?thesis
      using "1.IH" [OF True l "1.prems"(2,3,4)] "1.prems"(5,7) True by simp
  next
    case False
    have "n = length buf" using False "1.prems"(4-6) by presburger
    with False "1.prems" show ?thesis by (simp add: poke_loop_step io_defs)
  qed
qed

lemma PtraceWriteSlice_same_but:
  "writes_ok K \<Longrightarrow> PtraceWriteSlice K P a bs w = (r, w') \<Longrightarrow> align8 (length bs) \<le> 2 ^ 64 \<Longrightarrow>
     same_but K (pid P) a (align8 (length bs)) w w'"
  unfolding PtraceWriteSlice_def using poke_loop_same_but by fastforce

lemma PtraceWriteSlice_Ok:
  assumes "writes_ok K" "PtraceWriteSlice K P a bs w = (Ok u, w')" "align8 (length bs) \<le> 2 ^ 64"
    and "\<forall>i < align8 (length bs). a + of_nat i \<in> still K (pid P)"
  shows "holds_at (mem_of K w' (pid P)) a (alignBuffer bs)"
  using poke_loop_holds [OF assms(2) [unfolded PtraceWriteSlice_def] assms(1)] assms(3,4)
    align8_bounds [of "length bs"] by simp

lemma keeps_WriteSlice: "writes_ok K \<Longrightarrow> keeps (same_other K (pid P)) (WriteSlice K P a bs)"
  by (rule keepsI) (blast dest: WriteSlice_same_but intro: same_but_other)

lemma keeps_poke: "writes_ok K \<Longrightarrow> keeps (same_other K p) (sys (PtracePokeData K p a bs))"
  by (rule keepsI) (drule keepsD [OF keeps_writers(1)], assumption, erule same_but_other)

lemma keeps_poke_loop: "writes_ok K \<Longrightarrow> keeps (same_other K p) (poke_loop K p a buf n)"
proof (induction K p a buf n rule: poke_loop.induct)
  case (1 K p a buf n)
  show ?case
  proof (cases "n + 8 \<le> length buf")
    case True
    with 1 show ?thesis
      by (simp add: poke_loop_step)
        (intro other_frame.keeps_and_then other_frame.keeps_wrap_err keeps_poke)
  next
    case False
    then show ?thesis by (simp add: poke_loop_step other_frame.keeps_ret)
  qed
qed

lemma keeps_PtraceWriteSlice:
  "writes_ok K \<Longrightarrow> keeps (same_other K (pid P)) (PtraceWriteSlice K P a bs)"
  by (simp add: PtraceWriteSlice_def keeps_poke_loop)

section \<open>Both ways of writing satisfy the contract\<close>

interpretation vm_memory: tracee_memory "kernel_ok A K" "ReadSlice K P" "WriteSlice K P"
    "\<lambda>w. mem_of K w (pid P)" "\<lambda>x. x \<in> still K (pid P)" "\<lambda>n. n" for A K P
proof
  assume ok: "kernel_ok A K"
  note laws = kernel_okD [OF ok]
  show "length bs = unat n \<and> holds_at (mem_of K w (pid P)) a bs"
    if "ReadSlice K P a n w = (Ok bs, w')" for a n w bs w'
    using ReadSlice_Ok [OF laws(2) that] .
  show "mem_of K w' (pid P) x = mem_of K w (pid P) x"
    if "ReadSlice K P a n w = (r, w')" "x \<in> still K (pid P)" for a n w r w' x
    using keepsD [OF keeps_ReadSlice [OF laws(1)] that(1)] that(2) by (simp add: same_mem_def)
  show "holds_at (mem_of K w' (pid P)) a bs"
    if "WriteSlice K P a bs w = (Ok u, w')" for a bs w u w'
    using WriteSlice_Ok [OF laws(3) that] .
  show "mem_of K w' (pid P) x = mem_of K w (pid P) x"
    if "WriteSlice K P a bs w = (r, w')" "x \<in> still K (pid P)" "\<not> in_range a (length bs) x"
    for a bs w r w' x
    using WriteSlice_same_but [OF laws(3) that(1)] that(2,3) by (auto simp: same_but_def)
qed simp

interpretation ptrace_memory: tracee_memory "kernel_ok A K" "ReadSlice K P" "PtraceWriteSlice K P"
    "\<lambda>w. mem_of K w (pid P)" "\<lambda>x. x \<in> still K (pid P)" align8 for A K P
proof
  assume ok: "kernel_ok A K"
  note laws = kernel_okD [OF ok]
  show "length bs = unat n \<and> holds_at (mem_of K w (pid P)) a bs"
    if "ReadSlice K P a n w = (Ok bs, w')" for a n w bs w'
    using ReadSlice_Ok [OF laws(2) that] .
  show "mem_of K w' (pid P) x = mem_of K w (pid P) x"
    if "ReadSlice K P a n w = (r, w')" "x \<in> still K (pid P)" for a n w r w' x
    using vm_memory.rd_frame [OF ok that] .
  show "holds_at (mem_of K w' (pid P)) a bs"
    if "PtraceWriteSlice K P a bs w = (Ok u, w')" "length bs \<le> 2 ^ 48"
      "\<forall>i < align8 (length bs). a + of_nat i \<in> still K (pid P)" for a bs w u w'
    using PtraceWriteSlice_Ok [OF laws(3) that(1)] that(2,3) align8_bounds [of "length bs"]
    by (simp add: alignBuffer_eq holds_at_append)
  show "mem_of K w' (pid P) x = mem_of K w (pid P) x"
    if "PtraceWriteSlice K P a bs w = (r, w')" "x \<in> still K (pid P)"
      "\<not> in_range a (align8 (length bs)) x" for a bs w r w' x
  proof (cases "align8 (length bs) \<le> 2 ^ 64")
    case True
    then show ?thesis
      using PtraceWriteSlice_same_but [OF laws(3) that(1)] that(2,3) by (auto simp: same_but_def)
  next
    case False
    have "unat (x - a) < 2 ^ LENGTH(64)" by (rule unsigned_less)
    with False that(3) show ?thesis by (simp add: in_range_def)
  qed
qed (simp add: align8_bounds)

end
