(* ===== verification/Elf.thy ===== *)
theory Elf
  imports TraceeMemory
begin

text \<open>
  ELF files as the program sees them through \<open>debug/elf\<close>, and the search for a symbol of the vDSO
  (\<open>FindSymbolInEntry\<close> of \<open>ptrace_linux.go\<close>). The parser of the file format is a parameter of
  the definitions: a function from the bytes of the file to a record of what the program reads
  from the parsed file, or to an error.
\<close>

section \<open>Parsed files\<close>

record elf_prog =
  prog_type :: nat
  prog_vaddr :: u64
  prog_off :: u64

record elf_section =
  sec_type :: nat
  sec_name :: string
  sec_data :: "byte list res"

record elf_symbol =
  sym_name :: string
  sym_value :: u64
  sym_size :: u64

record elf_file =
  Machine :: nat
  ByteOrder :: byte_order
  Progs :: "elf_prog list"
  Sections :: "elf_section list"
  Symbols :: "elf_symbol list res"
  DynamicSymbols :: "elf_symbol list res"

text \<open>The constants of the ELF standard that the program names.\<close>

definition PT_LOAD :: nat where "PT_LOAD = 1"
definition SHT_PROGBITS :: nat where "SHT_PROGBITS = 1"
definition SHT_RELA :: nat where "SHT_RELA = 4"
definition EM_X86_64 :: nat where "EM_X86_64 = 62"
definition EM_AARCH64 :: nat where "EM_AARCH64 = 183"

section \<open>Relocation entries\<close>

text \<open>\<open>elf.Rela64\<close>, and \<open>binary.Read\<close> of one.\<close>

record Rela64 =
  Off :: u64
  Info :: u64
  Addend :: u64

definition read_rela :: "byte_order \<Rightarrow> byte list \<Rightarrow> Rela64" where
  "read_rela bo bs =
     \<lparr>Off = GetUint64 bo (take 8 bs), Info = GetUint64 bo (take 8 (drop 8 bs)),
      Addend = GetUint64 bo (take 8 (drop 16 bs))\<rparr>"

definition put_rela :: "byte_order \<Rightarrow> Rela64 \<Rightarrow> byte list" where
  "put_rela bo r = PutUint64 bo (Off r) @ PutUint64 bo (Info r) @ PutUint64 bo (Addend r)"

lemma length_put_rela [simp]: "length (put_rela bo r) = 24"
  by (simp add: put_rela_def)

lemma put_rela_ne [simp]: "put_rela bo r \<noteq> []"
  by (metis length_put_rela list.size(3) zero_neq_numeral)

lemma read_put_rela: "read_rela bo (put_rela bo r @ bs) = r"
  by (simp add: read_rela_def put_rela_def u64_codec.get_put)

section \<open>FindSymbolInEntry\<close>

text \<open>
  The first loadable segment gives the load offset; the first dynamic symbol with the name, or on
  arm64 with the name behind \<open>__kernel_\<close>, gives the address and the size.
\<close>

definition load_offset :: "elf_prog list \<Rightarrow> u64" where
  "load_offset progs =
     (case List.find (\<lambda>p. prog_type p = PT_LOAD) progs of
        Some p \<Rightarrow> prog_vaddr p - prog_off p
      | None \<Rightarrow> 0)"

fun find_symbol :: "arch \<Rightarrow> string \<Rightarrow> Entry \<Rightarrow> u64 \<Rightarrow> elf_symbol list \<Rightarrow> (u64 \<times> u64) res" where
  "find_symbol A symbolName entry loadOffset [] = Err (Errorf (''cannot find symbol '' @ [CHR 0x27] @ ''%s'' @ [CHR 0x27]) [])"
| "find_symbol A symbolName entry loadOffset (symbol # symbols) =
     (let offset = sym_value symbol;
          location = StartAddress entry + (offset - loadOffset) in
      if sym_name symbol = symbolName then Ok (location, sym_size symbol)
      else if A = ARM64 \<and> sym_name symbol = ''__kernel_'' @ symbolName then Ok (location, sym_size symbol)
      else find_symbol A symbolName entry loadOffset symbols)"

definition FindSymbolInEntry ::
  "arch \<Rightarrow> ('w, 'z) kernel_scheme \<Rightarrow> (byte list \<Rightarrow> elf_file res) \<Rightarrow> TracedProgram \<Rightarrow> string \<Rightarrow> Entry \<Rightarrow>
     ('w, u64 \<times> u64) io" where
  "FindSymbolInEntry A K elf P symbolName entry =
     and_then (GetLibBuffer K P entry) (\<lambda>libBuffer.
     and_then (lift_res (elf libBuffer)) (\<lambda>vdsoElf.
     and_then (lift_res (DynamicSymbols vdsoElf)) (\<lambda>symbols.
     lift_res (find_symbol A symbolName entry (load_offset (Progs vdsoElf)) symbols))))"

text \<open>The names that match.\<close>

definition sym_matches :: "arch \<Rightarrow> string \<Rightarrow> elf_symbol \<Rightarrow> bool" where
  "sym_matches A name s \<longleftrightarrow> sym_name s = name \<or> A = ARM64 \<and> sym_name s = ''__kernel_'' @ name"

lemma find_symbol_find:
  "find_symbol A name entry lo syms =
     (case List.find (sym_matches A name) syms of
        Some s \<Rightarrow> Ok (StartAddress entry + (sym_value s - lo), sym_size s)
      | None \<Rightarrow> Err (Errorf (''cannot find symbol '' @ [CHR 0x27] @ ''%s'' @ [CHR 0x27]) []))"
  by (induction syms) (auto simp: sym_matches_def Let_def)

lemma keeps_GetLibBuffer: "readers_ok K \<Longrightarrow> keeps (same_mem K) (GetLibBuffer K P e)"
  unfolding GetLibBuffer_def by (intro mem_frame.keeps_rules keeps_ReadSlice)

lemma keeps_FindSymbolInEntry: "readers_ok K \<Longrightarrow> keeps (same_mem K) (FindSymbolInEntry A K elf P name e)"
  unfolding FindSymbolInEntry_def by (intro mem_frame.keeps_rules keeps_GetLibBuffer)

text \<open>
  \<open>symbol_address\<close>: in the ELF file \<open>bs\<close> that is mapped at \<open>base\<close>, the first dynamic symbol that matches
  \<open>name\<close> has the run-time address \<open>loc\<close>. \<open>symbol_in\<close>: the file is in the memory of the process at the
  entry \<open>e\<close>, where the process does not write itself.
\<close>

definition symbol_address ::
  "arch \<Rightarrow> (byte list \<Rightarrow> elf_file res) \<Rightarrow> byte list \<Rightarrow> u64 \<Rightarrow> string \<Rightarrow> u64 \<Rightarrow> bool" where
  "symbol_address A elf bs base name loc \<longleftrightarrow>
     (\<exists>f syms s lo. elf bs = Ok f \<and> DynamicSymbols f = Ok syms \<and> List.find (sym_matches A name) syms = Some s \<and>
        lo = (case List.find (\<lambda>l. prog_type l = PT_LOAD) (Progs f) of
                Some l \<Rightarrow> prog_vaddr l - prog_off l | None \<Rightarrow> 0) \<and>
        loc = base + (sym_value s - lo))"

definition symbol_in ::
  "arch \<Rightarrow> ('w, 'z) kspec_scheme \<Rightarrow> (byte list \<Rightarrow> elf_file res) \<Rightarrow> int \<Rightarrow> 'w \<Rightarrow> Entry \<Rightarrow> string \<Rightarrow> u64 \<Rightarrow> bool" where
  "symbol_in A K elf p w e name loc \<longleftrightarrow>
     (\<exists>bs. length bs = unat (EndAddress e - StartAddress e) \<and>
        (\<forall>i < length bs. StartAddress e + of_nat i \<in> still K p \<longrightarrow>
           mem_of K w p (StartAddress e + of_nat i) \<in> {None, Some (bs ! i)}) \<and>
        symbol_address A elf bs (StartAddress e) name loc)"

lemma FindSymbolInEntry_Ok:
  assumes "reads_ok K" "FindSymbolInEntry A K elf P name e w = (Ok (loc, sz), w')"
  shows "symbol_in A K elf (pid P) w e name loc"
proof -
  obtain bs f syms w1 where st: "GetLibBuffer K P e w = (Ok bs, w1)" "elf bs = Ok f"
      "DynamicSymbols f = Ok syms" "find_symbol A name e (load_offset (Progs f)) syms = Ok (loc, sz)"
    using assms(2) by (auto simp: FindSymbolInEntry_def io_ok)
  then have "ReadSlice K P (StartAddress e) (EndAddress e - StartAddress e) w = (Ok bs, w1)"
    by (simp add: GetLibBuffer_def throw_def split: if_splits)
  note b = ReadSlice_Ok [OF assms(1) this]
  obtain s where "List.find (sym_matches A name) syms = Some s"
      "loc = StartAddress e + (sym_value s - load_offset (Progs f))"
    using st(4) by (auto simp: find_symbol_find split: option.splits)
  with b st(2,3) show ?thesis
    unfolding symbol_in_def symbol_address_def load_offset_def [symmetric]
    by (intro exI [of _ bs] conjI exI [of _ f] exI [of _ syms] exI [of _ s]) (simp_all add: holds_at_def)
qed

text \<open>It depends on the mapped bytes that the process does not write.\<close>

lemma symbol_in_before:
  assumes "symbol_in A K elf p w1 e name loc"
    and "\<forall>x \<in> still K p. mem_of K w p x = None \<or> mem_of K w1 p x = mem_of K w p x"
  shows "symbol_in A K elf p w e name loc"
proof -
  obtain bs where bs: "length bs = unat (EndAddress e - StartAddress e)" "symbol_address A elf bs (StartAddress e) name loc"
    "\<forall>i < length bs. StartAddress e + of_nat i \<in> still K p \<longrightarrow>
       mem_of K w1 p (StartAddress e + of_nat i) \<in> {None, Some (bs ! i)}"
    using assms(1) by (auto simp: symbol_in_def)
  have "\<forall>i < length bs. StartAddress e + of_nat i \<in> still K p \<longrightarrow>
       mem_of K w p (StartAddress e + of_nat i) \<in> {None, Some (bs ! i)}"
    using bs(3) assms(2) by (metis insertCI insertE)
  with bs(1,2) show ?thesis unfolding symbol_in_def by blast
qed

end
