(* ===== verification/RemoteCall.thy ===== *)
theory RemoteCall
  imports TraceeMemory
begin

text \<open>
  Running a system call inside the traced process: the registers and the \<open>Syscall\<close> and
  \<open>JumpToFakeFunc\<close> of both architectures (\<open>ptrace_linux_amd64.go\<close>, \<open>ptrace_linux_arm64.go\<close>), and
  from \<open>ptrace_linux.go\<close> the saving and restoring of registers and code, \<open>Mmap\<close> and \<open>MmapSlice\<close>.
  The Go files are selected by the build constraint; here the architecture is an argument.
\<close>

unbundle bit_operations_syntax

section \<open>Registers\<close>

definition unixInstrSize :: "arch \<Rightarrow> nat" where
  "unixInstrSize A = (case A of AMD64 \<Rightarrow> 2 | ARM64 \<Rightarrow> 4)"

definition getIp_amd64 :: "ptrace_regs \<Rightarrow> u64" where
  "getIp_amd64 regs = regs Rip"

definition getIp_arm64 :: "ptrace_regs \<Rightarrow> u64" where
  "getIp_arm64 regs = regs Pc"

definition getIp :: "arch \<Rightarrow> ptrace_regs \<Rightarrow> u64" where
  "getIp A = (case A of AMD64 \<Rightarrow> getIp_amd64 | ARM64 \<Rightarrow> getIp_arm64)"

definition getRegs :: "('w, 'z) kernel_scheme \<Rightarrow> int \<Rightarrow> ('w, ptrace_regs) io" where
  "getRegs K p = wrap_err (\<lambda>e. Errorf ''%T get registers of process %d'' [e]) (sys (PtraceGetRegs K p))"

definition setRegs :: "('w, 'z) kernel_scheme \<Rightarrow> int \<Rightarrow> ptrace_regs \<Rightarrow> ('w, unit) io" where
  "setRegs K p regs = wrap_err (\<lambda>e. Errorf ''%T set registers of process %d'' [e]) (sys (PtraceSetRegs K p regs))"

section \<open>Saving, restoring, stepping\<close>

definition Protect :: "arch \<Rightarrow> ('w, 'z) kernel_scheme \<Rightarrow> TracedProgram \<Rightarrow> (backup \<times> 'w, unit) io" where
  "Protect A K P =
     and_then get_fst (\<lambda>b.
     and_then (on_snd (getRegs K (pid P))) (\<lambda>regs.
     and_then (put_fst (b\<lparr>backupRegs := regs\<rparr>)) (\<lambda>_.
     and_then (on_snd (sys (PtracePeekData K (pid P) (getIp A regs) (length (backupCode b))))) (\<lambda>code.
     put_fst (b\<lparr>backupRegs := regs, backupCode := code\<rparr>)))))"

definition Restore :: "arch \<Rightarrow> ('w, 'z) kernel_scheme \<Rightarrow> TracedProgram \<Rightarrow> (backup \<times> 'w, unit) io" where
  "Restore A K P =
     and_then get_fst (\<lambda>b.
     and_then (on_snd (setRegs K (pid P) (backupRegs b))) (\<lambda>_.
     on_snd (sys (PtracePokeData K (pid P) (getIp A (backupRegs b)) (backupCode b)))))"

definition Wait :: "('w, 'z) kernel_scheme \<Rightarrow> TracedProgram \<Rightarrow> ('w, unit) io" where
  "Wait K P = waitPid K (pid P)"

definition Step :: "('w, 'z) kernel_scheme \<Rightarrow> TracedProgram \<Rightarrow> ('w, unit) io" where
  "Step K P = and_then (sys (PtraceSingleStep K (pid P))) (\<lambda>_. Wait K P)"

section \<open>Syscall\<close>

text \<open>The loops that put the arguments into registers.\<close>

fun set_args_amd64 :: "ptrace_regs \<Rightarrow> nat \<Rightarrow> u64 list \<Rightarrow> ptrace_regs res" where
  "set_args_amd64 regs index [] = Ok regs"
| "set_args_amd64 regs index (arg # args) =
     (if index = 0 then set_args_amd64 (regs(Rdi := arg)) (index + 1) args
      else if index = 1 then set_args_amd64 (regs(Rsi := arg)) (index + 1) args
      else if index = 2 then set_args_amd64 (regs(Rdx := arg)) (index + 1) args
      else if index = 3 then set_args_amd64 (regs(R10 := arg)) (index + 1) args
      else if index = 4 then set_args_amd64 (regs(R8 := arg)) (index + 1) args
      else if index = 5 then set_args_amd64 (regs(R9 := arg)) (index + 1) args
      else Err (Errorf ''too many arguments for a syscall'' []))"

fun set_args_arm64 :: "ptrace_regs \<Rightarrow> nat \<Rightarrow> u64 list \<Rightarrow> ptrace_regs res" where
  "set_args_arm64 regs index [] = Ok regs"
| "set_args_arm64 regs index (arg # args) =
     (if 6 < index then Err (Errorf ''too many arguments for a syscall'' [])
      else set_args_arm64 (regs(Regs index := arg)) (index + 1) args)"

definition Syscall_amd64 ::
  "('w, 'z) kernel_scheme \<Rightarrow> TracedProgram \<Rightarrow> u64 \<Rightarrow> u64 list \<Rightarrow> (backup \<times> 'w, u64) io" where
  "Syscall_amd64 K P number args =
     and_then (Protect AMD64 K P) (\<lambda>_.
     and_then (on_snd (getRegs K (pid P))) (\<lambda>regs.
     and_then (lift_res (set_args_amd64 (regs(Rax := number)) 0 args)) (\<lambda>regs.
     and_then (on_snd (setRegs K (pid P) regs)) (\<lambda>_.
     and_then get_fst (\<lambda>b.
     and_then (on_snd (wrap_err (\<lambda>e. Errorf ''%T writing data %v to %x'' [e])
        (sys (PtracePokeData K (pid P) (getIp_amd64 (backupRegs b)) (PutUint16 LittleEndian 0x050f))))) (\<lambda>_.
     and_then (on_snd (Step K P)) (\<lambda>_.
     and_then (on_snd (getRegs K (pid P))) (\<lambda>regs.
     and_then (Restore AMD64 K P) (\<lambda>_.
     ret (regs Rax))))))))))"

definition Syscall_arm64 ::
  "('w, 'z) kernel_scheme \<Rightarrow> TracedProgram \<Rightarrow> u64 \<Rightarrow> u64 list \<Rightarrow> (backup \<times> 'w, u64) io" where
  "Syscall_arm64 K P number args =
     and_then (Protect ARM64 K P) (\<lambda>_.
     and_then (on_snd (getRegs K (pid P))) (\<lambda>regs.
     and_then (lift_res (set_args_arm64 (regs(Regs 8 := number)) 0 args)) (\<lambda>regs.
     and_then (on_snd (setRegs K (pid P) regs)) (\<lambda>_.
     and_then get_fst (\<lambda>b.
     and_then (on_snd (wrap_err (\<lambda>e. Errorf ''%T writing data %v to %x'' [e])
        (sys (PtracePokeData K (pid P) (getIp_arm64 (backupRegs b)) (PutUint32 LittleEndian 0xd4000001))))) (\<lambda>_.
     and_then (on_snd (Step K P)) (\<lambda>_.
     and_then (on_snd (getRegs K (pid P))) (\<lambda>regs.
     and_then (Restore ARM64 K P) (\<lambda>_.
     ret (regs (Regs 0)))))))))))"

definition Syscall ::
  "arch \<Rightarrow> ('w, 'z) kernel_scheme \<Rightarrow> TracedProgram \<Rightarrow> u64 \<Rightarrow> u64 list \<Rightarrow> (backup \<times> 'w, u64) io" where
  "Syscall A = (case A of AMD64 \<Rightarrow> Syscall_amd64 | ARM64 \<Rightarrow> Syscall_arm64)"

section \<open>Mmap\<close>

definition tryMmap ::
  "arch \<Rightarrow> ('w, 'z) kernel_scheme \<Rightarrow> TracedProgram \<Rightarrow> u64 \<Rightarrow> u64 \<Rightarrow> u64 \<Rightarrow> u64 \<Rightarrow> u64 \<Rightarrow> u64 \<Rightarrow>
     (backup \<times> 'w, u64) io" where
  "tryMmap A K P addr len prot flags fd offset =
     and_then (Syscall A K P (SYS_MMAP K) [addr, len, prot, flags, fd, offset]) (\<lambda>result.
       if result = 0 then throw (Errorf ''mmap returned NULL address'' [])
       else if 0xFFFFFFFF00000000 < result then throw (Errorf ''mmap returned error code: 0x%x'' [])
       else ret result)"

definition round_up :: "u64 \<Rightarrow> u64 \<Rightarrow> u64" where
  "round_up len pageSize = (len + pageSize - 1) AND NOT (pageSize - 1)"

definition Mmap ::
  "arch \<Rightarrow> ('w, 'z) kernel_scheme \<Rightarrow> TracedProgram \<Rightarrow> u64 \<Rightarrow> u64 \<Rightarrow> (backup \<times> 'w, u64) io" where
  "Mmap A K P len fd =
     (let pageSize = Getpagesize K;
          alignedLength = round_up len pageSize;
          prot = PROT_READ K OR PROT_WRITE K OR PROT_EXEC K;
          flags = MAP_ANON K OR MAP_PRIVATE K;
          largerLength = (if alignedLength < 2 * pageSize then 2 * pageSize else alignedLength)
      in and_then (attempt (tryMmap A K P 0 alignedLength prot flags fd 0)) (\<lambda>r1.
         if (case r1 of Inr result \<Rightarrow> result \<noteq> 0 | Inl e \<Rightarrow> False) then ret (projr r1)
         else and_then (attempt (tryMmap A K P 0 largerLength prot flags fd 0)) (\<lambda>r2.
         if (case r2 of Inr result \<Rightarrow> result \<noteq> 0 | Inl e \<Rightarrow> False) then ret (projr r2)
         else throw (Errorf ''all mmap strategies failed'' []))))"

definition MmapSlice ::
  "arch \<Rightarrow> ('w, 'z) kernel_scheme \<Rightarrow> TracedProgram \<Rightarrow> byte list \<Rightarrow> (backup \<times> 'w, Entry) io" where
  "MmapSlice A K P content =
     (let sz = of_nat (length content) in
      and_then (Mmap A K P sz 0) (\<lambda>addr.
      and_then (on_snd (WriteSlice K P addr content)) (\<lambda>_.
      ret \<lparr>StartAddress = addr, EndAddress = addr + sz, Privilege = ''rwxp'', PaddingSize = 0, Path = []\<rparr>)))"

section \<open>JumpToFakeFunc\<close>

definition jump_code_amd64 :: "u64 \<Rightarrow> byte list" where
  "jump_code_amd64 targetAddr =
     [0x48, 0xb8] @ PutUint64 LittleEndian targetAddr @ [0xff, 0xe0] @ replicate 4 0"

definition jump_code_arm64 :: "u64 \<Rightarrow> byte list" where
  "jump_code_arm64 targetAddr =
     PutUint32 LittleEndian 0x58000049 @ PutUint32 LittleEndian 0xD61F0120 @ PutUint64 LittleEndian targetAddr"

definition jump_code :: "arch \<Rightarrow> u64 \<Rightarrow> byte list" where
  "jump_code A = (case A of AMD64 \<Rightarrow> jump_code_amd64 | ARM64 \<Rightarrow> jump_code_arm64)"

definition JumpToFakeFunc ::
  "arch \<Rightarrow> ('w, 'z) kernel_scheme \<Rightarrow> TracedProgram \<Rightarrow> u64 \<Rightarrow> u64 \<Rightarrow> ('w, unit) io" where
  "JumpToFakeFunc A K P originAddr targetAddr = PtraceWriteSlice K P originAddr (jump_code A targetAddr)"

section \<open>One shape for both architectures\<close>

definition set_args :: "arch \<Rightarrow> ptrace_regs \<Rightarrow> nat \<Rightarrow> u64 list \<Rightarrow> ptrace_regs res" where
  "set_args A = (case A of AMD64 \<Rightarrow> set_args_amd64 | ARM64 \<Rightarrow> set_args_arm64)"

lemma getIp_eq: "getIp A regs = regs (ip_reg A)"
  by (cases A) (simp_all add: getIp_def getIp_amd64_def getIp_arm64_def ip_reg_def)

lemma Syscall_eq:
  "Syscall A K P number args =
     and_then (Protect A K P) (\<lambda>_.
     and_then (on_snd (getRegs K (pid P))) (\<lambda>regs.
     and_then (lift_res (set_args A (regs(nr_reg A := number)) 0 args)) (\<lambda>regs.
     and_then (on_snd (setRegs K (pid P) regs)) (\<lambda>_.
     and_then get_fst (\<lambda>b.
     and_then (on_snd (wrap_err (\<lambda>e. Errorf ''%T writing data %v to %x'' [e])
        (sys (PtracePokeData K (pid P) (backupRegs b (ip_reg A)) (syscall_insn A))))) (\<lambda>_.
     and_then (on_snd (Step K P)) (\<lambda>_.
     and_then (on_snd (getRegs K (pid P))) (\<lambda>regs.
     and_then (Restore A K P) (\<lambda>_.
     ret (regs (ret_reg A)))))))))))"
  by (cases A) (simp_all add: Syscall_def Syscall_amd64_def Syscall_arm64_def set_args_def
      nr_reg_def ret_reg_def ip_reg_def syscall_insn_def getIp_amd64_def getIp_arm64_def)

text \<open>The six arguments are where the convention wants them, and no other register changes.\<close>

lemma set_args_six:
  assumes "set_args A (regs(nr_reg A := number)) 0 [a0, a1, a2, a3, a4, a5] = Ok regs'"
  shows "regs' (nr_reg A) = number" "regs' (ip_reg A) = regs (ip_reg A)"
    and "regs' (arg_reg A 0) = a0" "regs' (arg_reg A 1) = a1" "regs' (arg_reg A 3) = a3"
  using assms by (cases A; auto simp: set_args_def nr_reg_def ip_reg_def arg_reg_def)+

section \<open>Frames\<close>

lemma keeps_getRegs: "readers_ok K \<Longrightarrow> keeps (same_mem K) (getRegs K p)"
  unfolding getRegs_def by (intro mem_frame.keeps_rules keeps_readers)

lemma keeps_setRegs: "readers_ok K \<Longrightarrow> keeps (same_mem K) (setRegs K p r)"
  unfolding setRegs_def by (intro mem_frame.keeps_rules keeps_readers)

lemma keeps_other: "keeps (same_mem K) m \<Longrightarrow> keeps (same_other K p) m"
  by (auto simp: keeps_def intro: same_mem_other)

lemma keeps_Step:
  assumes "readers_ok K" "step_ok A K"
  shows "keeps (same_other K (pid P)) (Step K P)"
proof -
  have step: "keeps (same_other K (pid P)) (sys (PtraceSingleStep K (pid P)))"
    using assms(2) by (intro keeps_sys) (simp add: step_ok_def prod_eq_iff)
  show ?thesis
    unfolding Step_def Wait_def
    by (rule other_frame.keeps_and_then [OF step keeps_other [OF keeps_waitPid [OF assms(1)]]])
qed

lemma keeps_Syscall:
  assumes "readers_ok K" "writes_ok K" "step_ok A K"
  shows "keeps (snd_rel (same_other K (pid P))) (Syscall A K P number args)"
  unfolding Syscall_eq Protect_def Restore_def
  by (intro other_frame2.keeps_rules other_frame.keeps_state_rules keeps_poke
      keeps_Step [OF assms(1,3)] keeps_other [OF keeps_getRegs] keeps_other [OF keeps_setRegs]
      keeps_other [OF keeps_readers(9)] other_frame.keeps_wrap_err assms)

lemma keeps_tryMmap:
  assumes "readers_ok K" "writes_ok K" "step_ok A K"
  shows "keeps (snd_rel (same_other K (pid P))) (tryMmap A K P a len prot flags fd off)"
  unfolding tryMmap_def by (intro other_frame2.keeps_rules keeps_Syscall assms)

lemma keeps_Mmap:
  assumes "readers_ok K" "writes_ok K" "step_ok A K"
  shows "keeps (snd_rel (same_other K (pid P))) (Mmap A K P len fd)"
  unfolding Mmap_def Let_def by (intro other_frame2.keeps_rules keeps_tryMmap assms)

lemma keeps_MmapSlice:
  assumes "readers_ok K" "writes_ok K" "step_ok A K"
  shows "keeps (snd_rel (same_other K (pid P))) (MmapSlice A K P bs)"
  unfolding MmapSlice_def Let_def
  by (intro other_frame2.keeps_rules keeps_Mmap other_frame.keeps_state_rules keeps_WriteSlice assms)

section \<open>A successful mmap in the traced process\<close>

text \<open>
  The states a successful \<open>Syscall\<close> runs through: the registers and the code at the instruction
  pointer are saved, the call is set up, its instruction is written and stepped, and both are
  written back.
\<close>

lemma Syscall_run:
  assumes "Syscall A K P number args (b, w) = (Ok v, (b', w'))"
  obtains r code r' rs w1 w2 w3 w4 w5 w6 w7 r'' w8 w9 where
    "PtraceGetRegs K (pid P) w = (Inr r, w1)"
    "PtracePeekData K (pid P) (r (ip_reg A)) (length (backupCode b)) w1 = (Inr code, w2)"
    "PtraceGetRegs K (pid P) w2 = (Inr r', w3)"
    "PtraceSetRegs K (pid P) rs w3 = (Inr (), w4)"
    "set_args A (r'(nr_reg A := number)) 0 args = Ok rs"
    "PtracePokeData K (pid P) (r (ip_reg A)) (syscall_insn A) w4 = (Inr (), w5)"
    "PtraceSingleStep K (pid P) w5 = (Inr (), w6)"
    "Wait4 K (pid P) w6 = (Inr (pid P), w7)"
    "PtraceGetRegs K (pid P) w7 = (Inr r'', w8)" "v = r'' (ret_reg A)"
    "PtraceSetRegs K (pid P) r w8 = (Inr (), w9)"
    "PtracePokeData K (pid P) (r (ip_reg A)) code w9 = (Inr (), w')"
    "b' = b\<lparr>backupRegs := r, backupCode := code\<rparr>"
  using assms
  by (auto simp: Syscall_eq Protect_def Restore_def getRegs_def setRegs_def Step_def Wait_def
      waitPid_def getIp_eq io_ok split: if_splits)

text \<open>What the documented kernel says of each call, as memory and register equations.\<close>

lemma get_regs_law:
  assumes "kernel_ok A K" "PtraceGetRegs K p w = (Inr r, w')"
  shows "r = regs_of K w p" "regs_of K w' p = regs_of K w p" "same_mem K w w'"
  using kernel_okD [OF assms(1)] assms(2)
  by (auto simp: regs_ok_def readers_ok_def reads_only_def prod_eq_iff)

lemma set_regs_law:
  assumes "kernel_ok A K" "PtraceSetRegs K p r w = (Inr u, w')"
  shows "regs_of K w' p = r" "same_mem K w w'"
  using kernel_okD [OF assms(1)] assms(2)
  by (auto simp: regs_ok_def readers_ok_def reads_only_def prod_eq_iff)

lemma peek_law:
  assumes "kernel_ok A K" "PtracePeekData K p a n w = (Inr bs, w')"
  shows "length bs = n" "holds_at (mem_of K w p) a bs" "same_mem K w w'" "regs_of K w' p = regs_of K w p"
  using kernel_okD [OF assms(1)] assms(2)
  by (auto simp: regs_ok_def readers_ok_def reads_only_def reads_ok_def prod_eq_iff)

lemma wait_law:
  assumes "kernel_ok A K" "Wait4 K p w = (r, w')"
  shows "same_mem K w w'" "regs_of K w' p = regs_of K w p"
  using kernel_okD [OF assms(1)] assms(2)
  by (auto simp: regs_ok_def readers_ok_def reads_only_def prod_eq_iff)

lemma poke_law:
  assumes "kernel_ok A K" "PtracePokeData K p a bs w = (Inr u, w')"
  shows "holds_at (mem_of K w' p) a bs" "same_but K p a (length bs) w w'" "regs_of K w' p = regs_of K w p"
  using writes_okD(1,3) [OF kernel_okD(3) [OF assms(1)] assms(2)] kernel_okD(4) [OF assms(1)] assms(2)
  by (auto simp: regs_ok_def prod_eq_iff)

lemma length_syscall_insn: "length (syscall_insn A) = unixInstrSize A"
  by (cases A) (simp_all add: syscall_insn_def unixInstrSize_def)

lemma holds_at_in_range:
  "holds_at m a bs \<Longrightarrow> in_range a (length bs) x \<Longrightarrow> m x = Some (bs ! unat (x - a))"
proof -
  assume h: "holds_at m a bs" and r: "in_range a (length bs) x"
  have "x = a + of_nat (unat (x - a))" by simp
  with h r show ?thesis unfolding holds_at_def in_range_def by metis
qed

text \<open>The result of \<open>mmap\<close>: an error number, or pages that were not mapped before.\<close>

definition mmap_result :: "('w, 'z) kspec_scheme \<Rightarrow> int \<Rightarrow> u64 \<Rightarrow> u64 \<Rightarrow> 'w \<Rightarrow> 'w \<Rightarrow> bool" where
  "mmap_result K p len v w w' \<longleftrightarrow>
     0xFFFFFFFFFFFFF000 < v \<or> fresh_pages K p v (unat len) w w'"

text \<open>
  Registers and mapped code are as before, although the instruction at the instruction pointer
  was overwritten in between.
\<close>

definition mapped_kept :: "('w, 'z) kspec_scheme \<Rightarrow> int \<Rightarrow> 'w \<Rightarrow> 'w \<Rightarrow> bool" where
  "mapped_kept K p w w' \<longleftrightarrow>
     (\<forall>x \<in> still K p. mem_of K w p x = None \<or> mem_of K w' p x = mem_of K w p x)"

definition undisturbed :: "('w, 'z) kspec_scheme \<Rightarrow> int \<Rightarrow> 'w \<Rightarrow> 'w \<Rightarrow> bool" where
  "undisturbed K p w w' \<longleftrightarrow> regs_of K w' p = regs_of K w p \<and> mapped_kept K p w w'"

lemma Syscall_mmap:
  assumes ok: "kernel_ok A K" and len: "length (backupCode b) = unixInstrSize A"
    and run: "Syscall A K P (SYS_MMAP K) [0, n, prot, MAP_ANON K OR MAP_PRIVATE K, fd, off] (b, w) =
        (Ok v, (b', w'))"
  shows "undisturbed K (pid P) w w'" "mmap_result K (pid P) n v w w'"
    "length (backupCode b') = unixInstrSize A"
proof -
  obtain r code r' rs w1 w2 w3 w4 w5 w6 w7 r'' w8 w9 where
    st: "PtraceGetRegs K (pid P) w = (Inr r, w1)"
    "PtracePeekData K (pid P) (r (ip_reg A)) (length (backupCode b)) w1 = (Inr code, w2)"
    "PtraceGetRegs K (pid P) w2 = (Inr r', w3)"
    "PtraceSetRegs K (pid P) rs w3 = (Inr (), w4)"
    "PtracePokeData K (pid P) (r (ip_reg A)) (syscall_insn A) w4 = (Inr (), w5)"
    "PtraceSingleStep K (pid P) w5 = (Inr (), w6)"
    "Wait4 K (pid P) w6 = (Inr (pid P), w7)"
    "PtraceGetRegs K (pid P) w7 = (Inr r'', w8)"
    "PtraceSetRegs K (pid P) r w8 = (Inr (), w9)"
    "PtracePokeData K (pid P) (r (ip_reg A)) code w9 = (Inr (), w')"
    and set: "set_args A (r'(nr_reg A := SYS_MMAP K)) 0 [0, n, prot, MAP_ANON K OR MAP_PRIVATE K, fd, off] = Ok rs"
    and v: "v = r'' (ret_reg A)" and b': "b' = b\<lparr>backupRegs := r, backupCode := code\<rparr>"
    by (rule Syscall_run [OF run])
  note g1 = get_regs_law [OF ok st(1)] note pk = peek_law [OF ok st(2)]
  note g2 = get_regs_law [OF ok st(3)] note s1 = set_regs_law [OF ok st(4)]
  note p1 = poke_law [OF ok st(5)] note wt = wait_law [OF ok st(7)]
  note g3 = get_regs_law [OF ok st(8)] note s2 = set_regs_law [OF ok st(9)]
  note p2 = poke_law [OF ok st(10)]
  let ?p = "pid P" and ?ip = "r (ip_reg A)"
  have lc: "length code = length (syscall_insn A)"
    using pk(1) len by (simp add: length_syscall_insn)
  show "length (backupCode b') = unixInstrSize A"
    using lc by (simp add: b' length_syscall_insn)
  have m4: "same_mem K w w4" and m1: "same_mem K w w1"
    using g1(3) pk(3) g2(3) s1(2) by (auto intro: same_mem_trans)
  have m9: "same_mem K w6 w9"
    using wt(1) g3(3) s2(2) by (auto intro: same_mem_trans)
  have "r' = r" using g1 pk(4) g2(1) by simp
  then have at: "at_mmap A K ?p w5"
    using set_args_six [OF set] s1(1) p1(1,3) by (simp add: at_mmap_def)
  have arg: "regs_of K w5 ?p (arg_reg A 1) = n"
    using set_args_six(4) [OF set] s1(1) p1(3) by simp
  have step: "\<forall>x \<in> still K ?p. mem_of K w5 ?p x = None \<or> mem_of K w6 ?p x = mem_of K w5 ?p x"
    and res: "0xFFFFFFFFFFFFF000 < regs_of K w6 ?p (ret_reg A) \<or>
        fresh_pages K ?p (regs_of K w6 ?p (ret_reg A)) (unat n) w5 w6"
    using kernel_okD(5) [OF ok] st(6) at arg unfolding step_ok_def by blast+
  have v6: "v = regs_of K w6 ?p (ret_reg A)" using v g3(1) wt(2) by simp
  have out5: "mem_of K w5 ?p x = mem_of K w ?p x"
    if "x \<in> still K ?p" "\<not> in_range ?ip (length code) x" for x
    using that m4 p1(2) by (auto simp: same_but_def same_mem_def lc)
  have in5: "mem_of K w5 ?p x \<noteq> None" if "in_range ?ip (length code) x" for x
    using holds_at_in_range [OF p1(1)] that lc by simp
  have out': "mem_of K w' ?p x = mem_of K w6 ?p x"
    if "x \<in> still K ?p" "\<not> in_range ?ip (length code) x" for x
    using that m9 p2(2) by (auto simp: same_but_def same_mem_def)
  have in': "mem_of K w' ?p x = mem_of K w ?p x"
    if "x \<in> still K ?p" "in_range ?ip (length code) x" for x
    using holds_at_in_range [OF p2(1) that(2)] holds_at_in_range [OF pk(2) that(2)] that(1) m1
    by (simp add: same_mem_def)
  have "mem_of K w ?p x = None \<or> mem_of K w' ?p x = mem_of K w ?p x" if x: "x \<in> still K ?p" for x
    using in' [OF x] out' [OF x] out5 [OF x] step x by (cases "in_range ?ip (length code) x") auto
  moreover have "regs_of K w' ?p = regs_of K w ?p" using p2(3) s2(1) g1(1) by simp
  ultimately show "undisturbed K ?p w w'" by (simp add: undisturbed_def mapped_kept_def)
  have "fresh_pages K ?p v (unat n) w w'" if f: "fresh_pages K ?p v (unat n) w5 w6"
    unfolding fresh_pages_def
  proof (intro conjI allI impI)
    show "unat v + unat n \<le> 2 ^ 64" using f by (simp add: fresh_pages_def)
    fix i assume "i < unat n"
    with f have x: "v + of_nat i \<in> still K ?p" "mem_of K w5 ?p (v + of_nat i) = None"
        "mem_of K w6 ?p (v + of_nat i) = Some 0"
      by (auto simp: fresh_pages_def)
    then have out: "\<not> in_range ?ip (length code) (v + of_nat i)" using in5 by blast
    show "v + of_nat i \<in> still K ?p" by fact
    show "mem_of K w ?p (v + of_nat i) = None" using out5 [OF x(1) out] x(2) by simp
    show "mem_of K w' ?p (v + of_nat i) = Some 0" using out' [OF x(1) out] x(3) by simp
  qed
  with res v6 show "mmap_result K ?p n v w w'" by (auto simp: mmap_result_def)
qed

lemma mapped_kept_trans: "mapped_kept K p w1 w2 \<Longrightarrow> mapped_kept K p w2 w3 \<Longrightarrow> mapped_kept K p w1 w3"
  unfolding mapped_kept_def by fastforce

lemma undisturbed_trans: "undisturbed K p w1 w2 \<Longrightarrow> undisturbed K p w2 w3 \<Longrightarrow> undisturbed K p w1 w3"
  unfolding undisturbed_def by (auto intro: mapped_kept_trans)

lemma mapped_kept_holds:
  "mapped_kept K p w w' \<Longrightarrow> holds_at (mem_of K w p) a bs \<Longrightarrow> \<forall>i < length bs. a + of_nat i \<in> still K p \<Longrightarrow>
     holds_at (mem_of K w' p) a bs"
  unfolding mapped_kept_def holds_at_def by fastforce

lemma mapped_kept_fresh:
  "mapped_kept K p w w1 \<Longrightarrow> fresh_pages K p a n w1 w2 \<Longrightarrow> fresh_pages K p a n w w2"
  unfolding mapped_kept_def fresh_pages_def by fastforce

lemma fresh_pages_mono: "fresh_pages K p a n w w' \<Longrightarrow> m \<le> n \<Longrightarrow> fresh_pages K p a m w w'"
  by (simp add: fresh_pages_def)

section \<open>Rounding up to pages\<close>

lemma and_not_low_bits: "(x :: u64) AND NOT (2 ^ k - 1) = push_bit k (drop_bit k x)"
proof -
  have "(2 ^ k - 1 :: u64) = mask k" by (simp add: mask_eq_exp_minus_1)
  then show ?thesis by (intro bit_word_eqI) (auto simp: bit_simps)
qed

lemma unat_and_not_low_bits: "unat ((x :: u64) AND NOT (2 ^ k - 1)) = unat x div 2 ^ k * 2 ^ k"
proof -
  have "unat x div 2 ^ k * 2 ^ k \<le> unat x" by simp
  moreover have "unat x < 2 ^ LENGTH(64)" by (rule unsigned_less)
  ultimately have "unat x div 2 ^ k * 2 ^ k < 2 ^ LENGTH(64)" by linarith
  then have "take_bit LENGTH(64) (push_bit k (drop_bit k (unat x))) = unat x div 2 ^ k * 2 ^ k"
    by (simp add: push_bit_eq_mult drop_bit_eq_div take_bit_nat_eq_self)
  moreover have "unat (push_bit k (drop_bit k x)) = take_bit LENGTH(64) (push_bit k (drop_bit k (unat x)))"
    by (subst unsigned_push_bit_eq, subst unsigned_drop_bit_eq)
      (simp only: unsigned_take_bit_eq [symmetric] take_bit_length_eq)
  ultimately show ?thesis by (simp only: and_not_low_bits)
qed

lemma unat_two_power: "k < 64 \<Longrightarrow> unat ((2::u64) ^ k) = 2 ^ k"
proof -
  assume "k < 64"
  then have "(2::nat) ^ k < 2 ^ 64" by (rule power_strict_increasing) simp
  then show ?thesis using unat_of_nat [where 'a = 64, of "2 ^ k"] by simp
qed

text \<open>
  For a page size that is a power of two the result is the least multiple that is large enough,
  unless the sum overflows.
\<close>

lemma unat_round_up:
  assumes k: "k < 64" and fits: "unat len + 2 ^ k \<le> 2 ^ 64"
  shows "unat (round_up len (2 ^ k)) = (unat len + 2 ^ k - 1) div 2 ^ k * 2 ^ k"
proof -
  have "unat ((2::u64) ^ k - 1) = 2 ^ k - 1"
  proof -
    have "(1::u64) \<le> 2 ^ k" using k by (simp add: word_le_nat_alt unat_two_power)
    then show ?thesis using k by (simp add: unat_sub unat_two_power)
  qed
  moreover have "(1::nat) \<le> 2 ^ k" by simp
  ultimately have "unat (len + (2 ^ k - 1)) = unat len + 2 ^ k - 1"
    using fits unat_word_ariths(1) [of len "2 ^ k - 1"] by simp
  moreover have "len + 2 ^ k - 1 = len + (2 ^ k - 1)" by simp
  ultimately have "unat (len + 2 ^ k - 1) = unat len + 2 ^ k - 1" by (simp only:)
  then show ?thesis by (simp add: round_up_def unat_and_not_low_bits)
qed

lemma round_up_ge:
  assumes "k < 64" "unat len + 2 ^ k \<le> 2 ^ 64"
  shows "unat len \<le> unat (round_up len (2 ^ k))"
proof -
  have "(n::nat) \<le> (n + m - 1) div m * m" if "0 < m" for n m
  proof -
    have "n + m - 1 = (n + m - 1) div m * m + (n + m - 1) mod m" by simp
    moreover have "(n + m - 1) mod m < m" using that by simp
    ultimately show ?thesis by linarith
  qed
  then show ?thesis by (simp add: unat_round_up [OF assms])
qed

section \<open>A fresh copy of a slice\<close>

text \<open>The call of the first strategy of \<open>Mmap\<close>.\<close>

definition first_mmap ::
  "arch \<Rightarrow> ('w, 'z) kernel_scheme \<Rightarrow> TracedProgram \<Rightarrow> u64 \<Rightarrow> (backup \<times> 'w, u64) io" where
  "first_mmap A K P len =
     Syscall A K P (SYS_MMAP K)
       [0, round_up len (Getpagesize K), PROT_READ K OR PROT_WRITE K OR PROT_EXEC K,
        MAP_ANON K OR MAP_PRIVATE K, 0, 0]"

lemma tryMmap_Ok:
  assumes "kernel_ok A K" "length (backupCode b) = unixInstrSize A"
    and "tryMmap A K P 0 n prot (MAP_ANON K OR MAP_PRIVATE K) fd off (b, w) = (Ok v, (b', w'))"
  shows "undisturbed K (pid P) w w'" "fresh_pages K (pid P) v (unat n) w w'"
    "length (backupCode b') = unixInstrSize A" "v \<noteq> 0"
proof -
  have run: "Syscall A K P (SYS_MMAP K) [0, n, prot, MAP_ANON K OR MAP_PRIVATE K, fd, off] (b, w) =
      (Ok v, (b', w'))" and v: "v \<noteq> 0" "\<not> 0xFFFFFFFF00000000 < v"
    using assms(3) by (auto simp: tryMmap_def io_ok split: if_splits)
  have "\<not> 0xFFFFFFFFFFFFF000 < v" using v(2) order.strict_trans [of _ "0xFFFFFFFFFFFFF000" v] by auto
  with Syscall_mmap [OF assms(1,2) run] v(1)
  show "undisturbed K (pid P) w w'" "fresh_pages K (pid P) v (unat n) w w'"
    "length (backupCode b') = unixInstrSize A" "v \<noteq> 0"
    by (simp_all add: mmap_result_def)
qed

text \<open>An attempt that fails because of its result has still been undone.\<close>

lemma tryMmap_clean:
  assumes "kernel_ok A K" "length (backupCode b) = unixInstrSize A"
    and "is_ok (fst (Syscall A K P (SYS_MMAP K) [0, n, prot, MAP_ANON K OR MAP_PRIVATE K, fd, off] (b, w)))"
    and "tryMmap A K P 0 n prot (MAP_ANON K OR MAP_PRIVATE K) fd off (b, w) = (r, (b', w'))"
  shows "undisturbed K (pid P) w w' \<and> length (backupCode b') = unixInstrSize A"
proof -
  obtain v b1 w1 where run: "Syscall A K P (SYS_MMAP K) [0, n, prot, MAP_ANON K OR MAP_PRIVATE K, fd, off]
      (b, w) = (Ok v, (b1, w1))"
    using assms(3)
    by (cases "Syscall A K P (SYS_MMAP K) [0, n, prot, MAP_ANON K OR MAP_PRIVATE K, fd, off] (b, w)")
      (auto simp: is_ok_def split: res.splits)
  with assms(4) have "(b', w') = (b1, w1)"
    by (auto simp: tryMmap_def and_then_def throw_def ret_def split: if_splits)
  with Syscall_mmap [OF assms(1,2) run] show ?thesis by simp
qed

lemma Mmap_Ok:
  assumes ok: "kernel_ok A K" and len: "length (backupCode b) = unixInstrSize A"
    and first: "is_ok (fst (first_mmap A K P n (b, w)))"
    and run: "Mmap A K P n 0 (b, w) = (Ok v, (b', w'))"
  shows "undisturbed K (pid P) w w'"
    "fresh_pages K (pid P) v (unat (round_up n (Getpagesize K))) w w'"
    "length (backupCode b') = unixInstrSize A"
proof -
  let ?a = "round_up n (Getpagesize K)" and ?m = "2 * Getpagesize K"
  let ?l = "if ?a < ?m then ?m else ?a"
  let ?prot = "PROT_READ K OR PROT_WRITE K OR PROT_EXEC K"
  let ?attempt_map = "\<lambda>n. tryMmap A K P 0 n ?prot (MAP_ANON K OR MAP_PRIVATE K) 0 0"
  obtain r1 b1 w1 where try1: "?attempt_map ?a (b, w) = (r1, (b1, w1))" by (metis surj_pair)
  have "v \<noteq> 0" if "?attempt_map ?a (b, w) = (Ok v, s)" for v s
    using that by (auto simp: tryMmap_def io_ok split: if_splits)
  then consider "?attempt_map ?a (b, w) = (Ok v, (b', w'))"
    | "?attempt_map ?a (b, w) = (r1, (b1, w1))" "?attempt_map ?l (b1, w1) = (Ok v, (b', w'))"
    using run try1 by (cases r1)
      (auto simp: Mmap_def Let_def and_then_def attempt_def throw_def ret_def
        split: if_splits prod.splits res.splits)
  then have "undisturbed K (pid P) w w' \<and> fresh_pages K (pid P) v (unat ?a) w w' \<and>
    length (backupCode b') = unixInstrSize A"
  proof cases
    case 1
    from tryMmap_Ok [OF ok len 1] show ?thesis by simp
  next
    case 2
    have c: "undisturbed K (pid P) w w1" "length (backupCode b1) = unixInstrSize A"
      using tryMmap_clean [OF ok len first [unfolded first_mmap_def] 2(1)] by simp_all
    note t = tryMmap_Ok [OF ok c(2) 2(2)]
    have "unat ?a \<le> unat ?l" by (simp add: word_less_nat_alt)
    then have f: "fresh_pages K (pid P) v (unat ?a) w1 w'"
      by (rule fresh_pages_mono [OF t(2)])
    then show ?thesis
      using undisturbed_trans [OF c(1) t(1)] t(3) mapped_kept_fresh f c(1)
      by (auto simp: undisturbed_def)
  qed
  then show "undisturbed K (pid P) w w'" "fresh_pages K (pid P) v (unat ?a) w w'"
    "length (backupCode b') = unixInstrSize A"
    by simp_all
qed

lemma MmapSlice_Ok:
  assumes ok: "kernel_ok A K" and len: "length (backupCode b) = unixInstrSize A"
    and first: "is_ok (fst (first_mmap A K P (of_nat (length content)) (b, w)))"
    and page: "Getpagesize K = 2 ^ k" "k < 64" "length content + 2 ^ k \<le> 2 ^ 64"
    and run: "MmapSlice A K P content (b, w) = (Ok e, (b', w'))"
  shows "holds_at (mem_of K w' (pid P)) (StartAddress e) content"
    "EndAddress e - StartAddress e = of_nat (length content)"
    "\<forall>i < length content. StartAddress e + of_nat i \<in> still K (pid P) \<and>
       mem_of K w (pid P) (StartAddress e + of_nat i) = None"
    "undisturbed K (pid P) w w'" "unat (StartAddress e) + length content \<le> 2 ^ 64"
    "length (backupCode b') = unixInstrSize A"
proof -
  let ?n = "of_nat (length content) :: u64"
  have n: "unat ?n = length content"
  proof -
    have "(0::nat) < 2 ^ k" by simp
    then have "length content < 2 ^ 64" using page(3) by linarith
    then show ?thesis by (simp add: unat_of_nat)
  qed
  obtain v w1 where mm: "Mmap A K P ?n 0 (b, w) = (Ok v, (b', w1))"
      and wr: "WriteSlice K P v content w1 = (Ok (), w')"
      and e: "StartAddress e = v" "EndAddress e = v + ?n"
    using run by (auto simp: MmapSlice_def Let_def io_ok)
  note m = Mmap_Ok [OF ok len first mm]
  have f: "fresh_pages K (pid P) v (length content) w w1"
    using m(2) round_up_ge [OF page(2), of ?n] page(1,3) n by (auto intro: fresh_pages_mono)
  have sb: "same_but K (pid P) v (length content) w1 w'"
    by (rule WriteSlice_same_but [OF kernel_okD(3) [OF ok] wr])
  show "holds_at (mem_of K w' (pid P)) (StartAddress e) content"
    using WriteSlice_Ok [OF kernel_okD(3) [OF ok] wr] e by simp
  show "EndAddress e - StartAddress e = of_nat (length content)" using e by simp
  show "\<forall>i < length content. StartAddress e + of_nat i \<in> still K (pid P) \<and>
       mem_of K w (pid P) (StartAddress e + of_nat i) = None"
    and "unat (StartAddress e) + length content \<le> 2 ^ 64"
    using f e by (simp_all add: fresh_pages_def)
  show "length (backupCode b') = unixInstrSize A" by (rule m(3))
  have none: "mem_of K w (pid P) x = None" if "in_range v (length content) x" for x
    using that f by (auto simp: in_range_iff fresh_pages_def)
  have "mapped_kept K (pid P) w w1" using m(1) by (simp add: undisturbed_def)
  then have "mapped_kept K (pid P) w w'"
    using sb none unfolding mapped_kept_def same_but_def by fastforce
  moreover have "regs_of K w' (pid P) = regs_of K w1 (pid P)"
  proof -
    obtain m where "ProcessVMWritev K (pid P) v content w1 = (Inr m, w')"
      using wr by (auto simp: WriteSlice_def io_ok split: if_splits)
    then show ?thesis using kernel_okD(4) [OF ok] by (auto simp: regs_ok_def prod_eq_iff)
  qed
  ultimately show "undisturbed K (pid P) w w'" using m(1) by (simp add: undisturbed_def)
qed

text \<open>
  C14: a successful \<open>MmapSlice\<close> leaves the content at the address it returns, on pages that were not
  mapped before, and has put everything else back: the registers are those before, and every byte
  that was mapped, the instruction it had replaced by a system call included, is as before. The
  hypothesis on \<open>first_mmap\<close> excludes that the system call of the first strategy fails half way,
  which the code does not undo.
\<close>

theorem MmapSlice_fresh_copy:
  assumes "kernel_ok A K" and "length (backupCode b) = unixInstrSize A"
    and "is_ok (fst (first_mmap A K P (of_nat (length content)) (b, w)))"
    and "Getpagesize K = 2 ^ k" "k < 64" "length content + 2 ^ k \<le> 2 ^ 64"
    and "MmapSlice A K P content (b, w) = (Ok e, (b', w'))"
  shows "holds_at (mem_of K w' (pid P)) (StartAddress e) content \<and>
    EndAddress e - StartAddress e = of_nat (length content) \<and>
    (\<forall>i < length content. mem_of K w (pid P) (StartAddress e + of_nat i) = None) \<and>
    regs_of K w' (pid P) = regs_of K w (pid P) \<and>
    (\<forall>x \<in> still K (pid P). mem_of K w (pid P) x = None \<or> mem_of K w' (pid P) x = mem_of K w (pid P) x)"
  using MmapSlice_Ok [OF assms] by (simp add: undisturbed_def mapped_kept_def)

lemmas remote_eval = first_mmap_def MmapSlice_def Mmap_def tryMmap_def Syscall_eq Protect_def
  Restore_def getRegs_def setRegs_def Step_def Wait_def waitPid_def getIp_eq set_args_def
  ip_reg_def nr_reg_def arg_reg_def ret_reg_def io_defs Let_def WriteSlice_def

theorem MmapSlice_fresh_copy_witness:
  "\<exists>e b' w'. MmapSlice AMD64 (sim_kernel AMD64) prog7 [1, 2, 3]
      (\<lparr>backupRegs = (\<lambda>_. 0), backupCode = [0, 0]\<rparr>, page_sim) = (Ok e, (b', w')) \<and>
    holds_at (s_mem w' 7) (StartAddress e) [1, 2, 3]"
proof -
  let ?b = "\<lparr>backupRegs = (\<lambda>_. 0), backupCode = [0, 0]\<rparr>"
  let ?m = "MmapSlice AMD64 (sim_kernel AMD64) prog7 [1, 2, 3] (?b, page_sim)"
  have first: "is_ok (fst (first_mmap AMD64 (sim_kernel AMD64) prog7 (of_nat (length [1::byte, 2, 3])) (?b, page_sim)))"
    by (simp add: remote_eval page_sim_def round_up_def length_syscall_insn unixInstrSize_def
        sim_step_def sim_at_mmap_def)
  have "is_ok (fst ?m)"
    by (simp add: remote_eval page_sim_def round_up_def length_syscall_insn unixInstrSize_def
        sim_step_def sim_at_mmap_def)
  then obtain e where "fst ?m = Ok e" by (cases "fst ?m") auto
  then obtain b' w' where run: "?m = (Ok e, (b', w'))" by (metis prod.collapse)
  have "holds_at (s_mem w' 7) (StartAddress e) [1, 2, 3]"
    using MmapSlice_fresh_copy [OF sim_kernel_ok _ first _ _ _ run, of 4]
    by (simp add: unixInstrSize_def)
  with run show ?thesis by blast
qed

end
