(* ===== verification/Trampoline.thy ===== *)
theory Trampoline
  imports RemoteCall
begin

text \<open>
  What the processor does with the code that \<open>JumpToFakeFunc\<close> writes: the two jump sequences are
  decoded from memory by the instruction encodings of the manuals (\<open>movabs rax, imm64; jmp rax\<close>
  on amd64, \<open>ldr xt, label; br xn\<close> on arm64), and the address they end at is the one that was
  asked for.
\<close>

unbundle bit_operations_syntax

section \<open>Decoding a jump\<close>

definition read_mem :: "(u64 \<Rightarrow> byte option) \<Rightarrow> u64 \<Rightarrow> nat \<Rightarrow> byte list option" where
  "read_mem m a n = those (map (\<lambda>i. m (a + of_nat i)) [0..<n])"

text \<open>The register and the address of a 64-bit \<open>LDR (literal)\<close> at \<open>pc\<close>.\<close>

definition ldr_literal :: "u64 \<Rightarrow> u32 \<Rightarrow> (nat \<times> u64) option" where
  "ldr_literal pc i =
     (if drop_bit 24 i = 0x58
      then Some (unat (i AND 31), pc + 4 * scast (ucast (drop_bit 5 i) :: 19 word))
      else None)"

text \<open>The register of a \<open>BR\<close>.\<close>

definition br_register :: "u32 \<Rightarrow> nat option" where
  "br_register i = (if i AND 0xFFFFFC1F = 0xD61F0000 then Some (unat (drop_bit 5 i AND 31)) else None)"

definition jump_target_amd64 :: "(u64 \<Rightarrow> byte option) \<Rightarrow> u64 \<Rightarrow> u64 option" where
  "jump_target_amd64 m pc =
     Option.bind (read_mem m pc 12) (\<lambda>bs.
       if take 2 bs = [0x48, 0xb8] \<and> drop 10 bs = [0xff, 0xe0]
       then Some (GetUint64 LittleEndian (take 8 (drop 2 bs))) else None)"

definition jump_target_arm64 :: "(u64 \<Rightarrow> byte option) \<Rightarrow> u64 \<Rightarrow> u64 option" where
  "jump_target_arm64 m pc =
     Option.bind (read_mem m pc 4) (\<lambda>i1.
     Option.bind (ldr_literal pc (GetUint32 LittleEndian i1)) (\<lambda>(rt, a).
     Option.bind (read_mem m (pc + 4) 4) (\<lambda>i2.
     Option.bind (br_register (GetUint32 LittleEndian i2)) (\<lambda>rn.
     Option.bind (read_mem m a 8) (\<lambda>lit.
       if rn = rt then Some (GetUint64 LittleEndian lit) else None)))))"

definition jump_target :: "arch \<Rightarrow> (u64 \<Rightarrow> byte option) \<Rightarrow> u64 \<Rightarrow> u64 option" where
  "jump_target A = (case A of AMD64 \<Rightarrow> jump_target_amd64 | ARM64 \<Rightarrow> jump_target_arm64)"

lemma those_map_Some: "those (map (\<lambda>x. Some (f x)) xs) = Some (map f xs)"
  by (induction xs) auto

lemma read_mem_holds:
  assumes "holds_at m a bs" "n = length bs"
  shows "read_mem m a n = Some bs"
proof -
  have "map (\<lambda>i. m (a + of_nat i)) [0..<n] = map (\<lambda>i. Some (bs ! i)) [0..<n]"
    using assms by (simp add: holds_at_def)
  then show ?thesis by (simp only: read_mem_def those_map_Some assms(2) map_nth)
qed

lemma jump_target_code:
  assumes "holds_at m pc (jump_code A t)"
  shows "jump_target A m pc = Some t"
proof (cases A)
  case AMD64
  have "jump_code A t = ([0x48, 0xb8] @ PutUint64 LittleEndian t @ [0xff, 0xe0]) @ replicate 4 0"
    by (simp add: AMD64 jump_code_def jump_code_amd64_def)
  then have "holds_at m pc ([0x48, 0xb8] @ PutUint64 LittleEndian t @ [0xff, 0xe0])"
    using assms by (simp only: holds_at_append)
  then have "read_mem m pc 12 = Some ([0x48, 0xb8] @ PutUint64 LittleEndian t @ [0xff, 0xe0])"
    by (rule read_mem_holds) (simp add: codec_lengths)
  then show ?thesis
    by (simp add: AMD64 jump_target_def jump_target_amd64_def u64_codec.get_put)
next
  case ARM64
  have h: "holds_at m pc (PutUint32 LittleEndian 0x58000049)"
    "holds_at m (pc + 4) (PutUint32 LittleEndian 0xD61F0120)"
    "holds_at m (pc + 8) (PutUint64 LittleEndian t)"
    using assms by (simp_all add: ARM64 jump_code_def jump_code_arm64_def holds_at_append
        codec_lengths add.assoc)
  have ldr: "ldr_literal pc 0x58000049 = Some (9, pc + 8)" by (simp add: ldr_literal_def)
  have br: "br_register 0xD61F0120 = Some 9" by (simp add: br_register_def)
  show ?thesis
    by (simp add: ARM64 jump_target_def jump_target_arm64_def read_mem_holds [OF h(1)]
        read_mem_holds [OF h(2)] read_mem_holds [OF h(3)] ldr br u64_codec.get_put u32_codec.get_put)
qed

section \<open>Redirecting a function\<close>

lemma length_jump_code [simp]: "length (jump_code A targetAddr) = 16"
  by (cases A) (simp_all add: jump_code_def jump_code_amd64_def jump_code_arm64_def)

lemma JumpToFakeFunc_Ok:
  assumes "kernel_ok A K"
    and "\<forall>i < 16. originAddr + of_nat i \<in> still K (pid P)"
    and "JumpToFakeFunc A K P originAddr targetAddr w = (Ok u, w')"
  shows "holds_at (mem_of K w' (pid P)) originAddr (jump_code A targetAddr)"
    "same_but K (pid P) originAddr 16 w w'"
proof -
  have a: "align8 16 = 16" by (rule align8_id) simp
  have wr: "PtraceWriteSlice K P originAddr (jump_code A targetAddr) w = (Ok u, w')"
    using assms(3) by (simp add: JumpToFakeFunc_def)
  show "holds_at (mem_of K w' (pid P)) originAddr (jump_code A targetAddr)"
    using ptrace_memory.wr_bytes [OF assms(1) wr] assms(2) by (simp add: a)
  show "same_but K (pid P) originAddr 16 w w'"
    using PtraceWriteSlice_same_but [OF kernel_okD(3) [OF assms(1)] wr] by (simp add: a)
qed

text \<open>
  C15: after a successful \<open>JumpToFakeFunc\<close> the code at the original address is a jump that ends at
  the address of the fake function, on both architectures, and no byte outside the sixteen bytes
  from the original address has changed, in any process.
\<close>

theorem JumpToFakeFunc_redirects:
  assumes "kernel_ok A K"
    and "\<forall>i < 16. originAddr + of_nat i \<in> still K (pid P)"
    and "JumpToFakeFunc A K P originAddr targetAddr w = (Ok u, w')"
  shows "jump_target A (mem_of K w' (pid P)) originAddr = Some targetAddr \<and>
    same_but K (pid P) originAddr 16 w w'"
  using JumpToFakeFunc_Ok [OF assms] by (simp add: jump_target_code)

theorem JumpToFakeFunc_redirects_witness:
  "is_ok (fst (JumpToFakeFunc ARM64 (sim_kernel ARM64) prog7 0x1000 0x7f0000 page_sim)) \<and>
   jump_target ARM64 (mem_of (sim_kernel ARM64)
      (snd (JumpToFakeFunc ARM64 (sim_kernel ARM64) prog7 0x1000 0x7f0000 page_sim)) (pid prog7)) 0x1000 =
     Some 0x7f0000"
proof -
  let ?j = "JumpToFakeFunc ARM64 (sim_kernel ARM64) prog7 0x1000 0x7f0000 page_sim"
  have "is_ok (fst ?j)"
    by (simp add: JumpToFakeFunc_def PtraceWriteSlice_def poke_loop_step alignBuffer_id jump_code_def
        jump_code_arm64_def page_sim_def prog7_def sim0_def io_defs)
  then have run: "?j = (Ok (), snd ?j)" by (cases "fst ?j") (auto simp: prod_eq_iff)
  have "jump_target ARM64 (mem_of (sim_kernel ARM64) (snd ?j) (pid prog7)) 0x1000 = Some 0x7f0000"
    using JumpToFakeFunc_redirects [OF sim_kernel_ok _ run] by simp
  with \<open>is_ok (fst ?j)\<close> show ?thesis ..
qed

end
