(* ===== verification/Asset.thy ===== *)
theory Asset
  imports Elf Trampoline "HOL-Library.AList"
begin

text \<open>
  \<open>asset_linux.go\<close>, \<open>asset_linux_amd64.go\<close>, \<open>asset_linux_arm64.go\<close>: the fake image is the text
  section of an embedded object file. Behind it one slot is reserved for each relocation, and the
  instruction at the relocation is patched to refer to its slot.

  Go maps are association lists with distinct keys. A slice expression is bounded by the length
  here, where Go bounds it by the capacity: the two differ only for a relocation outside of the
  section it belongs to.
\<close>

unbundle bit_operations_syntax

section \<open>AssetLD\<close>

definition varLength :: "arch \<Rightarrow> nat" where
  "varLength A = (case A of AMD64 \<Rightarrow> 8 | ARM64 \<Rightarrow> 16)"

type_synonym image = "(string \<times> nat) list \<times> byte list"

definition AssetLD_amd64 :: "Rela64 \<Rightarrow> image \<Rightarrow> string \<Rightarrow> byte_order \<Rightarrow> image res" where
  "AssetLD_amd64 rela im symName byteorder =
     (case im of (imageOffset, imageContent) \<Rightarrow>
        if unat (Off rela) + 4 \<le> length imageContent then
          let imageOffset' = AList.update symName (length imageContent) imageOffset;
              targetOffset = of_nat (length imageContent) - ucast (Off rela) + ucast (Addend rela);
              content = overwrite imageContent (unat (Off rela)) (PutUint32 byteorder targetOffset)
          in Ok (imageOffset', content @ replicate (varLength AMD64) 0)
        else Panic)"

definition set_imm19 :: "u32 \<Rightarrow> u32 \<Rightarrow> u32" where
  "set_imm19 instr targetOffset =
     (instr AND NOT (push_bit 5 (push_bit 19 1 - 1))) OR push_bit 5 (targetOffset AND (push_bit 19 1 - 1))"

definition AssetLD_arm64 :: "Rela64 \<Rightarrow> image \<Rightarrow> string \<Rightarrow> byte_order \<Rightarrow> image res" where
  "AssetLD_arm64 rela im symName byteorder =
     (case im of (imageOffset, imageContent) \<Rightarrow>
        if unat (Off rela) + 4 \<le> length imageContent then
          let imageOffset' = AList.update symName (length imageContent) imageOffset;
              targetOffset = of_nat (length imageContent) - ucast (Off rela) + ucast (Addend rela);
              targetOffset = drop_bit 2 targetOffset;
              instr = GetUint32 byteorder (take 4 (drop (unat (Off rela)) imageContent));
              instr = set_imm19 instr targetOffset;
              content = overwrite imageContent (unat (Off rela)) (PutUint32 byteorder instr)
          in Ok (imageOffset', content @ replicate (varLength ARM64) 0)
        else Panic)"

definition AssetLD :: "arch \<Rightarrow> Rela64 \<Rightarrow> image \<Rightarrow> string \<Rightarrow> byte_order \<Rightarrow> image res" where
  "AssetLD A = (case A of AMD64 \<Rightarrow> AssetLD_amd64 | ARM64 \<Rightarrow> AssetLD_arm64)"

section \<open>LoadFakeImageFromEmbedFs\<close>

text \<open>The loop over the relocation section.\<close>

function load_relocs ::
  "arch \<Rightarrow> nat \<Rightarrow> byte_order \<Rightarrow> elf_symbol list \<Rightarrow> byte list \<Rightarrow> image \<Rightarrow> image res" where
  "load_relocs A mach bo syms relaSection im =
     (if relaSection = [] then Ok im
      else if length relaSection < 24 then Err (Errorf ''%T read rela section rela64 entry %s'' [Errorf ''unexpected EOF'' []])
      else
        let rela = read_rela bo relaSection;
            rest = drop 24 relaSection;
            symNo = drop_bit 32 (Info rela) in
        if symNo = 0 \<or> length syms < unat symNo then load_relocs A mach bo syms rest im
        else if mach = EM_X86_64 \<or> mach = EM_AARCH64 then
          (case AssetLD A rela im (sym_name (syms ! (unat symNo - 1))) bo of
             Ok im' \<Rightarrow> load_relocs A mach bo syms rest im'
           | Err e \<Rightarrow> Err e
           | Panic \<Rightarrow> Panic)
        else Err (Errorf ''unsupported architecture in %s: %s'' []))"
  by pat_completeness auto
termination
  by (relation "measure (\<lambda>(A, mach, bo, syms, relaSection, im). length relaSection)") auto

declare load_relocs.simps [simp del]

definition find_section :: "nat \<Rightarrow> string \<Rightarrow> elf_section list \<Rightarrow> elf_section option" where
  "find_section t name = List.find (\<lambda>r. sec_type r = t \<and> sec_name r = name)"

definition LoadFakeImageFromEmbedFs ::
  "arch \<Rightarrow> (string \<Rightarrow> byte list res) \<Rightarrow> (byte list \<Rightarrow> elf_file res) \<Rightarrow> string \<Rightarrow> image res" where
  "LoadFakeImageFromEmbedFs A embedded elf filename =
     res_bind (map_err (\<lambda>e. Errorf ''%T read file from embedded fs %s'' [e])
       (embedded (''fakeclock/'' @ filename))) (\<lambda>object.
     res_bind (map_err (\<lambda>e. Errorf ''%T parse elf file %s'' [e]) (elf object)) (\<lambda>elfFile.
     res_bind (map_err (\<lambda>e. Errorf ''%T get symbols %s'' [e]) (Symbols elfFile)) (\<lambda>syms.
     res_bind
       (case find_section SHT_PROGBITS ''.text'' (Sections elfFile) of
          Some r \<Rightarrow> map_err (\<lambda>e. Errorf ''%T read text section data %s'' [e]) (sec_data r)
        | None \<Rightarrow> Ok []) (\<lambda>imageContent.
     case find_section SHT_RELA ''.rela.text'' (Sections elfFile) of
       None \<Rightarrow> Ok ([], imageContent)
     | Some r \<Rightarrow>
         res_bind (map_err (\<lambda>e. Errorf ''%T read rela section data %s'' [e]) (sec_data r)) (\<lambda>relaSection.
         load_relocs A (Machine elfFile) (ByteOrder elfFile) syms relaSection ([], imageContent))))))"

section \<open>The relocations in order\<close>

text \<open>The relocations that are processed, each with the name of its symbol.\<close>

function relocs :: "byte_order \<Rightarrow> elf_symbol list \<Rightarrow> byte list \<Rightarrow> (Rela64 \<times> string) list" where
  "relocs bo syms relaSection =
     (if length relaSection < 24 then []
      else
        let rela = read_rela bo relaSection;
            symNo = drop_bit 32 (Info rela) in
        (if symNo = 0 \<or> length syms < unat symNo then []
         else [(rela, sym_name (syms ! (unat symNo - 1)))]) @
        relocs bo syms (drop 24 relaSection))"
  by pat_completeness auto
termination
  by (relation "measure (\<lambda>(bo, syms, relaSection). length relaSection)") auto

declare relocs.simps [simp del]

fun link :: "arch \<Rightarrow> byte_order \<Rightarrow> (Rela64 \<times> string) list \<Rightarrow> image \<Rightarrow> image res" where
  "link A bo [] im = Ok im"
| "link A bo ((rela, name) # rs) im = res_bind (AssetLD A rela im name bo) (link A bo rs)"

lemma load_relocs_link:
  "load_relocs A mach bo syms bs im = Ok im' \<Longrightarrow> link A bo (relocs bo syms bs) im = Ok im'"
proof (induction A mach bo syms bs im rule: load_relocs.induct)
  case (1 A mach bo syms bs im)
  note IH = "1.IH" and prem = "1.prems"
  show ?case
  proof (cases "length bs < 24")
    case True
    with prem show ?thesis
      by (simp add: load_relocs.simps [of A mach bo syms bs im] relocs.simps [of bo syms bs]
          split: if_splits)
  next
    case False
    then have ne: "bs \<noteq> []" by auto
    show ?thesis
    proof (cases "drop_bit 32 (Info (read_rela bo bs)) = 0 \<or> length syms < unat (drop_bit 32 (Info (read_rela bo bs)))")
      case True
      with prem False ne have "load_relocs A mach bo syms (drop 24 bs) im = Ok im'"
        by (simp add: load_relocs.simps [of A mach bo syms bs im] Let_def)
      from IH(1) [OF ne False refl refl refl True this] True False show ?thesis
        by (simp add: relocs.simps [of bo syms bs] Let_def)
    next
      case nskip: False
      with prem False ne have mach: "mach = EM_X86_64 \<or> mach = EM_AARCH64"
        by (auto simp: load_relocs.simps [of A mach bo syms bs im] Let_def split: if_splits)
      with prem False ne nskip obtain im1
        where ld: "AssetLD A (read_rela bo bs) im
            (sym_name (syms ! (unat (drop_bit 32 (Info (read_rela bo bs))) - 1))) bo = Ok im1"
          and l: "load_relocs A mach bo syms (drop 24 bs) im1 = Ok im'"
        by (auto simp: load_relocs.simps [of A mach bo syms bs im] Let_def split: res.splits)
      from IH(2) [OF ne False refl refl refl nskip mach ld l] ld nskip False show ?thesis
        by (simp add: relocs.simps [of bo syms bs] Let_def)
    qed
  qed
qed

section \<open>The layout of the image\<close>

text \<open>What is written into the four bytes at the relocation.\<close>

definition patch :: "arch \<Rightarrow> Rela64 \<Rightarrow> nat \<Rightarrow> u32 \<Rightarrow> u32" where
  "patch A rela len instr =
     (let targetOffset = of_nat len - ucast (Off rela) + ucast (Addend rela) in
      case A of AMD64 \<Rightarrow> targetOffset | ARM64 \<Rightarrow> set_imm19 instr (drop_bit 2 targetOffset))"

definition field :: "Rela64 \<Rightarrow> byte list \<Rightarrow> byte list" where
  "field rela c = take 4 (drop (unat (Off rela)) c)"

lemma AssetLD_eq:
  "AssetLD A rela (off, c) name bo =
     (if unat (Off rela) + 4 \<le> length c then
        Ok (AList.update name (length c) off,
            overwrite c (unat (Off rela)) (PutUint32 bo (patch A rela (length c) (GetUint32 bo (field rela c))))
              @ replicate (varLength A) 0)
      else Panic)"
  by (cases A) (simp_all add: AssetLD_def AssetLD_amd64_def AssetLD_arm64_def patch_def field_def Let_def)

definition apart :: "Rela64 \<Rightarrow> Rela64 \<Rightarrow> bool" where
  "apart r s \<longleftrightarrow> unat (Off r) + 4 \<le> unat (Off s) \<or> unat (Off s) + 4 \<le> unat (Off r)"

text \<open>Relocations inside the first \<open>n\<close> bytes that do not overlap.\<close>

definition wf_relocs :: "nat \<Rightarrow> (Rela64 \<times> string) list \<Rightarrow> bool" where
  "wf_relocs n rs \<longleftrightarrow>
     list_all (\<lambda>(r, _). unat (Off r) + 4 \<le> n) rs \<and> sorted_wrt (\<lambda>(r, _) (s, _). apart r s) rs"

lemma length_overwrite_put [simp]:
  "unat (Off r) + 4 \<le> length c \<Longrightarrow> length (overwrite c (unat (Off r)) (PutUint32 bo v)) = length c"
  by (simp add: u32_codec.length_store)

lemma link_length:
  "link A bo rs (off, c) = Ok (off', c') \<Longrightarrow> length c' = length c + length rs * varLength A"
proof (induction rs arbitrary: off c)
  case (Cons rn rs)
  obtain rela name where "rn = (rela, name)" by fastforce
  with Cons show ?case by (fastforce simp: AssetLD_eq split: if_splits)
qed simp

text \<open>A range that no relocation touches keeps its bytes; a field that one relocation patches is
  not touched by another.\<close>

lemma link_keeps:
  "link A bo rs (off, c) = Ok (off', c') \<Longrightarrow> k + n \<le> length c \<Longrightarrow>
     list_all (\<lambda>(r, _). k + n \<le> unat (Off r) \<or> unat (Off r) + 4 \<le> k) rs \<Longrightarrow>
     take n (drop k c') = take n (drop k c)"
proof (induction rs arbitrary: off c)
  case (Cons rn rs)
  obtain rela name where rn: "rn = (rela, name)" by fastforce
  let ?c = "overwrite c (unat (Off rela)) (PutUint32 bo (patch A rela (length c) (GetUint32 bo (field rela c))))"
  from Cons.prems(1) have o: "unat (Off rela) + 4 \<le> length c"
      and l: "link A bo rs (AList.update name (length c) off, ?c @ replicate (varLength A) 0) = Ok (off', c')"
    by (auto simp: rn AssetLD_eq split: if_splits)
  have "take n (drop k c') = take n (drop k (?c @ replicate (varLength A) 0))"
    using Cons.IH [OF l] Cons.prems(2,3) o by simp
  also have "\<dots> = take n (drop k ?c)" using Cons.prems(2) o by simp
  also have "\<dots> = take n (drop k c)"
    using u32_codec.read_store_other [OF o] Cons.prems(2,3) rn by auto
  finally show ?case .
qed simp

text \<open>
  Each relocation is patched for the slot at the end of the content at its turn, from the bytes
  the text section had there.
\<close>

lemma link_fields:
  "link A bo rs (off, c) = Ok (off', c') \<Longrightarrow> wf_relocs n rs \<Longrightarrow> n \<le> length c \<Longrightarrow> i < length rs \<Longrightarrow>
     field (fst (rs ! i)) c' =
       PutUint32 bo (patch A (fst (rs ! i)) (length c + i * varLength A) (GetUint32 bo (field (fst (rs ! i)) c)))"
proof (induction rs arbitrary: off c i)
  case (Cons rn rs)
  obtain rela name where rn: "rn = (rela, name)" by fastforce
  let ?v = "PutUint32 bo (patch A rela (length c) (GetUint32 bo (field rela c)))"
  let ?c = "overwrite c (unat (Off rela)) ?v @ replicate (varLength A) 0"
  from Cons.prems(1) have o: "unat (Off rela) + 4 \<le> length c"
      and l: "link A bo rs (AList.update name (length c) off, ?c) = Ok (off', c')"
    by (auto simp: rn AssetLD_eq split: if_splits)
  have wf: "wf_relocs n rs" "list_all (\<lambda>(s, _). apart rela s \<and> unat (Off s) + 4 \<le> n) rs"
    using Cons.prems(2) by (auto simp: wf_relocs_def rn list_all_iff)
  have len: "length ?c = length c + varLength A" using o by simp
  show ?case
  proof (cases i)
    case 0
    have "list_all (\<lambda>(s, _). unat (Off rela) + 4 \<le> unat (Off s) \<or> unat (Off s) + 4 \<le> unat (Off rela)) rs"
      using wf(2) by (auto simp: list_all_iff apart_def)
    then have "field rela c' = field rela ?c"
      using link_keeps [OF l, of "unat (Off rela)" 4] o by (simp add: field_def)
    also have "\<dots> = ?v"
      using overwrite_read [of "unat (Off rela)" ?v c] o by (simp add: field_def)
    finally show ?thesis by (simp add: 0 rn)
  next
    case (Suc j)
    let ?s = "fst (rs ! j)"
    have j: "j < length rs" using Suc Cons.prems(4) by simp
    then have ap: "apart rela ?s" "unat (Off ?s) + 4 \<le> n"
      using wf(2) by (auto simp: list_all_length split: prod.splits) (metis fst_conv surj_pair)+
    have "field ?s ?c = field ?s c"
      using ap Cons.prems(3) u32_codec.read_store_other [OF o, of "unat (Off ?s)" 4] o
      by (auto simp: field_def apart_def)
    then show ?thesis
      using Cons.IH [OF l wf(1) _ j] Cons.prems(3) len Suc by (simp add: algebra_simps)
  qed
qed simp

text \<open>The table of the slots.\<close>

lemma link_offsets:
  "link A bo rs (off, c) = Ok (off', c') \<Longrightarrow> distinct (map snd rs) \<Longrightarrow> distinct (map fst off) \<Longrightarrow>
     distinct (map fst off') \<and> set (map fst off') = set (map fst off) \<union> set (map snd rs) \<and>
     (\<forall>i < length rs. map_of off' (snd (rs ! i)) = Some (length c + i * varLength A)) \<and>
     (\<forall>x. x \<notin> set (map snd rs) \<longrightarrow> map_of off' x = map_of off x)"
proof (induction rs arbitrary: off c)
  case (Cons rn rs)
  obtain rela name where rn: "rn = (rela, name)" by fastforce
  let ?c = "overwrite c (unat (Off rela)) (PutUint32 bo (patch A rela (length c) (GetUint32 bo (field rela c))))
     @ replicate (varLength A) 0"
  from Cons.prems(1) have o: "unat (Off rela) + 4 \<le> length c"
      and l: "link A bo rs (AList.update name (length c) off, ?c) = Ok (off', c')"
    by (auto simp: rn AssetLD_eq split: if_splits)
  have len: "length ?c = length c + varLength A" using o by simp
  from Cons.IH [OF l] Cons.prems(2,3)
  have IH: "distinct (map fst off')" "set (map fst off') = insert name (set (map fst off)) \<union> set (map snd rs)"
      "\<forall>i < length rs. map_of off' (snd (rs ! i)) = Some (length c + varLength A + i * varLength A)"
      "\<forall>x. x \<notin> set (map snd rs) \<longrightarrow> map_of off' x = ((map_of off)(name \<mapsto> length c)) x"
    unfolding len by (auto simp: rn distinct_update update_conv' update_keys simp del: set_map)
  have "map_of off' (snd ((rn # rs) ! i)) = Some (length c + i * varLength A)" if "i < length (rn # rs)" for i
    using that IH(3,4) Cons.prems(2) by (cases i) (auto simp: rn algebra_simps)
  with IH Cons.prems(2) show ?case by (auto simp: rn)
qed simp

section \<open>What the patched instructions refer to\<close>

text \<open>
  The address of the operand of the instruction at a relocation, when the image is loaded at
  \<open>base\<close>: relative to the next instruction on amd64, by the literal field of \<open>LDR\<close> on arm64.
\<close>

definition refers_to :: "arch \<Rightarrow> u64 \<Rightarrow> byte list \<Rightarrow> Rela64 \<Rightarrow> u64 option" where
  "refers_to A base c rela =
     (let v = GetUint32 LittleEndian (field rela c) in
      case A of
        AMD64 \<Rightarrow> Some (base + Off rela + 4 + scast v)
      | ARM64 \<Rightarrow> map_option snd (ldr_literal (base + Off rela) v))"

text \<open>The relocations the two comments in the code describe.\<close>

definition expected_reloc :: "arch \<Rightarrow> byte list \<Rightarrow> Rela64 \<Rightarrow> bool" where
  "expected_reloc A text r =
     (case A of
        AMD64 \<Rightarrow> Addend r = - 4
      | ARM64 \<Rightarrow> Addend r = 0 \<and> 4 dvd unat (Off r) \<and>
                 drop_bit 24 (GetUint32 LittleEndian (field r text)) = 0x58)"

definition expected_text :: "arch \<Rightarrow> byte list \<Rightarrow> nat \<Rightarrow> bool" where
  "expected_text A text n =
     (case A of
        AMD64 \<Rightarrow> length text + n * 8 < 2 ^ 31
      | ARM64 \<Rightarrow> 4 dvd length text \<and> length text + n * 16 < 2 ^ 20)"

lemma set_imm19_eq:
  "set_imm19 instr t = (instr AND NOT (push_bit 5 (mask 19))) OR push_bit 5 (take_bit 19 t)"
  by (simp add: set_imm19_def mask_eq_exp_minus_1 take_bit_eq_mask)

lemma set_imm19_opcode: "drop_bit 24 (set_imm19 i t) = drop_bit 24 i"
  unfolding set_imm19_eq by (rule bit_word_eqI) (auto simp: bit_simps dest: bit_imp_le_length)

lemma set_imm19_register: "set_imm19 i t AND 31 = i AND 31"
proof -
  have m: "(31 :: u32) = mask 5" by (simp add: mask_eq_exp_minus_1)
  show ?thesis unfolding set_imm19_eq m by (intro bit_word_eqI) (auto simp: bit_simps)
qed

lemma set_imm19_field: "ucast (drop_bit 5 (set_imm19 i t)) = (ucast t :: 19 word)"
  unfolding set_imm19_eq by (rule bit_word_eqI) (auto simp: bit_simps)

lemma scast_small_32: "m < 2 ^ 31 \<Longrightarrow> scast (of_nat m :: u32) = (of_nat m :: u64)"
proof -
  assume "m < 2 ^ 31"
  then have "sint (of_nat m :: u32) = int m"
    by (simp add: signed_of_nat signed_take_bit_int_eq_self)
  then show ?thesis by (simp add: scast_eq)
qed

lemma scast_small_19: "m < 2 ^ 18 \<Longrightarrow> scast (of_nat m :: 19 word) = (of_nat m :: u64)"
proof -
  assume "m < 2 ^ 18"
  then have "sint (of_nat m :: 19 word) = int m"
    by (simp add: signed_of_nat signed_take_bit_int_eq_self)
  then show ?thesis by (simp add: scast_eq)
qed

lemma ucast_of_nat_19: "m < 2 ^ 32 \<Longrightarrow> ucast (of_nat m :: u32) = (of_nat m :: 19 word)"
  by (simp add: unsigned_of_nat take_bit_nat_eq_self)

lemma unat_drop_bit: "unat (drop_bit k (x :: u32)) = unat x div 2 ^ k"
proof -
  have "unat (drop_bit k x) = drop_bit k (unat x)"
    by (subst unsigned_drop_bit_eq) (simp only: unsigned_take_bit_eq [symmetric] take_bit_length_eq)
  then show ?thesis by (simp add: drop_bit_eq_div)
qed

lemma drop_bit_2_of_nat: "m < 2 ^ 30 \<Longrightarrow> drop_bit 2 (of_nat (4 * m) :: u32) = of_nat m"
proof -
  assume m: "m < 2 ^ 30"
  have "unat (drop_bit 2 (of_nat (4 * m) :: u32)) = unat (of_nat (4 * m) :: u32) div 2 ^ 2"
    by (rule unat_drop_bit)
  also have "unat (of_nat (4 * m) :: u32) = 4 * m" using m by (simp add: unat_of_nat del: of_nat_mult)
  also have "4 * m div 2 ^ 2 = unat (of_nat m :: u32)" using m by (simp add: unat_of_nat)
  finally show ?thesis by (rule unsigned_word_eqI)
qed

text \<open>The distance from the relocation to the slot, as a 32-bit word.\<close>

lemma distance_word:
  assumes "unat (x :: u64) \<le> len"
  shows "(of_nat len :: u32) - ucast x = of_nat (len - unat x)" "x + of_nat (len - unat x) = of_nat len"
proof -
  have x: "x = of_nat (unat x)" by simp
  have "(of_nat (len - unat x) :: u64) = of_nat len - of_nat (unat x)" using assms by (rule of_nat_diff)
  then show "x + of_nat (len - unat x) = of_nat len" by simp
  have "(ucast x :: u32) = of_nat (unat x)" by simp
  then show "(of_nat len :: u32) - ucast x = of_nat (len - unat x)" using assms by (simp add: of_nat_diff)
qed

lemma patch_amd64:
  assumes "unat (Off r) + 4 \<le> len" "len < 2 ^ 31" "Addend r = - 4"
  shows "base + Off r + 4 + scast (patch AMD64 r len v) = base + of_nat len"
proof -
  have e: "len - unat (Off r) = 4 + (len - unat (Off r) - 4)" using assms(1) by simp
  have "patch AMD64 r len v = of_nat (len - unat (Off r)) + ucast (- 4 :: u64)"
    using distance_word(1) [of "Off r" len] assms by (simp add: patch_def)
  also have "\<dots> = of_nat (len - unat (Off r) - 4)" by (subst e) simp
  finally have "scast (patch AMD64 r len v) = (of_nat (len - unat (Off r) - 4) :: u64)"
    using assms(2) by (simp add: scast_small_32)
  moreover have "(of_nat (len - unat (Off r)) :: u64) = 4 + of_nat (len - unat (Off r) - 4)"
    by (subst e) (simp only: of_nat_add of_nat_numeral)
  ultimately show ?thesis using distance_word(2) [of "Off r" len] assms(1) by (simp add: add.assoc)
qed

lemma patch_arm64:
  assumes "unat (Off r) + 4 \<le> len" "len < 2 ^ 20" "Addend r = 0" "4 dvd unat (Off r)" "4 dvd len"
    and op: "drop_bit 24 v = 0x58"
  shows "map_option snd (ldr_literal (base + Off r) (patch ARM64 r len v)) = Some (base + of_nat len)"
proof -
  obtain m where m: "len - unat (Off r) = 4 * m" using assms(4,5) by (meson dvd_def dvd_diff_nat)
  then have lt: "m < 2 ^ 18" using assms(2) by simp
  have "patch ARM64 r len v = set_imm19 v (drop_bit 2 (of_nat (4 * m)))"
    using distance_word(1) [of "Off r" len] assms m by (simp add: patch_def)
  also have "\<dots> = set_imm19 v (of_nat m)" using lt drop_bit_2_of_nat [of m] by simp
  finally have p: "patch ARM64 r len v = set_imm19 v (of_nat m)" .
  have "scast (ucast (drop_bit 5 (set_imm19 v (of_nat m))) :: 19 word) = (of_nat m :: u64)"
    using lt by (simp only: set_imm19_field) (simp add: ucast_of_nat_19 scast_small_19)
  moreover have "Off r + 4 * of_nat m = of_nat len"
    using distance_word(2) [of "Off r" len] assms(1) m by simp
  ultimately show ?thesis
    by (simp add: p ldr_literal_def set_imm19_opcode op add.assoc)
qed

section \<open>The loaded image\<close>

lemma load_relocs_layout:
  assumes load: "load_relocs A mach LittleEndian syms rela ([], text) = Ok (off, content)"
    and rs: "rs = relocs LittleEndian syms rela"
    and wf: "wf_relocs (length text) rs" "list_all (\<lambda>(r, _). expected_reloc A text r) rs"
      "expected_text A text (length rs)" "distinct (map snd rs)"
  shows "length content = length text + length rs * varLength A \<and> length off = length rs \<and>
    (\<forall>i < length rs.
       map_of off (snd (rs ! i)) = Some (length text + i * varLength A) \<and>
       (\<forall>base. refers_to A base content (fst (rs ! i)) = Some (base + of_nat (length text + i * varLength A)))) \<and>
    (\<forall>k n. k + n \<le> length text \<longrightarrow>
       list_all (\<lambda>(r, _). k + n \<le> unat (Off r) \<or> unat (Off r) + 4 \<le> k) rs \<longrightarrow>
       take n (drop k content) = take n (drop k text))"
proof -
  have l: "link A LittleEndian rs ([], text) = Ok (off, content)"
    using load_relocs_link [OF load] rs by simp
  have off: "distinct (map fst off)" "set (map fst off) = set (map snd rs)"
      "\<forall>i < length rs. map_of off (snd (rs ! i)) = Some (length text + i * varLength A)"
    using link_offsets [OF l wf(4)] by simp_all
  then have "length off = length rs"
    using wf(4) by (metis distinct_card length_map)
  moreover have "refers_to A base content (fst (rs ! i)) = Some (base + of_nat (length text + i * varLength A))"
    if i: "i < length rs" for i base
  proof -
    let ?r = "fst (rs ! i)" and ?len = "length text + i * varLength A"
    have r: "unat (Off ?r) + 4 \<le> length text" "expected_reloc A text ?r"
      using wf(1,2) i by (auto simp: wf_relocs_def list_all_length split: prod.splits) (metis fst_conv surj_pair)+
    have f: "GetUint32 LittleEndian (field ?r content) =
        patch A ?r ?len (GetUint32 LittleEndian (field ?r text))"
      using link_fields [OF l wf(1) order_refl i] by (simp add: u32_codec.get_put)
    have le: "?len \<le> length text + length rs * varLength A" using i by simp
    show ?thesis
    proof (cases A)
      case AMD64
      then show ?thesis
        using patch_amd64 [of ?r ?len base] r le wf(3) f
        by (simp add: refers_to_def expected_reloc_def expected_text_def varLength_def)
    next
      case ARM64
      have "4 dvd ?len" using ARM64 wf(3) by (simp add: expected_text_def varLength_def)
      then show ?thesis
        using patch_arm64 [of ?r ?len _ base] r le wf(3) f ARM64
        by (simp add: refers_to_def expected_reloc_def expected_text_def varLength_def)
    qed
  qed
  ultimately show ?thesis
    using link_length [OF l] off(3) link_keeps [OF l] by blast
qed

text \<open>
  C13: the image built from a text section and a relocation section of the documented kind. Behind
  the text there is one slot for each relocation, the instruction at each relocation refers to its
  slot wherever the image is loaded, and when no symbol is relocated twice the table maps the name
  of the symbol to that slot and has no other entry. Bytes of the text outside the patched fields
  are those of the object file.
\<close>

theorem load_relocs_slots:
  assumes load: "load_relocs A mach LittleEndian syms rela ([], text) = Ok (off, content)"
    and rs: "rs = relocs LittleEndian syms rela"
    and wf: "wf_relocs (length text) rs" "list_all (\<lambda>(r, _). expected_reloc A text r) rs"
      "expected_text A text (length rs)" "distinct (map snd rs)"
  shows "length content = length text + length rs * varLength A \<and> length off = length rs \<and>
    (\<forall>i < length rs.
       map_of off (snd (rs ! i)) = Some (length text + i * varLength A) \<and>
       (\<forall>base. refers_to A base content (fst (rs ! i)) = Some (base + of_nat (length text + i * varLength A)))) \<and>
    (\<forall>k n. k + n \<le> length text \<longrightarrow>
       list_all (\<lambda>(r, _). k + n \<le> unat (Off r) \<or> unat (Off r) + 4 \<le> k) rs \<longrightarrow>
       take n (drop k content) = take n (drop k text))"
  using load_relocs_layout [OF assms] .

definition demo_syms :: "elf_symbol list" where
  "demo_syms = [\<lparr>sym_name = ''S'', sym_value = 0, sym_size = 8\<rparr>, \<lparr>sym_name = ''N'', sym_value = 8, sym_size = 8\<rparr>]"

definition demo_relocs :: "(Rela64 \<times> string) list" where
  "demo_relocs =
     [(\<lparr>Off = 2, Info = 0x100000002, Addend = - 4\<rparr>, ''S''), (\<lparr>Off = 8, Info = 0x200000002, Addend = - 4\<rparr>, ''N'')]"

definition demo_section :: "byte list" where
  "demo_section = concat (map (put_rela LittleEndian \<circ> fst) demo_relocs)"

lemma demo_relocs_read: "relocs LittleEndian demo_syms demo_section = demo_relocs"
  by (simp add: demo_section_def demo_relocs_def relocs.simps demo_syms_def read_put_rela
      read_put_rela [where bs = "[]", simplified] drop_bit_eq_div Let_def)

theorem load_relocs_slots_witness:
  "\<exists>off content. load_relocs AMD64 62 LittleEndian demo_syms demo_section ([], replicate 16 0) =
      Ok (off, content) \<and> length content = 32 \<and> map_of off ''N'' = Some 24"
proof -
  let ?l = "load_relocs AMD64 62 LittleEndian demo_syms demo_section ([], replicate 16 0)"
  have "is_ok ?l"
    by (simp add: demo_section_def demo_relocs_def load_relocs.simps demo_syms_def read_put_rela
        read_put_rela [where bs = "[]", simplified] drop_bit_eq_div Let_def EM_X86_64_def AssetLD_eq
        varLength_def)
  then obtain off content where l: "?l = Ok (off, content)" by (cases ?l) auto
  have "length content = 32 \<and> map_of off (snd (demo_relocs ! 1)) = Some 24"
    using load_relocs_slots [OF l demo_relocs_read [symmetric]]
    by (simp add: demo_relocs_def wf_relocs_def apart_def expected_reloc_def expected_text_def
        varLength_def All_less_Suc)
  with l show ?thesis by (simp add: demo_relocs_def)
qed

end
