(* ===== verification/FakeImage.thy ===== *)
theory FakeImage
  imports Asset
begin

text \<open>
  \<open>fake_image_linux.go\<close> and its two architecture files: the fake image, its injection into a
  process, the setting of its variables, and the recovery of the original function. The state of
  the methods of \<open>FakeImage\<close> is the image, the back-up of the traced program, and the world.
\<close>

section \<open>The image\<close>

record FakeImage =
  symbolName :: string
  content :: "byte list"
  offset :: "(string \<times> nat) list"
  OriginFuncCode :: "byte list option"
  OriginAddress :: u64
  fakeEntry :: "Entry option"

definition NewFakeImage :: "string \<Rightarrow> byte list \<Rightarrow> (string \<times> nat) list \<Rightarrow> FakeImage" where
  "NewFakeImage name cont off =
     \<lparr>symbolName = name, content = cont, offset = off, OriginFuncCode = None, OriginAddress = 0,
      fakeEntry = None\<rparr>"

text \<open>The result of \<open>LoadFakeImageFromEmbedFs\<close> is wrapped by \<open>NewFakeImage\<close>.\<close>

definition load_image ::
  "arch \<Rightarrow> (string \<Rightarrow> byte list res) \<Rightarrow> (byte list \<Rightarrow> elf_file res) \<Rightarrow> string \<Rightarrow> string \<Rightarrow> FakeImage res" where
  "load_image A embedded elf filename name =
     map_res (\<lambda>(off, cont). NewFakeImage name cont off) (LoadFakeImageFromEmbedFs A embedded elf filename)"

section \<open>Variables\<close>

definition SetVarUint64_amd64 ::
  "('w, 'z) kernel_scheme \<Rightarrow> FakeImage \<Rightarrow> TracedProgram \<Rightarrow> Entry \<Rightarrow> string \<Rightarrow> u64 \<Rightarrow> ('w, unit) io" where
  "SetVarUint64_amd64 K it P entry symbol v =
     (case map_of (offset it) symbol of
        Some off \<Rightarrow> WriteUint64ToAddr K P (StartAddress entry + of_nat off) v
      | None \<Rightarrow> throw (Errorf ''symbol not found'' []))"

definition SetVarUint64_arm64 ::
  "('w, 'z) kernel_scheme \<Rightarrow> FakeImage \<Rightarrow> TracedProgram \<Rightarrow> Entry \<Rightarrow> string \<Rightarrow> u64 \<Rightarrow> ('w, unit) io" where
  "SetVarUint64_arm64 K it P entry symbol v =
     (case map_of (offset it) symbol of
        Some off \<Rightarrow>
          let variableOffset = StartAddress entry + of_nat off + 8 in
          and_then (WriteUint64ToAddr K P (StartAddress entry + of_nat off) variableOffset) (\<lambda>_.
          WriteUint64ToAddr K P variableOffset v)
      | None \<Rightarrow> throw (Errorf ''symbol not found'' []))"

definition SetVarUint64 ::
  "arch \<Rightarrow> ('w, 'z) kernel_scheme \<Rightarrow> FakeImage \<Rightarrow> TracedProgram \<Rightarrow> Entry \<Rightarrow> string \<Rightarrow> u64 \<Rightarrow> ('w, unit) io" where
  "SetVarUint64 A = (case A of AMD64 \<Rightarrow> SetVarUint64_amd64 | ARM64 \<Rightarrow> SetVarUint64_arm64)"

text \<open>The loop over the variables, in the order in which the map is iterated.\<close>

fun set_vars ::
  "arch \<Rightarrow> ('w, 'z) kernel_scheme \<Rightarrow> FakeImage \<Rightarrow> TracedProgram \<Rightarrow> Entry \<Rightarrow> (string \<times> u64) list \<Rightarrow> ('w, unit) io" where
  "set_vars A K it P e [] = ret ()"
| "set_vars A K it P e ((k, v) # vs) =
     and_then (wrap_err (\<lambda>er. Errorf ''%v set %s for time skew, pid: %d'' [er]) (SetVarUint64 A K it P e k v))
       (\<lambda>_. set_vars A K it P e vs)"

section \<open>Finding\<close>

definition FindVDSOEntry :: "TracedProgram \<Rightarrow> Entry res" where
  "FindVDSOEntry P =
     (case List.find (\<lambda>e. Path e = ''[vdso]'') (rev (Entries P)) of
        Some e \<Rightarrow> Ok e
      | None \<Rightarrow> Err (Errorf ''VDSOEntry is not found'' []))"

text \<open>
  The two slice expressions panic when their bound is negative or above the length. On arm64
  \<open>varLength\<close> is 16, and the guard only bounds \<open>varNum * 8\<close>.
\<close>

definition FindInjectedImage ::
  "arch \<Rightarrow> ('w, 'z) kernel_scheme \<Rightarrow> FakeImage \<Rightarrow> TracedProgram \<Rightarrow> nat \<Rightarrow> ('w, Entry option) io" where
  "FindInjectedImage A K it P varNum =
     (case fakeEntry it of
        None \<Rightarrow> ret None
      | Some e \<Rightarrow>
          and_then (attempt (ReadSlice K P (StartAddress e) (EndAddress e - StartAddress e))) (\<lambda>x.
          case x of
            Inl err \<Rightarrow> ret None
          | Inr cont \<Rightarrow>
              if length (content it) < varNum * 8
              then throw (Errorf ''variable num bigger than content num'' [])
              else if length (content it) < varNum * varLength A \<or>
                      length cont < length (content it) - varNum * varLength A
              then go_panic
              else
                let n = length (content it) - varNum * varLength A in
                ret (if take n cont = take n (content it) then Some e else None)))"

section \<open>Injecting and rewriting\<close>

type_synonym ('w, 'a) image_io = "(FakeImage \<times> backup \<times> 'w, 'a) io"

abbreviation in_world :: "('w, 'a) io \<Rightarrow> ('w, 'a) image_io" where
  "in_world m \<equiv> on_snd (on_snd m)"

definition TryReWriteFakeImage :: "('w, 'z) kernel_scheme \<Rightarrow> TracedProgram \<Rightarrow> ('w, unit) image_io" where
  "TryReWriteFakeImage K P =
     and_then get_fst (\<lambda>it.
     case OriginFuncCode it of
       None \<Rightarrow> ret ()
     | Some code \<Rightarrow>
         and_then (in_world (PtraceWriteSlice K P (OriginAddress it) code)) (\<lambda>_.
         put_fst (it\<lparr>OriginFuncCode := None, OriginAddress := 0\<rparr>)))"

definition InjectFakeImage ::
  "arch \<Rightarrow> ('w, 'z) kernel_scheme \<Rightarrow> (byte list \<Rightarrow> elf_file res) \<Rightarrow> TracedProgram \<Rightarrow> Entry \<Rightarrow> ('w, Entry) image_io" where
  "InjectFakeImage A K elf P vdsoEntry =
     and_then get_fst (\<lambda>it.
     and_then (wrap_err (\<lambda>e. Errorf ''%v mmap fake image'' [e]) (on_snd (MmapSlice A K P (content it)))) (\<lambda>e.
     and_then (put_fst (it\<lparr>fakeEntry := Some e\<rparr>)) (\<lambda>_.
     and_then (wrap_err (\<lambda>e. Errorf ''%v find origin %s in vdso'' [e])
       (in_world (FindSymbolInEntry A K elf P (symbolName it) vdsoEntry))) (\<lambda>(originAddr, sz).
     and_then (wrap_err (\<lambda>e. Errorf ''%v ReadSlice failed'' [e])
       (in_world (ReadSlice K P originAddr sz))) (\<lambda>funcBytes.
     and_then (attempt (in_world (JumpToFakeFunc A K P originAddr (StartAddress e)))) (\<lambda>x.
     case x of
       Inl err \<Rightarrow>
         and_then (attempt (TryReWriteFakeImage K P)) (\<lambda>_.
         throw (Errorf ''%v override origin %s'' [err]))
     | Inr _ \<Rightarrow>
         and_then (put_fst (it\<lparr>fakeEntry := Some e, OriginFuncCode := Some funcBytes, OriginAddress := originAddr\<rparr>)) (\<lambda>_.
         ret e)))))))"

section \<open>AttachToProcess and Recover\<close>

text \<open>The deferred closure that undoes an injection when a later step fails.\<close>

definition rewrite_on_error ::
  "('w, 'z) kernel_scheme \<Rightarrow> TracedProgram \<Rightarrow> 'a res \<Rightarrow> FakeImage \<times> backup \<times> 'w \<Rightarrow> FakeImage \<times> backup \<times> 'w" where
  "rewrite_on_error K P r s =
     (case r of
        Err _ \<Rightarrow>
          (case TryReWriteFakeImage K P s of
             (_, (it, bw)) \<Rightarrow> (it\<lparr>OriginFuncCode := None, OriginAddress := 0\<rparr>, bw))
      | _ \<Rightarrow> s)"

definition attach_body ::
  "arch \<Rightarrow> ('w, 'z) kernel_scheme \<Rightarrow> (byte list \<Rightarrow> elf_file res) \<Rightarrow> TracedProgram \<Rightarrow> (string \<times> u64) list \<Rightarrow>
     ('w, unit) image_io" where
  "attach_body A K elf P variables =
     and_then (wrap_err (\<lambda>e. Errorf ''%v PID : %d'' [e]) (lift_res (FindVDSOEntry P))) (\<lambda>vdsoEntry.
     and_then get_fst (\<lambda>it.
     and_then (wrap_err (\<lambda>e. Errorf ''%v PID : %d'' [e])
       (in_world (FindInjectedImage A K it P (length variables)))) (\<lambda>found.
     case found of
       Some e \<Rightarrow> in_world (set_vars A K it P e variables)
     | None \<Rightarrow>
         and_then (wrap_err (\<lambda>e. Errorf ''%v injecting fake image, PID : %d'' [e])
           (InjectFakeImage A K elf P vdsoEntry)) (\<lambda>e.
         deferred (in_world (set_vars A K it P e variables)) (rewrite_on_error K P)))))"

text \<open>
  \<open>with_trace\<close> is the frame of both methods: attach, run the body, detach in any case. The error
  of the detach is logged only.
\<close>

definition with_trace ::
  "arch \<Rightarrow> ('w, 'z) kernel_scheme \<Rightarrow> int \<Rightarrow> string \<Rightarrow> (TracedProgram \<Rightarrow> ('w, unit) image_io) \<Rightarrow>
     (FakeImage \<times> 'w, unit) io" where
  "with_trace A K p msg body =
     (\<lambda>(it, w).
        case Trace K (unixInstrSize A) p w of
          (Ok (P, b), w1) \<Rightarrow>
            (case body P (it, (b, w1)) of
               (r, (it', (b', w2))) \<Rightarrow> (r, (it', snd (Detach K P w2))))
        | (Err e, w1) \<Rightarrow> (Err (Errorf msg [e]), (it, w1))
        | (Panic, w1) \<Rightarrow> (Panic, (it, w1)))"

definition AttachToProcess ::
  "arch \<Rightarrow> ('w, 'z) kernel_scheme \<Rightarrow> (byte list \<Rightarrow> elf_file res) \<Rightarrow> int \<Rightarrow> (string \<times> u64) list \<Rightarrow>
     (FakeImage \<times> 'w, unit) io" where
  "AttachToProcess A K elf p variables =
     and_then get_fst (\<lambda>it.
     if length variables \<noteq> length (offset it)
     then throw (Errorf ''fake image: extern variable number not match'' [])
     else with_trace A K p ''%v ptrace on target process, pid: %d'' (\<lambda>P. attach_body A K elf P variables))"

definition Recover ::
  "arch \<Rightarrow> ('w, 'z) kernel_scheme \<Rightarrow> int \<Rightarrow> (string \<times> u64) list \<Rightarrow> (FakeImage \<times> 'w, unit) io" where
  "Recover A K p vars =
     and_then get_fst (\<lambda>it.
     if OriginFuncCode it = None then ret ()
     else with_trace A K p ''%T ptrace on target process, pid: %d'' (\<lambda>P.
       and_then (wrap_err (\<lambda>e. Errorf ''%T FindInjectedImage , pid: %d'' [e])
         (in_world (FindInjectedImage A K it P (length vars)))) (\<lambda>found.
       case found of
         None \<Rightarrow> ret ()
       | Some e \<Rightarrow> TryReWriteFakeImage K P)))"

section \<open>Other processes\<close>

text \<open>Whatever the outcome, no step writes the memory of another process.\<close>

lemma keeps_Write64:
  "writes_ok K \<Longrightarrow> keeps (same_other K (pid P)) (WriteUint64ToAddr K P a v)"
  unfolding WriteUint64ToAddr_def by (rule keeps_WriteSlice)

lemma keeps_SetVar:
  "writes_ok K \<Longrightarrow> keeps (same_other K (pid P)) (SetVarUint64 A K it P e k v)"
  by (cases A) (auto simp: SetVarUint64_def SetVarUint64_amd64_def SetVarUint64_arm64_def Let_def
      intro!: other_frame.keeps_rules keeps_Write64)

lemma keeps_set_vars:
  "writes_ok K \<Longrightarrow> keeps (same_other K (pid P)) (set_vars A K it P e vs)"
  by (induction vs) (auto intro!: other_frame.keeps_rules keeps_SetVar)

lemma keeps_FindInjectedImage:
  "readers_ok K \<Longrightarrow> keeps (same_mem K) (FindInjectedImage A K it P n)"
  unfolding FindInjectedImage_def Let_def by (intro mem_frame.keeps_rules keeps_ReadSlice)

interpretation other_frame3: io_frame "snd_rel (snd_rel (same_other K p))" for K p
  by (rule other_frame2.snd_frame)

lemma keeps_TryReWrite:
  "writes_ok K \<Longrightarrow> keeps (snd_rel (snd_rel (same_other K (pid P)))) (TryReWriteFakeImage K P)"
  unfolding TryReWriteFakeImage_def
  by (intro other_frame3.keeps_rules other_frame2.keeps_state_rules other_frame.keeps_on_snd
      keeps_PtraceWriteSlice)

lemma keeps_Inject:
  assumes "readers_ok K" "writes_ok K" "step_ok A K"
  shows "keeps (snd_rel (snd_rel (same_other K (pid P)))) (InjectFakeImage A K elf P ve)"
  unfolding InjectFakeImage_def JumpToFakeFunc_def
  by (intro other_frame3.keeps_rules other_frame2.keeps_state_rules other_frame.keeps_on_snd
      keeps_MmapSlice keeps_other [OF keeps_FindSymbolInEntry] keeps_other [OF keeps_ReadSlice]
      keeps_PtraceWriteSlice keeps_TryReWrite assms)

lemma keeps_attach_body:
  assumes "readers_ok K" "writes_ok K" "step_ok A K"
  shows "keeps (snd_rel (snd_rel (same_other K (pid P)))) (attach_body A K elf P vs)"
proof -
  have rw: "snd_rel (snd_rel (same_other K (pid P))) s (rewrite_on_error K P r s)" for r :: "unit res" and s
  proof (cases r)
    case (Err e)
    obtain r' it bw where run: "TryReWriteFakeImage K P s = (r', (it, bw))" by (metis surj_pair)
    from keepsD [OF keeps_TryReWrite [OF assms(2)] run] show ?thesis
      by (simp add: rewrite_on_error_def Err run snd_rel_def)
  qed (simp_all add: rewrite_on_error_def other_frame3.frame_refl)
  show ?thesis
    unfolding attach_body_def
    by (intro other_frame3.keeps_rules other_frame3.keeps_deferred other_frame2.keeps_state_rules
        other_frame.keeps_on_snd keeps_other [OF keeps_FindInjectedImage] keeps_set_vars keeps_Inject rw assms)
qed

lemma Trace_Ok:
  assumes "Trace K n p w = (Ok (P, b), w')"
  shows "pid P = p" "length (backupCode b) = n"
  using assms by (auto simp: Trace_def trace_body_def io_ok split: prod.splits if_splits)

lemma keeps_with_trace:
  assumes "readers_ok K" and "\<And>P. pid P = p \<Longrightarrow> keeps (snd_rel (snd_rel (same_other K p))) (body P)"
  shows "keeps (snd_rel (same_other K p)) (with_trace A K p msg body)"
proof (rule keepsI, clarsimp)
  fix it w r it' w' assume run: "with_trace A K p msg body (it, w) = (r, it', w')"
  obtain r1 w1 where t: "Trace K (unixInstrSize A) p w = (r1, w1)" by fastforce
  have w1: "same_other K p w w1"
    by (rule same_mem_other [OF keepsD [OF keeps_Trace [OF assms(1)] t]])
  show "same_other K p w w'"
  proof (cases r1)
    case (Ok Pb)
    then obtain P b where Pb: "r1 = Ok (P, b)" by (cases Pb) auto
    then have P: "pid P = p" using Trace_Ok(1) [of K _ p w P b w1] t by blast
    obtain r2 it2 b2 w2 where bd: "body P (it, (b, w1)) = (r2, (it2, (b2, w2)))" by (metis surj_pair)
    have w2: "same_other K p w1 w2" using keepsD [OF assms(2) [OF P] bd] by simp
    have "w' = snd (Detach K P w2)" using run t Pb bd by (simp add: with_trace_def)
    moreover have "same_other K p w2 (snd (Detach K P w2))"
      using keeps_Detach [OF assms(1), of P] by (simp add: keeps_def same_mem_other)
    ultimately show ?thesis using w1 w2 other_frame.frame_trans by metis
  qed (use run t w1 in \<open>auto simp: with_trace_def\<close>)
qed

section \<open>Setting variables\<close>

text \<open>The bytes of a slot after its variable has been set.\<close>

definition var_bytes :: "arch \<Rightarrow> Entry \<Rightarrow> nat \<Rightarrow> u64 \<Rightarrow> byte list" where
  "var_bytes A e off v =
     (case A of
        AMD64 \<Rightarrow> PutUint64 LittleEndian v
      | ARM64 \<Rightarrow> PutUint64 LittleEndian (StartAddress e + of_nat off + 8) @ PutUint64 LittleEndian v)"

lemma length_var_bytes [simp]: "length (var_bytes A e off v) = varLength A"
  by (cases A) (simp_all add: var_bytes_def varLength_def)

lemma Write64_Ok:
  assumes "writes_ok K" "WriteUint64ToAddr K P a v w = (Ok u, w')"
  shows "holds_at (mem_of K w' (pid P)) a (PutUint64 LittleEndian v)"
  using WriteSlice_Ok [OF assms(1) assms(2) [unfolded WriteUint64ToAddr_def]] .

lemma Write64_same_but:
  assumes "writes_ok K" "WriteUint64ToAddr K P a v w = (r, w')"
  shows "same_but K (pid P) a 8 w w'"
  using WriteSlice_same_but [OF assms(1) assms(2) [unfolded WriteUint64ToAddr_def]] by simp

lemma SetVar_Ok:
  assumes ok: "kernel_ok A K" and run: "SetVarUint64 A K it P e k v w = (Ok u, w')"
    and st: "\<And>off i. map_of (offset it) k = Some off \<Longrightarrow> i < varLength A \<Longrightarrow>
      StartAddress e + of_nat (off + i) \<in> still K (pid P)"
  obtains off where "map_of (offset it) k = Some off"
    "holds_at (mem_of K w' (pid P)) (StartAddress e + of_nat off) (var_bytes A e off v)"
    "same_but K (pid P) (StartAddress e + of_nat off) (varLength A) w w'"
proof (cases A)
  case AMD64
  from run obtain off where o: "map_of (offset it) k = Some off"
      and wr: "WriteUint64ToAddr K P (StartAddress e + of_nat off) v w = (Ok u, w')"
    by (auto simp: AMD64 SetVarUint64_def SetVarUint64_amd64_def io_ok split: option.splits)
  show thesis
    using that [OF o] Write64_Ok [OF kernel_okD(3) [OF ok] wr] Write64_same_but [OF kernel_okD(3) [OF ok] wr]
    by (simp add: AMD64 var_bytes_def varLength_def)
next
  case ARM64
  from run obtain off w1 where o: "map_of (offset it) k = Some off"
      and w1: "WriteUint64ToAddr K P (StartAddress e + of_nat off) (StartAddress e + of_nat off + 8) w = (Ok (), w1)"
      and w2: "WriteUint64ToAddr K P (StartAddress e + of_nat off + 8) v w1 = (Ok u, w')"
    by (auto simp: ARM64 SetVarUint64_def SetVarUint64_arm64_def Let_def io_ok split: option.splits)
  let ?a = "StartAddress e + of_nat off" and ?p = "pid P"
  let ?ptr = "PutUint64 LittleEndian (?a + 8)"
  note w = kernel_okD(3) [OF ok]
  have h1: "holds_at (mem_of K w1 ?p) ?a ?ptr" by (rule Write64_Ok [OF w w1])
  have b1: "same_but K ?p ?a 8 w w1" by (rule Write64_same_but [OF w w1])
  have b2: "same_but K ?p (?a + 8) 8 w1 w'" by (rule Write64_same_but [OF w w2])
  have "holds_at (mem_of K w' ?p) ?a ?ptr"
    using in_range_offset [of _ 8 8 ?a] st [OF o] ARM64
    by (intro holds_at_same_but [OF h1 b2]) (simp add: varLength_def add.assoc)
  moreover have "holds_at (mem_of K w' ?p) (?a + 8) (PutUint64 LittleEndian v)" by (rule Write64_Ok [OF w w2])
  moreover have "same_but K ?p ?a 16 w w'"
    using same_but_mono [of K ?p ?a 0 8 w w1 16] same_but_mono [of K ?p ?a 8 8 w1 w' 16] b1 b2
    by (auto intro: same_but_trans)
  ultimately show thesis
    using that [OF o] by (simp add: ARM64 var_bytes_def varLength_def holds_at_append)
qed

text \<open>
  \<open>slots_only ks\<close>: nothing but the slots of the variables \<open>ks\<close> of the image loaded at the entry
  \<open>e\<close> has changed. It holds for every outcome.
\<close>

definition in_slot :: "arch \<Rightarrow> FakeImage \<Rightarrow> Entry \<Rightarrow> string \<Rightarrow> u64 \<Rightarrow> bool" where
  "in_slot A it e k x \<longleftrightarrow>
     (\<exists>off. map_of (offset it) k = Some off \<and> in_range (StartAddress e + of_nat off) (varLength A) x)"

definition slots_only ::
  "arch \<Rightarrow> ('w, 'z) kspec_scheme \<Rightarrow> int \<Rightarrow> FakeImage \<Rightarrow> Entry \<Rightarrow> string set \<Rightarrow> 'w \<Rightarrow> 'w \<Rightarrow> bool" where
  "slots_only A K p it e ks w w' \<longleftrightarrow>
     (\<forall>q. \<forall>x \<in> still K q. q = p \<and> (\<exists>k \<in> ks. in_slot A it e k x) \<or> mem_of K w' q x = mem_of K w q x)"

lemma slots_only_refl [simp]: "slots_only A K p it e ks w w"
  by (simp add: slots_only_def)

lemma slots_onlyD:
  "slots_only A K p it e ks w w' \<Longrightarrow> x \<in> still K q \<Longrightarrow> \<forall>k \<in> ks. \<not> in_slot A it e k x \<Longrightarrow>
     mem_of K w' q x = mem_of K w q x"
  by (auto simp: slots_only_def)

lemma slots_only_trans:
  "slots_only A K p it e ks w1 w2 \<Longrightarrow> slots_only A K p it e ks' w2 w3 \<Longrightarrow>
     slots_only A K p it e (ks \<union> ks') w1 w3"
  unfolding slots_only_def by (metis UnCI)

lemma slots_only_mono: "slots_only A K p it e ks w w' \<Longrightarrow> ks \<subseteq> ks' \<Longrightarrow> slots_only A K p it e ks' w w'"
  unfolding slots_only_def by blast

lemma same_but_slot:
  "map_of (offset it) k = Some off \<Longrightarrow> same_but K p (StartAddress e + of_nat off) (varLength A) w w' \<Longrightarrow>
     slots_only A K p it e {k} w w'"
  unfolding same_but_def slots_only_def in_slot_def by auto

lemma SetVar_frame:
  assumes w: "writes_ok K" and run: "SetVarUint64 A K it P e k v w = (r, w')"
  shows "slots_only A K (pid P) it e {k} w w'"
proof (cases "map_of (offset it) k")
  case None
  with run show ?thesis
    by (cases A) (simp_all add: SetVarUint64_def SetVarUint64_amd64_def SetVarUint64_arm64_def throw_def)
next
  case (Some off)
  let ?a = "StartAddress e + of_nat off"
  have "same_but K (pid P) ?a (varLength A) w w'"
  proof (cases A)
    case AMD64
    with run Some have "WriteUint64ToAddr K P ?a v w = (r, w')"
      by (simp add: SetVarUint64_def SetVarUint64_amd64_def)
    from Write64_same_but [OF w this] show ?thesis by (simp add: AMD64 varLength_def)
  next
    case ARM64
    obtain r1 w1 where 1: "WriteUint64ToAddr K P ?a (?a + 8) w = (r1, w1)" by fastforce
    obtain r2 w2 where 2: "WriteUint64ToAddr K P (?a + 8) v w1 = (r2, w2)" by fastforce
    have "w' = w1 \<or> w' = w2" using run Some 1 2
      by (auto simp: ARM64 SetVarUint64_def SetVarUint64_arm64_def Let_def and_then_def split: res.splits)
    moreover have "same_but K (pid P) ?a 16 w w1"
      using same_but_mono [of K "pid P" ?a 0 8 w w1 16] Write64_same_but [OF w 1] by simp
    moreover have "same_but K (pid P) ?a 16 w1 w2"
      using same_but_mono [of K "pid P" ?a 8 8 w1 w2 16] Write64_same_but [OF w 2] by simp
    ultimately show ?thesis using same_but_trans [of K "pid P" ?a 16 w w1 w2] ARM64
      by (auto simp: varLength_def)
  qed
  with Some show ?thesis by (rule same_but_slot)
qed

lemma set_vars_frame:
  "writes_ok K \<Longrightarrow> set_vars A K it P e vs w = (r, w') \<Longrightarrow>
     slots_only A K (pid P) it e (fst ` set vs) w w'"
proof (induction vs arbitrary: w)
  case (Cons kv vs)
  obtain k v where kv: "kv = (k, v)" by (cases kv)
  obtain r1 w1 where s: "SetVarUint64 A K it P e k v w = (r1, w1)" by fastforce
  have s1: "slots_only A K (pid P) it e {k} w w1" by (rule SetVar_frame [OF Cons.prems(1) s])
  show ?case
  proof (cases r1)
    case (Ok u)
    with Cons.prems(2) s kv have "set_vars A K it P e vs w1 = (r, w')"
      by (simp add: and_then_def wrap_err_def)
    from slots_only_trans [OF s1 Cons.IH [OF Cons.prems(1) this]] show ?thesis by (simp add: kv)
  qed (use Cons.prems(2) s kv s1 in \<open>auto simp: and_then_def wrap_err_def intro: slots_only_mono\<close>)
qed (simp add: ret_def)

text \<open>
  An image whose table is as the loader builds it: the slots lie behind the text, inside the
  content, and do not overlap.
\<close>

definition text_len :: "arch \<Rightarrow> FakeImage \<Rightarrow> nat" where
  "text_len A it = length (content it) - length (offset it) * varLength A"

definition wf_image :: "arch \<Rightarrow> FakeImage \<Rightarrow> bool" where
  "wf_image A it \<longleftrightarrow>
     distinct (map fst (offset it)) \<and> length (offset it) * varLength A \<le> length (content it) \<and>
     list_all (\<lambda>(k, off). text_len A it \<le> off \<and> off + varLength A \<le> length (content it)) (offset it) \<and>
     list_all (\<lambda>(k, off). list_all (\<lambda>(k', off').
       k = k' \<or> off + varLength A \<le> off' \<or> off' + varLength A \<le> off) (offset it)) (offset it)"

lemma wf_image_slot:
  assumes "wf_image A it" "map_of (offset it) k = Some off"
  shows "text_len A it \<le> off" "off + varLength A \<le> length (content it)"
  using assms map_of_SomeD [OF assms(2)] by (auto simp: wf_image_def list_all_iff)

lemma wf_image_apart:
  assumes "wf_image A it" "map_of (offset it) k = Some off" "map_of (offset it) k' = Some off'" "k \<noteq> k'"
  shows "off + varLength A \<le> off' \<or> off' + varLength A \<le> off"
  using assms map_of_SomeD [OF assms(2)] map_of_SomeD [OF assms(3)]
  by (fastforce simp: wf_image_def list_all_iff)

text \<open>Bytes of the loaded image that are in no changed slot stay.\<close>

lemma slots_only_holds:
  assumes so: "slots_only A K p it e ks w w'" and wf: "wf_image A it"
    and len: "length (content it) \<le> 2 ^ 64"
    and st: "\<forall>i < length (content it). StartAddress e + of_nat i \<in> still K p"
    and h: "holds_at (mem_of K w p) (StartAddress e + of_nat n) bs"
    and fit: "n + length bs \<le> length (content it)"
    and out: "\<And>k off. k \<in> ks \<Longrightarrow> map_of (offset it) k = Some off \<Longrightarrow>
      n + length bs \<le> off \<or> off + varLength A \<le> n"
  shows "holds_at (mem_of K w' p) (StartAddress e + of_nat n) bs"
proof (unfold holds_at_def, intro allI impI)
  fix i assume i: "i < length bs"
  have x: "StartAddress e + of_nat n + of_nat i = StartAddress e + of_nat (n + i)" by simp
  have "\<not> in_slot A it e k (StartAddress e + of_nat (n + i))" if k: "k \<in> ks" for k
  proof
    assume "in_slot A it e k (StartAddress e + of_nat (n + i))"
    then obtain off where o: "map_of (offset it) k = Some off"
        and r: "in_range (StartAddress e + of_nat off) (varLength A) (StartAddress e + of_nat (n + i))"
      by (auto simp: in_slot_def)
    then show False
      using in_range_offset [of "n + i" off "varLength A" "StartAddress e"] out [OF k o]
        wf_image_slot(2) [OF wf o] fit i len
      by simp
  qed
  moreover have "StartAddress e + of_nat (n + i) \<in> still K p" using st i fit by (simp del: of_nat_add)
  ultimately have "mem_of K w' p (StartAddress e + of_nat (n + i)) = mem_of K w p (StartAddress e + of_nat (n + i))"
    using so by (auto simp: slots_only_def)
  then show "mem_of K w' p (StartAddress e + of_nat n + of_nat i) = Some (bs ! i)"
    using h i by (simp add: holds_at_def add.assoc)
qed

definition vars_set ::
  "arch \<Rightarrow> ('w, 'z) kspec_scheme \<Rightarrow> int \<Rightarrow> FakeImage \<Rightarrow> Entry \<Rightarrow> (string \<times> u64) list \<Rightarrow> 'w \<Rightarrow> bool" where
  "vars_set A K p it e vs w \<longleftrightarrow>
     (\<forall>(k, v) \<in> set vs. \<exists>off. map_of (offset it) k = Some off \<and>
        holds_at (mem_of K w p) (StartAddress e + of_nat off) (var_bytes A e off v))"

lemma set_vars_Ok:
  assumes ok: "kernel_ok A K" and wf: "wf_image A it" and len: "length (content it) \<le> 2 ^ 64"
    and st: "\<forall>i < length (content it). StartAddress e + of_nat i \<in> still K (pid P)"
  shows "set_vars A K it P e vs w = (Ok u, w') \<Longrightarrow> distinct (map fst vs) \<Longrightarrow>
    vars_set A K (pid P) it e vs w'"
proof (induction vs arbitrary: w)
  case (Cons kv vs)
  obtain k v where kv: "kv = (k, v)" by (cases kv)
  from Cons.prems(1) kv obtain w1 where s: "SetVarUint64 A K it P e k v w = (Ok (), w1)"
      and l: "set_vars A K it P e vs w1 = (Ok u, w')"
    by (auto simp: io_ok)
  have st': "StartAddress e + of_nat (off + i) \<in> still K (pid P)"
    if "map_of (offset it) k = Some off" "i < varLength A" for off i
    using st wf_image_slot(2) [OF wf that(1)] that(2) by (simp del: of_nat_add)
  obtain off where o: "map_of (offset it) k = Some off"
      and h: "holds_at (mem_of K w1 (pid P)) (StartAddress e + of_nat off) (var_bytes A e off v)"
    by (rule SetVar_Ok [OF ok s st'])
  have "holds_at (mem_of K w' (pid P)) (StartAddress e + of_nat off) (var_bytes A e off v)"
  proof (rule slots_only_holds [OF set_vars_frame [OF kernel_okD(3) [OF ok] l] wf len st h])
    show "off + length (var_bytes A e off v) \<le> length (content it)"
      using wf_image_slot(2) [OF wf o] by simp
    show "off + length (var_bytes A e off v) \<le> off' \<or> off' + varLength A \<le> off"
      if "k' \<in> fst ` set vs" "map_of (offset it) k' = Some off'" for k' off'
      using wf_image_apart [OF wf o that(2)] Cons.prems(2) that(1) by (auto simp: kv)
  qed
  then show ?case using Cons.IH [OF l] Cons.prems(2) o by (auto simp: kv vars_set_def)
qed (simp add: vars_set_def)

end
