(* ===== verification/Injection.thy ===== *)
theory Injection
  imports FakeImage
begin

text \<open>
  What \<open>AttachToProcess\<close> and \<open>Recover\<close> of \<open>fake_image_linux.go\<close> achieve: the traced process runs
  the fake function with the variables asked for and is otherwise undisturbed, and the recovery
  puts the original function back.
\<close>

section \<open>Injection\<close>

definition mapped_still :: "('w, 'z) kspec_scheme \<Rightarrow> int \<Rightarrow> 'w \<Rightarrow> u64 \<Rightarrow> nat \<Rightarrow> bool" where
  "mapped_still K p w a n \<longleftrightarrow> (\<forall>i < n. a + of_nat i \<in> still K p \<and> mem_of K w p (a + of_nat i) \<noteq> None)"

lemma mapped_still_le: "mapped_still K p w a n \<Longrightarrow> m \<le> n \<Longrightarrow> mapped_still K p w a m"
  by (simp add: mapped_still_def)

text \<open>Bytes that were mapped have changed at most in one range.\<close>

definition kept_but :: "('w, 'z) kspec_scheme \<Rightarrow> int \<Rightarrow> u64 \<Rightarrow> nat \<Rightarrow> 'w \<Rightarrow> 'w \<Rightarrow> bool" where
  "kept_but K p a n w w' \<longleftrightarrow>
     (\<forall>x \<in> still K p. mem_of K w p x = None \<or> in_range a n x \<or> mem_of K w' p x = mem_of K w p x)"

definition fresh_image :: "('w, 'z) kspec_scheme \<Rightarrow> int \<Rightarrow> Entry \<Rightarrow> nat \<Rightarrow> 'w \<Rightarrow> bool" where
  "fresh_image K p e n w \<longleftrightarrow>
     EndAddress e - StartAddress e = of_nat n \<and> unat (StartAddress e) + n \<le> 2 ^ 64 \<and>
     (\<forall>i < n. StartAddress e + of_nat i \<in> still K p \<and> mem_of K w p (StartAddress e + of_nat i) = None)"

lemma Inject_run:
  assumes "InjectFakeImage A K elf P ve (it, (b, w)) = (Ok e, (it', (b', w')))"
  obtains origin sz code w1 w2 w3 where
    "MmapSlice A K P (content it) (b, w) = (Ok e, (b', w1))"
    "FindSymbolInEntry A K elf P (symbolName it) ve w1 = (Ok (origin, sz), w2)"
    "ReadSlice K P origin sz w2 = (Ok code, w3)"
    "JumpToFakeFunc A K P origin (StartAddress e) w3 = (Ok (), w')"
    "it' = it\<lparr>fakeEntry := Some e, OriginFuncCode := Some code, OriginAddress := origin\<rparr>"
  using assms by (auto simp: InjectFakeImage_def io_ok)

lemma mapped_still_apart:
  assumes "fresh_image K p e n w" "mapped_still K p w a m" "i < n"
  shows "\<not> in_range a m (StartAddress e + of_nat i)"
proof
  assume "in_range a m (StartAddress e + of_nat i)"
  then obtain j where "j < m" "StartAddress e + of_nat i = a + of_nat j" by (auto simp: in_range_iff)
  with assms show False unfolding fresh_image_def mapped_still_def by metis
qed

lemma Inject_Ok:
  assumes ok: "kernel_ok A K" and len: "length (backupCode b) = unixInstrSize A"
    and first: "is_ok (fst (first_mmap A K P (of_nat (length (content it))) (b, w)))"
    and page: "Getpagesize K = 2 ^ k" "k < 64" "length (content it) + 2 ^ k \<le> 2 ^ 64"
    and run: "InjectFakeImage A K elf P ve (it, (b, w)) = (Ok e, (it', (b', w')))"
    and fn: "mapped_still K (pid P) w (OriginAddress it') 16"
  shows "holds_at (mem_of K w' (pid P)) (OriginAddress it') (jump_code A (StartAddress e))"
    "holds_at (mem_of K w' (pid P)) (StartAddress e) (content it)"
    "fresh_image K (pid P) e (length (content it)) w"
    "kept_but K (pid P) (OriginAddress it') 16 w w'"
    "\<exists>code. it' = it\<lparr>fakeEntry := Some e, OriginFuncCode := Some code, OriginAddress := OriginAddress it'\<rparr> \<and>
       (mapped_still K (pid P) w (OriginAddress it') (length code) \<longrightarrow>
          holds_at (mem_of K w (pid P)) (OriginAddress it') code)"
proof -
  obtain origin sz code w1 w2 w3 where
    mm: "MmapSlice A K P (content it) (b, w) = (Ok e, (b', w1))" and
    fs: "FindSymbolInEntry A K elf P (symbolName it) ve w1 = (Ok (origin, sz), w2)" and
    rd: "ReadSlice K P origin sz w2 = (Ok code, w3)" and
    jp: "JumpToFakeFunc A K P origin (StartAddress e) w3 = (Ok (), w')" and
    it': "it' = it\<lparr>fakeEntry := Some e, OriginFuncCode := Some code, OriginAddress := origin\<rparr>"
    by (rule Inject_run [OF run])
  let ?p = "pid P"
  have o: "OriginAddress it' = origin" by (simp add: it')
  note laws = kernel_okD [OF ok]
  note M = MmapSlice_Ok [OF ok len first page mm]
  show fresh: "fresh_image K ?p e (length (content it)) w"
    using M(2,3,5) by (simp add: fresh_image_def)
  have m12: "same_mem K w1 w2" by (rule keepsD [OF keeps_FindSymbolInEntry [OF laws(1)] fs])
  have m23: "same_mem K w2 w3" by (rule keepsD [OF keeps_ReadSlice [OF laws(1)] rd])
  have m13: "same_mem K w1 w3" by (rule same_mem_trans [OF m12 m23])
  have J: "holds_at (mem_of K w' ?p) origin (jump_code A (StartAddress e)) \<and> same_but K ?p origin 16 w3 w'"
    using JumpToFakeFunc_Ok [OF ok _ jp] fn by (simp add: o mapped_still_def)
  then show "holds_at (mem_of K w' ?p) (OriginAddress it') (jump_code A (StartAddress e))" by (simp add: o)
  have h3: "holds_at (mem_of K w3 ?p) (StartAddress e) (content it)"
    using holds_at_same_mem [OF m13 M(1)] M(3) by simp
  show "holds_at (mem_of K w' ?p) (StartAddress e) (content it)"
    using holds_at_same_but [OF h3 conjunct2 [OF J]] M(3) mapped_still_apart [OF fresh fn] o by simp
  have kept: "mapped_kept K ?p w w1" using M(4) by (simp add: undisturbed_def)
  show "kept_but K ?p (OriginAddress it') 16 w w'"
    unfolding kept_but_def o
  proof
    fix x assume x: "x \<in> still K ?p"
    have "mem_of K w3 ?p x = mem_of K w1 ?p x" using m13 x by (simp add: same_mem_def)
    moreover have "mem_of K w ?p x = None \<or> mem_of K w1 ?p x = mem_of K w ?p x"
      using kept x by (simp add: mapped_kept_def)
    moreover have "in_range origin 16 x \<or> mem_of K w' ?p x = mem_of K w3 ?p x"
      using same_butD [OF conjunct2 [OF J] x] by blast
    ultimately show "mem_of K w ?p x = None \<or> in_range origin 16 x \<or> mem_of K w' ?p x = mem_of K w ?p x"
      by auto
  qed
  have "holds_at (mem_of K w ?p) origin code" if mp: "mapped_still K ?p w origin (length code)"
  proof (unfold holds_at_def, intro allI impI)
    fix i assume i: "i < length code"
    let ?x = "origin + of_nat i"
    have x: "?x \<in> still K ?p" "mem_of K w ?p ?x \<noteq> None" using mp i by (auto simp: mapped_still_def)
    have "mem_of K w2 ?p ?x = Some (code ! i)"
      using ReadSlice_Ok [OF laws(2) rd] i by (simp add: holds_at_def)
    then show "mem_of K w ?p ?x = Some (code ! i)"
      using m12 kept x by (auto simp: same_mem_def mapped_kept_def)
  qed
  then show "\<exists>code. it' = it\<lparr>fakeEntry := Some e, OriginFuncCode := Some code, OriginAddress := OriginAddress it'\<rparr> \<and>
       (mapped_still K ?p w (OriginAddress it') (length code) \<longrightarrow>
          holds_at (mem_of K w ?p) (OriginAddress it') code)"
    using it' o by auto
qed

text \<open>The function that is redirected is the symbol that was looked for.\<close>

lemma Inject_symbol:
  assumes ok: "kernel_ok A K" and len: "length (backupCode b) = unixInstrSize A"
    and first: "is_ok (fst (first_mmap A K P (of_nat (length (content it))) (b, w)))"
    and page: "Getpagesize K = 2 ^ k" "k < 64" "length (content it) + 2 ^ k \<le> 2 ^ 64"
    and run: "InjectFakeImage A K elf P ve (it, (b, w)) = (Ok e, (it', (b', w')))"
  shows "symbol_in A K elf (pid P) w ve (symbolName it) (OriginAddress it')"
proof -
  obtain origin sz code w1 w2 where
    mm: "MmapSlice A K P (content it) (b, w) = (Ok e, (b', w1))" and
    fs: "FindSymbolInEntry A K elf P (symbolName it) ve w1 = (Ok (origin, sz), w2)" and
    it': "it' = it\<lparr>fakeEntry := Some e, OriginFuncCode := Some code, OriginAddress := origin\<rparr>"
    by (rule Inject_run [OF run])
  have "mapped_kept K (pid P) w w1"
    using MmapSlice_Ok(4) [OF ok len first page mm] by (simp add: undisturbed_def)
  then have "symbol_in A K elf (pid P) w ve (symbolName it) origin"
    by (intro symbol_in_before [OF FindSymbolInEntry_Ok [OF kernel_okD(2) [OF ok] fs]]) (simp add: mapped_kept_def)
  then show ?thesis by (simp add: it')
qed

text \<open>The body of \<open>AttachToProcess\<close> on an image that has not been injected before.\<close>

lemma attach_body_run:
  assumes "attach_body A K elf P vs (it, (b, w)) = (Ok u, (it', (b', w')))" "fakeEntry it = None"
  obtains ve e w1 where "InjectFakeImage A K elf P ve (it, (b, w)) = (Ok e, (it', (b', w1)))"
    "set_vars A K it P e vs w1 = (Ok u, w')" "FindVDSOEntry P = Ok ve"
  using assms by (auto simp: attach_body_def FindInjectedImage_def io_ok rewrite_on_error_def)

lemma with_trace_Ok:
  assumes "with_trace A K p msg body (it, w) = (Ok u, (it', w'))"
  obtains P b w1 b' w2 where "Trace K (unixInstrSize A) p w = (Ok (P, b), w1)"
    "body P (it, (b, w1)) = (Ok u, (it', (b', w2)))" "w' = snd (Detach K P w2)"
    "pid P = p" "length (backupCode b) = unixInstrSize A"
proof -
  obtain P b w1 where t: "Trace K (unixInstrSize A) p w = (Ok (P, b), w1)"
    using assms by (auto simp: with_trace_def split: prod.splits res.splits)
  with assms obtain b' w2 where "body P (it, (b, w1)) = (Ok u, (it', (b', w2)))" "w' = snd (Detach K P w2)"
    by (auto simp: with_trace_def split: prod.splits)
  with t Trace_Ok [OF t] that show thesis by blast
qed

lemma Detach_same_mem: "readers_ok K \<Longrightarrow> same_mem K w (snd (Detach K P w))"
  using keeps_Detach [of K P] by (simp add: keeps_def)

lemma same_mem_holds_eq:
  "same_mem K w w' \<Longrightarrow> \<forall>i < length bs. a + of_nat i \<in> still K p \<Longrightarrow>
     holds_at (mem_of K w' p) a bs \<longleftrightarrow> holds_at (mem_of K w p) a bs"
  by (simp add: same_mem_def holds_at_def)

section \<open>The fake function is live\<close>

text \<open>
  \<open>fake_live\<close>: the function starts with a jump to the image at the entry \<open>e\<close>, the whole image is
  mapped there and starts with its text, and each slot holds what its variable was set to.
\<close>

definition image_at :: "arch \<Rightarrow> ('w, 'z) kspec_scheme \<Rightarrow> int \<Rightarrow> FakeImage \<Rightarrow> Entry \<Rightarrow> 'w \<Rightarrow> bool" where
  "image_at A K p it e w \<longleftrightarrow>
     (\<forall>i < length (content it). mem_of K w p (StartAddress e + of_nat i) \<noteq> None) \<and>
     holds_at (mem_of K w p) (StartAddress e) (take (text_len A it) (content it))"

definition fake_live ::
  "arch \<Rightarrow> ('w, 'z) kspec_scheme \<Rightarrow> int \<Rightarrow> FakeImage \<Rightarrow> Entry \<Rightarrow> (string \<times> u64) list \<Rightarrow> 'w \<Rightarrow> bool" where
  "fake_live A K p it e vs w \<longleftrightarrow>
     holds_at (mem_of K w p) (OriginAddress it) (jump_code A (StartAddress e)) \<and>
     image_at A K p it e w \<and> vars_set A K p it e vs w"

lemma slot_fresh:
  assumes "fresh_image K p e (length (content it)) w" "wf_image A it" "in_slot A it e k x"
  shows "mem_of K w p x = None"
proof -
  obtain off i where o: "map_of (offset it) k = Some off" and i: "i < varLength A"
      and x: "x = StartAddress e + of_nat off + of_nat i"
    using assms(3) by (auto simp: in_slot_def in_range_iff)
  have "off + i < length (content it)" using wf_image_slot(2) [OF assms(2) o] i by simp
  moreover have "x = StartAddress e + of_nat (off + i)" using x by (simp add: add.assoc)
  ultimately show ?thesis using assms(1) by (simp only: fresh_image_def)
qed

lemma attach_body_fresh:
  assumes ok: "kernel_ok A K" and len: "length (backupCode b) = unixInstrSize A"
    and first: "is_ok (fst (first_mmap A K P (of_nat (length (content it))) (b, w)))"
    and page: "Getpagesize K = 2 ^ k" "k < 64" "length (content it) + 2 ^ k \<le> 2 ^ 64"
    and im: "fakeEntry it = None" "wf_image A it" "distinct (map fst vs)"
    and run: "attach_body A K elf P vs (it, (b, w)) = (Ok u, (it', (b', w')))"
    and fn: "mapped_still K (pid P) w (OriginAddress it') 16"
  shows "\<exists>e code. it' = it\<lparr>fakeEntry := Some e, OriginFuncCode := Some code, OriginAddress := OriginAddress it'\<rparr> \<and>
    holds_at (mem_of K w' (pid P)) (OriginAddress it') (jump_code A (StartAddress e)) \<and>
    fake_live A K (pid P) it' e vs w' \<and> fresh_image K (pid P) e (length (content it)) w \<and>
    kept_but K (pid P) (OriginAddress it') 16 w w' \<and>
    (mapped_still K (pid P) w (OriginAddress it') (length code) \<longrightarrow>
       holds_at (mem_of K w (pid P)) (OriginAddress it') code)"
proof -
  obtain ve e w1 where inj: "InjectFakeImage A K elf P ve (it, (b, w)) = (Ok e, (it', (b', w1)))"
      and sv: "set_vars A K it P e vs w1 = (Ok u, w')"
    by (rule attach_body_run [OF run im(1)])
  let ?p = "pid P" and ?o = "OriginAddress it'"
  note I = Inject_Ok [OF ok len first page inj fn]
  obtain code where it': "it' = it\<lparr>fakeEntry := Some e, OriginFuncCode := Some code, OriginAddress := ?o\<rparr>"
      and code: "mapped_still K ?p w ?o (length code) \<longrightarrow> holds_at (mem_of K w ?p) ?o code"
    using I(5) by blast
  have same: "content it' = content it" "offset it' = offset it" by (subst it', simp)+
  have so: "slots_only A K ?p it e (fst ` set vs) w1 w'"
    by (rule set_vars_frame [OF kernel_okD(3) [OF ok] sv])
  have st: "\<forall>i < length (content it). StartAddress e + of_nat i \<in> still K ?p"
    and len: "length (content it) \<le> 2 ^ 64"
    using I(3) by (auto simp: fresh_image_def)
  have mapped: "mem_of K w' ?p x = mem_of K w1 ?p x" if "x \<in> still K ?p" "mem_of K w ?p x \<noteq> None" for x
  proof -
    have "(\<exists>k \<in> fst ` set vs. in_slot A it e k x) \<or> mem_of K w' ?p x = mem_of K w1 ?p x"
      using so that(1) by (auto simp: slots_only_def)
    then show ?thesis using slot_fresh [OF I(3) im(2), of _ x] that(2) by auto
  qed
  have jump: "holds_at (mem_of K w' ?p) ?o (jump_code A (StartAddress e))"
    using I(1) mapped fn by (simp add: holds_at_def mapped_still_def)
  have "holds_at (mem_of K w1 ?p) (StartAddress e) (take (text_len A it) (content it))"
    using I(2) holds_at_append [of "mem_of K w1 ?p" "StartAddress e" "take (text_len A it) (content it)"
      "drop (text_len A it) (content it)"]
    by simp
  then have "holds_at (mem_of K w' ?p) (StartAddress e) (take (text_len A it) (content it))"
    using slots_only_holds [OF so im(2) len st, of 0 "take (text_len A it) (content it)"]
      wf_image_slot(1) [OF im(2)]
    by (auto simp: text_len_def)
  moreover have vars: "vars_set A K ?p it e vs w'" by (rule set_vars_Ok [OF ok im(2) len st sv im(3)])
  moreover have "mem_of K w' ?p x \<noteq> None" if i: "i < length (content it)" and x: "x = StartAddress e + of_nat i" for i x
  proof (cases "\<exists>k \<in> fst ` set vs. in_slot A it e k x")
    case True
    with vars show ?thesis
      using holds_at_in_range by (fastforce simp: vars_set_def in_slot_def)
  next
    case False
    then have "mem_of K w' ?p x = mem_of K w1 ?p x"
      using slots_onlyD [OF so, of x ?p] st i x by blast
    then show ?thesis using I(2) i x by (simp add: holds_at_def)
  qed
  ultimately have "fake_live A K ?p it' e vs w'"
    using jump by (simp add: fake_live_def image_at_def vars_set_def text_len_def same)
  moreover have "kept_but K ?p ?o 16 w w'"
    using I(4) mapped unfolding kept_but_def by metis
  ultimately show ?thesis using it' code jump I(3) by blast
qed

section \<open>AttachToProcess\<close>

text \<open>The system call of the first strategy of \<open>Mmap\<close> does not fail half way.\<close>

definition clean_mmap :: "arch \<Rightarrow> ('w, 'z) kernel_scheme \<Rightarrow> int \<Rightarrow> nat \<Rightarrow> 'w \<Rightarrow> bool" where
  "clean_mmap A K p n w \<longleftrightarrow>
     (case Trace K (unixInstrSize A) p w of
        (Ok (P, b), w1) \<Rightarrow> is_ok (fst (first_mmap A K P (of_nat n) (b, w1)))
      | _ \<Rightarrow> True)"

lemma vars_set_same_mem:
  assumes "vars_set A K p it e vs w" "same_mem K w w'" "wf_image A it"
    and "\<forall>i < length (content it). StartAddress e + of_nat i \<in> still K p"
  shows "vars_set A K p it e vs w'"
proof -
  have "holds_at (mem_of K w' p) (StartAddress e + of_nat off) (var_bytes A e off v)"
    if "map_of (offset it) k = Some off"
      "holds_at (mem_of K w p) (StartAddress e + of_nat off) (var_bytes A e off v)" for k off v
  proof (rule holds_at_same_mem [OF assms(2) that(2)], intro allI impI)
    fix i assume "i < length (var_bytes A e off v)"
    then have "off + i < length (content it)" using wf_image_slot(2) [OF assms(3) that(1)] by simp
    then show "StartAddress e + of_nat off + of_nat i \<in> still K p"
      using assms(4) by (simp only: add.assoc of_nat_add [symmetric])
  qed
  then show ?thesis using assms(1) unfolding vars_set_def by fast
qed

lemma Attach_Ok:
  assumes ok: "kernel_ok A K" and clean: "clean_mmap A K p (length (content it)) w"
    and page: "Getpagesize K = 2 ^ k" "k < 64" "length (content it) + 2 ^ k \<le> 2 ^ 64"
    and im: "fakeEntry it = None" "wf_image A it" "distinct (map fst vs)"
    and run: "AttachToProcess A K elf p vs (it, w) = (Ok u, (it', w'))"
    and fn: "mapped_still K p w (OriginAddress it') 16"
  shows "\<exists>e code. it' = it\<lparr>fakeEntry := Some e, OriginFuncCode := Some code, OriginAddress := OriginAddress it'\<rparr> \<and>
    length vs = length (offset it) \<and> fake_live A K p it' e vs w' \<and>
    fresh_image K p e (length (content it)) w \<and> kept_but K p (OriginAddress it') 16 w w' \<and>
    (mapped_still K p w (OriginAddress it') (length code) \<longrightarrow> holds_at (mem_of K w p) (OriginAddress it') code)"
proof -
  have n: "length vs = length (offset it)"
    and wt: "with_trace A K p ''%v ptrace on target process, pid: %d'' (\<lambda>P. attach_body A K elf P vs) (it, w) =
        (Ok u, (it', w'))"
    using run by (auto simp: AttachToProcess_def io_ok split: if_splits)
  obtain P b w1 b' w2 where t: "Trace K (unixInstrSize A) p w = (Ok (P, b), w1)"
      and body: "attach_body A K elf P vs (it, (b, w1)) = (Ok u, (it', (b', w2)))"
      and w': "w' = snd (Detach K P w2)" and P: "pid P = p" and len: "length (backupCode b) = unixInstrSize A"
    by (rule with_trace_Ok [OF wt])
  have m1: "same_mem K w w1" by (rule keepsD [OF keeps_Trace [OF kernel_okD(1) [OF ok]] t])
  have m2: "same_mem K w2 w'" unfolding w' by (rule Detach_same_mem [OF kernel_okD(1) [OF ok]])
  have e1: "mem_of K w1 p x = mem_of K w p x" "mem_of K w' p x = mem_of K w2 p x" if "x \<in> still K p" for x
    using m1 m2 that by (simp_all add: same_mem_def)
  have first: "is_ok (fst (first_mmap A K P (of_nat (length (content it))) (b, w1)))"
    using clean t by (simp add: clean_mmap_def)
  have ms: "mapped_still K p w1 a n = mapped_still K p w a n" for a n
    using e1(1) by (auto simp: mapped_still_def)
  obtain e code where it': "it' = it\<lparr>fakeEntry := Some e, OriginFuncCode := Some code, OriginAddress := OriginAddress it'\<rparr>"
      and jump: "holds_at (mem_of K w2 p) (OriginAddress it') (jump_code A (StartAddress e))"
      and live: "fake_live A K p it' e vs w2" and fresh: "fresh_image K p e (length (content it)) w1"
      and kept: "kept_but K p (OriginAddress it') 16 w1 w2"
      and code: "mapped_still K p w1 (OriginAddress it') (length code) \<longrightarrow>
        holds_at (mem_of K w1 p) (OriginAddress it') code"
    using attach_body_fresh [OF ok len first page im body] fn by (auto simp: P ms)
  have same: "content it' = content it" "offset it' = offset it" by (subst it', simp)+
  then have im': "wf_image A it'" "text_len A it' = text_len A it"
    using im(2) by (simp_all add: wf_image_def text_len_def)
  have fr: "fresh_image K p e (length (content it)) w"
    using fresh by (simp add: fresh_image_def e1(1) [symmetric])
  then have st: "\<forall>i < length (content it'). StartAddress e + of_nat i \<in> still K p"
    by (simp add: fresh_image_def same)
  have "holds_at (mem_of K w' p) (OriginAddress it') (jump_code A (StartAddress e))"
    using holds_at_same_mem [OF m2 jump] fn by (simp add: mapped_still_def)
  moreover have "\<forall>i < length (content it'). mem_of K w' p (StartAddress e + of_nat i) \<noteq> None"
    using live st e1(2) by (simp add: fake_live_def image_at_def)
  moreover have "holds_at (mem_of K w' p) (StartAddress e) (take (text_len A it') (content it'))"
    using live st by (intro holds_at_same_mem [OF m2]) (auto simp: fake_live_def image_at_def)
  moreover have "vars_set A K p it' e vs w'"
    using live vars_set_same_mem [OF _ m2 im'(1) st] by (simp add: fake_live_def)
  ultimately have "fake_live A K p it' e vs w'" by (simp add: fake_live_def image_at_def)
  moreover have "kept_but K p (OriginAddress it') 16 w w'"
    using kept e1 by (auto simp: kept_but_def)
  moreover have "mapped_still K p w (OriginAddress it') (length code) \<longrightarrow>
      holds_at (mem_of K w p) (OriginAddress it') code"
    using code e1(1) by (simp add: ms) (simp add: mapped_still_def holds_at_def)
  ultimately show ?thesis using it' n fr by blast
qed

text \<open>
  \<open>vdso_symbol\<close>: \<open>loc\<close> is the address of the dynamic symbol \<open>name\<close> in the vDSO that the maps of the
  process show when it is traced in the state \<open>w\<close>.
\<close>

definition vdso_symbol ::
  "arch \<Rightarrow> ('w, 'z) kspec_scheme \<Rightarrow> (byte list \<Rightarrow> elf_file res) \<Rightarrow> int \<Rightarrow> 'w \<Rightarrow> string \<Rightarrow> u64 \<Rightarrow> bool" where
  "vdso_symbol A K elf p w name loc \<longleftrightarrow>
     (\<exists>P b w1 ve. Trace K (unixInstrSize A) p w = (Ok (P, b), w1) \<and> ve \<in> set (Entries P) \<and>
        Path ve = ''[vdso]'' \<and> symbol_in A K elf p w ve name loc)"

lemma Attach_symbol:
  assumes ok: "kernel_ok A K" and clean: "clean_mmap A K p (length (content it)) w"
    and page: "Getpagesize K = 2 ^ k" "k < 64" "length (content it) + 2 ^ k \<le> 2 ^ 64"
    and im: "fakeEntry it = None"
    and run: "AttachToProcess A K elf p vs (it, w) = (Ok u, (it', w'))"
  shows "vdso_symbol A K elf p w (symbolName it) (OriginAddress it')"
proof -
  have wt: "with_trace A K p ''%v ptrace on target process, pid: %d'' (\<lambda>P. attach_body A K elf P vs) (it, w) =
      (Ok u, (it', w'))"
    using run by (auto simp: AttachToProcess_def io_ok split: if_splits)
  obtain P b w1 b' w2 where t: "Trace K (unixInstrSize A) p w = (Ok (P, b), w1)"
      and body: "attach_body A K elf P vs (it, (b, w1)) = (Ok u, (it', (b', w2)))"
      and P: "pid P = p" and len: "length (backupCode b) = unixInstrSize A"
    by (rule with_trace_Ok [OF wt])
  obtain ve e w3 where inj: "InjectFakeImage A K elf P ve (it, (b, w1)) = (Ok e, (it', (b', w3)))"
      and ve: "FindVDSOEntry P = Ok ve"
    by (rule attach_body_run [OF body im])
  have first: "is_ok (fst (first_mmap A K P (of_nat (length (content it))) (b, w1)))"
    using clean t by (simp add: clean_mmap_def)
  have "same_mem K w w1" by (rule keepsD [OF keeps_Trace [OF kernel_okD(1) [OF ok]] t])
  then have "symbol_in A K elf p w ve (symbolName it) (OriginAddress it')"
    using symbol_in_before [OF Inject_symbol [OF ok len first page inj, unfolded P]] by (simp add: same_mem_def)
  moreover have "ve \<in> set (Entries P)" "Path ve = ''[vdso]''"
    using ve by (auto simp: FindVDSOEntry_def find_Some_iff split: option.splits) (metis length_rev nth_mem set_rev)
  ultimately show ?thesis using t unfolding vdso_symbol_def by blast
qed

section \<open>Recover\<close>

text \<open>
  Reading mapped memory succeeds: what \<open>Recover\<close> needs of the kernel to find the image again,
  since it takes a failed read for an image that is gone.
\<close>

definition reads_total :: "('w, 'z) kspec_scheme \<Rightarrow> bool" where
  "reads_total K \<longleftrightarrow>
     (\<forall>p a n w. (\<forall>i < n. mem_of K w p (a + of_nat i) \<noteq> None) \<longrightarrow> (\<exists>bs w'. ProcessVMReadv K p a n w = (Inr bs, w')))"

lemma FindInjectedImage_live:
  assumes ok: "kernel_ok A K" "reads_total K" and im: "wf_image A it" "fakeEntry it = Some e"
    and e: "EndAddress e - StartAddress e = of_nat (length (content it))"
    and len: "content it \<noteq> []" "length (content it) \<le> 2 ^ 48"
    and live: "image_at A K (pid P) it e w"
  shows "\<exists>w1. FindInjectedImage A K it P (length (offset it)) w = (Ok (Some e), w1)"
proof -
  let ?n = "length (content it)" and ?p = "pid P"
  have un: "unat (of_nat ?n :: u64) = ?n" using len(2) by (simp add: unat_of_nat)
  then have nz: "(of_nat ?n :: u64) \<noteq> 0" using len(1) by (metis length_0_conv unat_0)
  obtain bs w1 where rd: "ProcessVMReadv K ?p (StartAddress e) ?n w = (Inr bs, w1)"
    using ok(2) live unfolding reads_total_def image_at_def by blast
  have bs: "length bs = ?n" "holds_at (mem_of K w ?p) (StartAddress e) bs"
    using kernel_okD(2) [OF ok(1)] rd unfolding reads_ok_def by blast+
  have run: "ReadSlice K P (StartAddress e) (EndAddress e - StartAddress e) w = (Ok bs, w1)"
    using rd nz len(2) bs(1) by (simp add: ReadSlice_def e un and_then_def sys_def ret_def)
  let ?t = "text_len A it"
  have t: "?t = ?n - length (offset it) * varLength A" "length (offset it) * varLength A \<le> ?n"
    using im(1) by (simp_all add: text_len_def wf_image_def)
  have "holds_at (mem_of K w ?p) (StartAddress e) (take ?t bs)"
    using bs(2) holds_at_append [of "mem_of K w ?p" "StartAddress e" "take ?t bs" "drop ?t bs"] by simp
  moreover have "holds_at (mem_of K w ?p) (StartAddress e) (take ?t (content it))"
    using live by (simp add: image_at_def)
  ultimately have "take ?t bs = take ?t (content it)"
    by (rule holds_at_iff_read) (simp add: bs(1))
  moreover have "length (offset it) * 8 \<le> ?n"
    using t(2) by (cases A) (auto simp: varLength_def)
  moreover have "\<not> ?n < ?t" by (simp add: text_len_def)
  ultimately show ?thesis
    using im(2) run t bs(1) by (simp add: FindInjectedImage_def and_then_def attempt_def ret_def)
qed

text \<open>
  A successful \<open>Recover\<close> has either done nothing, because it did not find the image, or written the
  saved code back, padded with zeros to a multiple of eight, and touched nothing else.
\<close>

lemma Recover_Ok:
  assumes ok: "kernel_ok A K" and code: "OriginFuncCode it = Some code" "length code \<le> 2 ^ 48"
    and st: "\<forall>i < align8 (length code). OriginAddress it + of_nat i \<in> still K p"
    and run: "Recover A K p vs (it, w) = (Ok u, (it', w'))"
  obtains (skipped) "it' = it" "same_mem K w w'"
      "\<exists>P w1 w2. pid P = p \<and> same_mem K w w1 \<and> FindInjectedImage A K it P (length vs) w1 = (Ok None, w2)"
  | (restored) "it' = it\<lparr>OriginFuncCode := None, OriginAddress := 0\<rparr>"
      "holds_at (mem_of K w' p) (OriginAddress it) (alignBuffer code)"
      "same_but K p (OriginAddress it) (align8 (length code)) w w'"
proof -
  note laws = kernel_okD [OF ok]
  let ?body = "\<lambda>P. and_then (wrap_err (\<lambda>e. Errorf ''%T FindInjectedImage , pid: %d'' [e])
      (in_world (FindInjectedImage A K it P (length vs)))) (\<lambda>found.
       case found of None \<Rightarrow> ret () | Some e \<Rightarrow> TryReWriteFakeImage K P)"
  have wt: "with_trace A K p ''%T ptrace on target process, pid: %d'' ?body (it, w) = (Ok u, (it', w'))"
    using run code(1) by (simp add: Recover_def io_ok)
  obtain P b w1 b' w2 where t: "Trace K (unixInstrSize A) p w = (Ok (P, b), w1)"
      and body: "?body P (it, (b, w1)) = (Ok u, (it', (b', w2)))"
      and w': "w' = snd (Detach K P w2)" and P: "pid P = p"
    by (rule with_trace_Ok [OF wt])
  have m1: "same_mem K w w1" by (rule keepsD [OF keeps_Trace [OF laws(1)] t])
  have m2: "same_mem K w2 w'" unfolding w' by (rule Detach_same_mem [OF laws(1)])
  obtain found w3 where f: "FindInjectedImage A K it P (length vs) w1 = (Ok found, w3)"
      and rest: "(case found of None \<Rightarrow> ret () | Some e \<Rightarrow> TryReWriteFakeImage K P) (it, (b, w3)) =
        (Ok u, (it', (b', w2)))"
    using body by (auto simp: io_ok)
  have m3: "same_mem K w1 w3" by (rule keepsD [OF keeps_FindInjectedImage [OF laws(1)] f])
  show thesis
  proof (cases found)
    case None
    with rest have "it' = it" "w2 = w3" by (simp_all add: io_ok)
    then show thesis using skipped m1 m2 m3 f None P same_mem_trans by metis
  next
    case (Some e)
    with rest code(1) have it': "it' = it\<lparr>OriginFuncCode := None, OriginAddress := 0\<rparr>"
        and wr: "PtraceWriteSlice K P (OriginAddress it) code w3 = (Ok (), w2)"
      by (auto simp: TryReWriteFakeImage_def io_ok)
    have fits: "align8 (length code) \<le> 2 ^ 64" using code(2) align8_bounds [of "length code"] by simp
    have "holds_at (mem_of K w2 p) (OriginAddress it) (alignBuffer code)"
      using PtraceWriteSlice_Ok [OF laws(3) wr] fits st by (simp add: P)
    then have "holds_at (mem_of K w' p) (OriginAddress it) (alignBuffer code)"
      using holds_at_same_mem [OF m2] st by simp
    moreover have "same_but K p (OriginAddress it) (align8 (length code)) w w'"
    proof -
      have "same_but K p (OriginAddress it) (align8 (length code)) w3 w2"
        using PtraceWriteSlice_same_but [OF laws(3) wr fits] by (simp add: P)
      then show ?thesis
        by (rule same_but_trans [OF same_mem_but [OF same_mem_trans [OF m1 m3]]
              same_but_trans [OF _ same_mem_but [OF m2]]])
    qed
    ultimately show thesis using restored it' by blast
  qed
qed

lemma image_at_same_mem:
  assumes "image_at A K p it e w" "same_mem K w w'"
    and st: "\<forall>i < length (content it). StartAddress e + of_nat i \<in> still K p"
  shows "image_at A K p it e w'"
  using assms holds_at_same_mem [OF assms(2)] by (simp add: image_at_def same_mem_def)

text \<open>On an image that is there, a successful \<open>Recover\<close> has written the code back.\<close>

lemma Recover_live:
  assumes ok: "kernel_ok A K" "reads_total K" and im: "wf_image A it" "fakeEntry it = Some e"
    and e: "EndAddress e - StartAddress e = of_nat (length (content it))"
    and len: "content it \<noteq> []" "length (content it) \<le> 2 ^ 48"
    and st: "\<forall>i < length (content it). StartAddress e + of_nat i \<in> still K p"
    and live: "image_at A K p it e w" and n: "length vs = length (offset it)"
    and code: "OriginFuncCode it = Some code" "length code \<le> 2 ^ 48"
      "\<forall>i < align8 (length code). OriginAddress it + of_nat i \<in> still K p"
    and run: "Recover A K p vs (it, w) = (Ok u, (it', w'))"
  shows "it' = it\<lparr>OriginFuncCode := None, OriginAddress := 0\<rparr>"
    "holds_at (mem_of K w' p) (OriginAddress it) (alignBuffer code)"
    "same_but K p (OriginAddress it) (align8 (length code)) w w'"
proof (atomize (full), rule Recover_Ok [OF ok(1) code run])
  assume "\<exists>P u1 u2. pid P = p \<and> same_mem K w u1 \<and> FindInjectedImage A K it P (length vs) u1 = (Ok None, u2)"
  then obtain P u1 u2 where P: "pid P = p" "same_mem K w u1"
      and none: "FindInjectedImage A K it P (length vs) u1 = (Ok None, u2)"
    by blast
  have "image_at A K (pid P) it e u1" using image_at_same_mem [OF live P(2) st] P(1) by simp
  then have "\<exists>u2. FindInjectedImage A K it P (length (offset it)) u1 = (Ok (Some e), u2)"
    by (rule FindInjectedImage_live [OF ok im e len])
  with none n show "it' = it\<lparr>OriginFuncCode := None, OriginAddress := 0\<rparr> \<and>
      holds_at (mem_of K w' p) (OriginAddress it) (alignBuffer code) \<and>
      same_but K p (OriginAddress it) (align8 (length code)) w w'" by simp
qed simp

text \<open>What became of one byte, after the jump was written and the saved code written back over it.\<close>

lemma recovered_byte:
  assumes saved: "holds_at (mem_of K w p) a code"
    and restored: "holds_at (mem_of K w2 p) a (alignBuffer code)" "same_but K p a (align8 (length code)) w1 w2"
    and jump: "holds_at (mem_of K w1 p) a (jump_code A t)" and kept: "kept_but K p a 16 w w1" and x: "x \<in> still K p"
  shows "mem_of K w p x = None \<or> mem_of K w2 p x =
    (if length code \<le> unat (x - a) \<and> unat (x - a) < align8 (length code) then Some 0
     else if align8 (length code) \<le> unat (x - a) \<and> unat (x - a) < 16 then Some (jump_code A t ! unat (x - a))
     else mem_of K w p x)"
proof -
  let ?i = "unat (x - a)" and ?n = "length code"
  have byte: "m x = Some (bs ! ?i)" if "holds_at m a bs" "?i < length bs" for m bs
    using holds_at_in_range [OF that(1), of x] that(2) by (simp add: in_range_def)
  show ?thesis
  proof (cases "?i < align8 ?n")
    case True
    have "mem_of K w2 p x = Some (alignBuffer code ! ?i)" using byte [OF restored(1)] True by simp
    then show ?thesis using byte [OF saved] True by (auto simp: alignBuffer_eq nth_append)
  next
    case False
    then have w2: "mem_of K w2 p x = mem_of K w1 p x"
      using same_butD [OF restored(2) x] by (simp add: in_range_def)
    show ?thesis
    proof (cases "?i < 16")
      case True
      with byte [OF jump] False w2 show ?thesis by simp
    next
      case above: False
      with kept x w2 \<open>\<not> ?i < align8 ?n\<close> show ?thesis by (auto simp: kept_but_def in_range_def)
    qed
  qed
qed

section \<open>Properties\<close>

text \<open>
  Whatever its outcome, \<open>AttachToProcess\<close> writes no memory of any other process.
\<close>

theorem Attach_other_processes:
  assumes "kernel_ok A K" and "AttachToProcess A K elf p vs (it, w) = (r, (it', w'))"
  shows "\<forall>q. \<forall>x \<in> still K q. q = p \<or> mem_of K w' q x = mem_of K w q x"
proof -
  note laws = kernel_okD [OF assms(1)]
  have "keeps (snd_rel (same_other K p)) (AttachToProcess A K elf p vs)"
    unfolding AttachToProcess_def
    by (intro other_frame2.keeps_rules other_frame.keeps_state_rules keeps_with_trace laws(1))
      (use keeps_attach_body [OF laws(1,3,5)] in blast)
  from keepsD [OF this assms(2)] show ?thesis by (simp add: same_other_def)
qed

text \<open>
  C2: a successful \<open>AttachToProcess\<close> of an image that has not been injected before makes the fake
  function live: the function that the vDSO of the process has under the name of the image now starts
  with a jump to the image, the image starts with its
  text, and the slot of each variable holds the value asked for. The image lies on pages that were
  not mapped before, and of the memory that was mapped only the sixteen bytes at the function have
  changed. Before, the process must have had those bytes mapped, and the first \<open>mmap\<close> must not
  fail half way.
\<close>

theorem Attach_makes_live:
  assumes "kernel_ok A K" and "clean_mmap A K p (length (content it)) w"
    and "Getpagesize K = 2 ^ k" "k < 64" "length (content it) + 2 ^ k \<le> 2 ^ 64"
    and "fakeEntry it = None" "wf_image A it" "distinct (map fst vs)"
    and "AttachToProcess A K elf p vs (it, w) = (Ok u, (it', w'))"
    and "mapped_still K p w (OriginAddress it') 16"
  shows "vdso_symbol A K elf p w (symbolName it) (OriginAddress it') \<and>
    (\<exists>e. fakeEntry it' = Some e \<and> length vs = length (offset it) \<and> fake_live A K p it' e vs w' \<and>
    jump_target A (mem_of K w' p) (OriginAddress it') = Some (StartAddress e) \<and>
    fresh_image K p e (length (content it)) w \<and> kept_but K p (OriginAddress it') 16 w w')"
proof -
  from Attach_Ok [OF assms] obtain e code where
    it': "it' = it\<lparr>fakeEntry := Some e, OriginFuncCode := Some code, OriginAddress := OriginAddress it'\<rparr>" and
    r: "length vs = length (offset it)" "fake_live A K p it' e vs w'"
      "fresh_image K p e (length (content it)) w" "kept_but K p (OriginAddress it') 16 w w'"
    by blast
  have "fakeEntry it' = Some e" by (subst it') simp
  moreover have "jump_target A (mem_of K w' p) (OriginAddress it') = Some (StartAddress e)"
    using r(2) by (simp add: fake_live_def jump_target_code)
  ultimately show ?thesis using r Attach_symbol [OF assms(1-6,9)] by blast
qed

text \<open>
  C5: what attaching and then recovering leaves, for saved code of any length \<open>n\<close> (the size of the
  symbol: five bytes for \<open>clock_gettime\<close> on amd64). Of the bytes that were mapped before, the \<open>n\<close> bytes
  of the function are back. Behind them the bytes up to the next multiple of eight are zero, and when
  that is still below sixteen, the rest of the jump remains. Every other byte is as it was. So every
  byte is restored when the function has at least sixteen bytes and a multiple of eight. The image
  stays mapped, and \<open>fakeEntry\<close> still holds its entry.
\<close>

theorem Attach_Recover_roundtrip:
  assumes ok: "kernel_ok A K" "reads_total K" and clean: "clean_mmap A K p (length (content it)) w"
    and page: "Getpagesize K = 2 ^ k" "k < 64" "length (content it) + 2 ^ k \<le> 2 ^ 64"
    and im: "fakeEntry it = None" "wf_image A it" "distinct (map fst vs)"
    and len: "content it \<noteq> []" "length (content it) \<le> 2 ^ 48"
    and att: "AttachToProcess A K elf p vs (it, w) = (Ok u, (it1, w1))"
    and code: "OriginFuncCode it1 = Some code" "length code \<le> 2 ^ 48"
    and fn: "mapped_still K p w (OriginAddress it1) (max 16 (align8 (length code)))"
    and rec: "Recover A K p vs' (it1, w1) = (Ok u', (it2, w2))" "length vs' = length vs"
  shows "\<exists>e. fakeEntry it1 = Some e \<and> fakeEntry it2 = Some e \<and> OriginFuncCode it2 = None \<and>
    (\<forall>x \<in> still K p. mem_of K w p x = None \<or>
       mem_of K w2 p x =
         (let i = unat (x - OriginAddress it1) in
          if length code \<le> i \<and> i < align8 (length code) then Some 0
          else if align8 (length code) \<le> i \<and> i < 16 then Some (jump_code A (StartAddress e) ! i)
          else mem_of K w p x)) \<and>
    (16 \<le> length code \<longrightarrow> 8 dvd length code \<longrightarrow>
       (\<forall>x \<in> still K p. mem_of K w p x = None \<or> mem_of K w2 p x = mem_of K w p x))"
proof -
  let ?o = "OriginAddress it1" and ?n = "length code"
  have fn16: "mapped_still K p w ?o 16" by (rule mapped_still_le [OF fn]) simp
  have al: "mapped_still K p w ?o (align8 ?n)" by (rule mapped_still_le [OF fn]) simp
  have fnn: "mapped_still K p w ?o ?n" by (rule mapped_still_le [OF al]) (simp add: align8_bounds)
  have st: "\<forall>i < align8 ?n. ?o + of_nat i \<in> still K p" using al by (simp add: mapped_still_def)
  obtain e code' where
    it1: "it1 = it\<lparr>fakeEntry := Some e, OriginFuncCode := Some code', OriginAddress := ?o\<rparr>" and
    n: "length vs = length (offset it)" and live: "fake_live A K p it1 e vs w1" and
    fresh: "fresh_image K p e (length (content it)) w" and kept: "kept_but K p ?o 16 w w1" and
    sv: "mapped_still K p w ?o (length code') \<longrightarrow> holds_at (mem_of K w p) ?o code'"
    using Attach_Ok [OF ok(1) clean page im att fn16] by blast
  have same: "content it1 = content it" "offset it1 = offset it" "fakeEntry it1 = Some e"
    "OriginFuncCode it1 = Some code'"
    by (subst it1, simp)+
  have saved: "holds_at (mem_of K w p) ?o code" using sv same(4) code(1) fnn by simp
  have live1: "image_at A K p it1 e w1" and jump: "holds_at (mem_of K w1 p) ?o (jump_code A (StartAddress e))"
    using live by (simp_all add: fake_live_def)
  have "wf_image A it1" using im(2) same by (simp add: wf_image_def text_len_def)
  then have R: "it2 = it1\<lparr>OriginFuncCode := None, OriginAddress := 0\<rparr>"
    "holds_at (mem_of K w2 p) ?o (alignBuffer code)" "same_but K p ?o (align8 ?n) w1 w2"
    using fresh len same rec(2) n
    by (intro Recover_live [OF ok _ same(3) _ _ _ _ live1 _ code st rec(1)]; simp add: fresh_image_def)+
  have all: "mem_of K w p x = None \<or> mem_of K w2 p x =
      (if ?n \<le> unat (x - ?o) \<and> unat (x - ?o) < align8 ?n then Some 0
       else if align8 ?n \<le> unat (x - ?o) \<and> unat (x - ?o) < 16 then Some (jump_code A (StartAddress e) ! unat (x - ?o))
       else mem_of K w p x)" if x: "x \<in> still K p" for x
    by (rule recovered_byte [OF saved R(2,3) jump kept x])
  moreover have "mem_of K w p x = None \<or> mem_of K w2 p x = mem_of K w p x"
    if "16 \<le> ?n" "8 dvd ?n" "x \<in> still K p" for x
    using all [OF that(3), unfolded align8_id [OF that(2)]] that(1) by (auto split: if_splits)
  ultimately show ?thesis using same(3) by (simp add: R(1) Let_def)
qed

text \<open>
  C26: on a process that still has the image, a successful \<open>Recover\<close> writes back the saved code
  padded with zeros to a multiple of eight bytes, and nothing else. So where the saved code is not
  a multiple of eight long, the bytes of whatever lies behind the function are cleared, and where
  it is shorter than the sixteen bytes of the jump, the end of the jump stays.
\<close>

theorem Recover_writes_back:
  assumes "kernel_ok A K" "reads_total K" and "wf_image A it" "fakeEntry it = Some e"
    and "EndAddress e - StartAddress e = of_nat (length (content it))"
    and "content it \<noteq> []" "length (content it) \<le> 2 ^ 48"
    and "\<forall>i < length (content it). StartAddress e + of_nat i \<in> still K p"
    and "image_at A K p it e w" and "length vs = length (offset it)"
    and "OriginFuncCode it = Some code" "length code \<le> 2 ^ 48"
      "\<forall>i < align8 (length code). OriginAddress it + of_nat i \<in> still K p"
    and "Recover A K p vs (it, w) = (Ok u, (it', w'))"
  shows "OriginFuncCode it' = None \<and>
    holds_at (mem_of K w' p) (OriginAddress it) (code @ replicate (align8 (length code) - length code) 0) \<and>
    same_but K p (OriginAddress it) (align8 (length code)) w w'"
  using Recover_live [OF assms] by (simp add: alignBuffer_eq)

text \<open>
  C27: attaching again to a process that still has the image, as after a \<open>Recover\<close>, only sets the
  variables: whatever the outcome, no byte outside the slots changes, so the function is not
  redirected again, although the call may report success.
\<close>

theorem Attach_again_sets_only:
  assumes ok: "kernel_ok A K" "reads_total K" and im: "wf_image A it" "fakeEntry it = Some e"
    and e: "EndAddress e - StartAddress e = of_nat (length (content it))"
    and len: "content it \<noteq> []" "length (content it) \<le> 2 ^ 48"
    and st: "\<forall>i < length (content it). StartAddress e + of_nat i \<in> still K p"
    and live: "image_at A K p it e w"
    and run: "AttachToProcess A K elf p vs (it, w) = (r, (it', w'))"
  shows "it' = it \<and> slots_only A K p it e (fst ` set vs) w w'"
proof (cases "length vs = length (offset it)")
  case False
  with run show ?thesis by (auto simp: AttachToProcess_def and_then_def get_fst_def throw_def)
next
  case n: True
  note laws = kernel_okD [OF ok(1)]
  obtain r1 w1 where t: "Trace K (unixInstrSize A) p w = (r1, w1)" by fastforce
  have so: "slots_only A K p it e ks u u'" if "same_mem K u u'" for u u' ks
    using that by (simp add: slots_only_def same_mem_def)
  have m1: "same_mem K w w1" by (rule keepsD [OF keeps_Trace [OF laws(1)] t])
  have wt: "with_trace A K p ''%v ptrace on target process, pid: %d'' (\<lambda>P. attach_body A K elf P vs) (it, w) =
      (r, (it', w'))"
    using run n by (simp add: AttachToProcess_def and_then_def get_fst_def)
  show ?thesis
  proof (cases "\<exists>P b. r1 = Ok (P, b)")
    case False
    with wt t so [OF m1] show ?thesis by (cases r1) (auto simp: with_trace_def)
  next
    case True
    then obtain P b where r1: "r1 = Ok (P, b)" by blast
    then have P: "pid P = p" using Trace_Ok(1) [of K _ p w P b w1] t by blast
    have "image_at A K (pid P) it e w1" using image_at_same_mem [OF live m1 st] P by simp
    then obtain w2 where f: "FindInjectedImage A K it P (length (offset it)) w1 = (Ok (Some e), w2)"
      using FindInjectedImage_live [OF ok im e len] by blast
    have m2: "same_mem K w1 w2" by (rule keepsD [OF keeps_FindInjectedImage [OF laws(1)] f])
    obtain rs w3 where sv: "set_vars A K it P e vs w2 = (rs, w3)" by fastforce
    have s3: "slots_only A K p it e (fst ` set vs) w2 w3"
      using set_vars_frame [OF laws(3) sv] P by simp
    have "\<exists>u. (u = w1 \<or> u = w3) \<and> it' = it \<and> w' = snd (Detach K P u)"
      using wt t r1 f sv n
      by (cases "FindVDSOEntry P")
        (auto simp: with_trace_def attach_body_def io_defs split: prod.splits res.splits)
    then obtain u where u: "u = w1 \<or> u = w3" "it' = it" "w' = snd (Detach K P u)" by blast
    have "slots_only A K p it e (fst ` set vs) w w3"
      using slots_only_trans [OF so [OF same_mem_trans [OF m1 m2], of "{}"] s3] by simp
    then have "slots_only A K p it e (fst ` set vs) w u" using u(1) so [OF m1] by auto
    then have "slots_only A K p it e (fst ` set vs) w w'"
      using slots_only_trans [OF _ so [OF Detach_same_mem [OF laws(1)], of "{}"]] u(3) by fastforce
    then show ?thesis using u(2) by simp
  qed
qed

section \<open>A concrete process\<close>

text \<open>
  The process of \<open>page_sim\<close>, whose code page is its vDSO, with one symbol, and an image with one
  variable. \<open>sz\<close> is the size of the function.
\<close>

definition vdso_entry :: Entry where
  "vdso_entry = \<lparr>StartAddress = 0x1000, EndAddress = 0x1020, Privilege = ''r-xp'', PaddingSize = 0, Path = ''[vdso]''\<rparr>"

definition attach_world :: sim where
  "attach_world = page_sim\<lparr>s_maps := maps_file [(''00:00'', ''0'', 1, vdso_entry)], s_traced := {}\<rparr>"

definition demo_elf :: "u64 \<Rightarrow> byte list \<Rightarrow> elf_file res" where
  "demo_elf sz bs = Ok \<lparr>Machine = EM_X86_64, ByteOrder = LittleEndian,
     Progs = [\<lparr>prog_type = PT_LOAD, prog_vaddr = 0, prog_off = 0\<rparr>], Sections = [], Symbols = Ok [],
     DynamicSymbols = Ok [\<lparr>sym_name = ''time'', sym_value = 0, sym_size = sz\<rparr>]\<rparr>"

definition demo_image :: FakeImage where
  "demo_image = NewFakeImage ''time'' (replicate 8 0x90 @ replicate 8 0) [(''V'', 8)]"

lemma attach_world_maps [simp]: "parse_maps (s_maps attach_world) = Ok [vdso_entry]"
  unfolding attach_world_def by (simp add: parse_maps_file wf_entry_def plain_def vdso_entry_def)

lemma attach_world_fields [simp]: "s_threads attach_world = [''7'']"
  "s_mem attach_world = (\<lambda>_. mem_write (\<lambda>_. None) 0x1000 (replicate 32 0x90))"
  "s_regs attach_world = (\<lambda>_ _. 0x1000)" "s_next attach_world = 0x2000" "s_traced attach_world = {}"
  by (simp_all add: attach_world_def page_sim_def)

lemmas attach_eval = Trace_def trace_body_def trace_loop.simps ParseInt_def ParseUint_def drop_sign_def
  digit_val_def sign_value_def ReadMaps_def AttachToProcess_def Recover_def with_trace_def
  attach_body_def FindInjectedImage_def InjectFakeImage_def FindVDSOEntry_def FindSymbolInEntry_def
  GetLibBuffer_def ReadSlice_def load_offset_def find_symbol_find sym_matches_def JumpToFakeFunc_def
  PtraceWriteSlice_def poke_loop_step alignBuffer_id Detach_def rewrite_on_error_def
  TryReWriteFakeImage_def SetVarUint64_def SetVarUint64_amd64_def WriteUint64ToAddr_def
  varLength_def remote_eval round_up_def length_syscall_insn unixInstrSize_def sim_step_def
  sim_at_mmap_def demo_image_def NewFakeImage_def vdso_entry_def demo_elf_def PT_LOAD_def

abbreviation demo_attach :: "u64 \<Rightarrow> unit res \<times> FakeImage \<times> sim" where
  "demo_attach sz \<equiv>
     AttachToProcess AMD64 (sim_kernel AMD64) (demo_elf sz) 7 [(''V'', 5)] (demo_image, attach_world)"

lemma demo_attach_run:
  assumes "sz = 5 \<or> sz = 16"
  shows "case demo_attach sz of (r1, (it1, w1)) \<Rightarrow>
     is_ok r1 \<and> OriginAddress it1 = 0x1000 \<and> OriginFuncCode it1 \<noteq> None \<and>
     length (the (OriginFuncCode it1)) = unat sz \<and>
     is_ok (fst (Recover AMD64 (sim_kernel AMD64) 7 [(''V'', 5)] (it1, w1)))"
  using assms by (elim disjE) (simp_all add: attach_eval alignBuffer_eq align8_def)

lemma demo_attached:
  assumes "sz = 5 \<or> sz = 16"
  obtains it1 w1 code u2 it2 w2 where "demo_attach sz = (Ok (), (it1, w1))" "OriginAddress it1 = 0x1000"
    "OriginFuncCode it1 = Some code" "length code = unat sz"
    "Recover AMD64 (sim_kernel AMD64) 7 [(''V'', 5)] (it1, w1) = (Ok u2, (it2, w2))"
proof -
  obtain r1 it1 w1 where a: "demo_attach sz = (r1, (it1, w1))" by (metis surj_pair)
  obtain r2 it2 w2 where r: "Recover AMD64 (sim_kernel AMD64) 7 [(''V'', 5)] (it1, w1) = (r2, (it2, w2))"
    by (metis surj_pair)
  have "is_ok r1 \<and> OriginAddress it1 = 0x1000 \<and> OriginFuncCode it1 \<noteq> None \<and>
      length (the (OriginFuncCode it1)) = unat sz \<and> is_ok r2"
    using demo_attach_run [OF assms] unfolding a by (simp add: r)
  with a r that show thesis by (cases r1; cases r2) auto
qed

lemma sim_reads_total: "reads_total (sim_kernel A)"
  by (auto simp: reads_total_def sim_read_def mapped_iff)

lemma demo_clean: "clean_mmap AMD64 (sim_kernel AMD64) 7 16 attach_world"
  by (simp add: clean_mmap_def attach_eval)

lemma demo_wf: "wf_image AMD64 demo_image" "fakeEntry demo_image = None" "content demo_image \<noteq> []"
  "length (content demo_image) = 16" "length (offset demo_image) = 1"
  by (simp_all add: demo_image_def NewFakeImage_def wf_image_def text_len_def varLength_def)

lemma demo_mapped: "mapped_still (sim_kernel A) 7 attach_world 0x1000 16"
proof -
  have "mapped (s_mem attach_world 7) 0x1000 16" by simp
  then show ?thesis unfolding mapped_iff mapped_still_def by simp
qed

text \<open>What the general lemma says of the run.\<close>

lemma demo_live:
  assumes run: "demo_attach sz = (Ok (), (it1, w1))" "OriginAddress it1 = 0x1000"
  obtains e where "wf_image AMD64 it1" "fakeEntry it1 = Some e"
    "EndAddress e - StartAddress e = of_nat (length (content it1))"
    "content it1 \<noteq> []" "length (content it1) = 16" "length (offset it1) = 1"
    "image_at AMD64 (sim_kernel AMD64) 7 it1 e w1"
proof -
  obtain e code where it1: "it1 = demo_image\<lparr>fakeEntry := Some e, OriginFuncCode := Some code, OriginAddress := 0x1000\<rparr>"
      and live: "fake_live AMD64 (sim_kernel AMD64) 7 it1 e [(''V'', 5)] w1"
      and fresh: "fresh_image (sim_kernel AMD64) 7 e 16 attach_world"
    using Attach_Ok [OF sim_kernel_ok _ _ _ _ demo_wf(2,1) _ run(1), of 4] demo_clean demo_mapped run(2)
    by (auto simp: demo_wf)
  have same: "content it1 = content demo_image" "offset it1 = offset demo_image" "fakeEntry it1 = Some e"
    by (simp_all add: it1)
  show thesis
    by (rule that [of e]; use demo_wf live fresh same in
        \<open>simp add: wf_image_def text_len_def fake_live_def fresh_image_def\<close>)
qed

theorem Attach_other_processes_witness:
  "\<exists>r it' w'. demo_attach 16 = (r, (it', w')) \<and> s_mem w' 8 0x1000 = s_mem attach_world 8 0x1000"
proof -
  obtain r it' w' where run: "demo_attach 16 = (r, (it', w'))" by (metis surj_pair)
  have "s_mem w' 8 0x1000 = s_mem attach_world 8 0x1000"
    using Attach_other_processes [OF sim_kernel_ok run, THEN spec, of 8] by simp
  with run show ?thesis by blast
qed

theorem Attach_makes_live_witness:
  "\<exists>it' w' e. demo_attach 16 = (Ok (), (it', w')) \<and>
     vdso_symbol AMD64 (sim_kernel AMD64) (demo_elf 16) 7 attach_world (symbolName demo_image) 0x1000 \<and> fake_live AMD64 (sim_kernel AMD64) 7 it' e [(''V'', 5)] w'"
proof -
  obtain it1 w1 where run: "demo_attach 16 = (Ok (), (it1, w1))" and o: "OriginAddress it1 = 0x1000"
    by (rule demo_attached [of 16]) simp_all
  from Attach_makes_live [OF sim_kernel_ok _ _ _ _ demo_wf(2,1) _ run, of 4] demo_clean demo_mapped
  show ?thesis using run by (auto simp: demo_wf o)
qed

theorem Attach_Recover_roundtrip_witness:
  "\<exists>it1 w1 it2 w2. demo_attach 5 = (Ok (), (it1, w1)) \<and>
     Recover AMD64 (sim_kernel AMD64) 7 [(''V'', 5)] (it1, w1) = (Ok (), (it2, w2)) \<and>
     s_mem w2 7 0x1003 = Some 0x90 \<and> s_mem w2 7 0x1006 = Some 0"
proof -
  obtain it1 w1 code u2 it2 w2 where run: "demo_attach 5 = (Ok (), (it1, w1))" "OriginAddress it1 = 0x1000"
    "OriginFuncCode it1 = Some code" "length code = 5"
    "Recover AMD64 (sim_kernel AMD64) 7 [(''V'', 5)] (it1, w1) = (Ok u2, (it2, w2))"
    by (rule demo_attached [of 5]) simp_all
  have m: "s_mem attach_world 7 0x1003 = Some 0x90" "s_mem attach_world 7 0x1006 = Some 0x90"
    by (simp_all add: mem_write_def in_range_def)
  have a: "align8 5 = 8" by (simp add: align8_def)
  have "mapped_still (sim_kernel AMD64) 7 attach_world (OriginAddress it1) (max 16 (align8 (length code)))"
    using demo_mapped run(2,4) a by simp
  from Attach_Recover_roundtrip [OF sim_kernel_ok sim_reads_total _ _ _ _ demo_wf(2,1) _ demo_wf(3) _
      run(1,3) _ this run(5), of 4] demo_clean run(4)
  obtain e :: Entry where ev: "\<forall>x. s_mem attach_world 7 x = None \<or> s_mem w2 7 x =
         (if length code \<le> unat (x - OriginAddress it1) \<and> unat (x - OriginAddress it1) < align8 (length code)
          then Some 0
          else if align8 (length code) \<le> unat (x - OriginAddress it1) \<and> unat (x - OriginAddress it1) < 16
          then Some (jump_code AMD64 (StartAddress e) ! unat (x - OriginAddress it1))
          else s_mem attach_world 7 x)"
    by (auto simp: demo_wf Let_def simp del: attach_world_fields cong: if_cong)
  then have "s_mem w2 7 0x1003 = Some 0x90 \<and> s_mem w2 7 0x1006 = Some 0"
    using ev [THEN spec, of "0x1003"] ev [THEN spec, of "0x1006"] m a run(2,4) by (simp del: attach_world_fields)
  with run show ?thesis by auto
qed

text \<open>
  For a function of five bytes, the size in the comment of \<open>FindSymbolInEntry\<close>, the sixth byte is
  lost: it was 0x90 and is 0 after the recovery.
\<close>

theorem Recover_writes_back_witness:
  "\<exists>it1 w1 it2 w2. demo_attach 5 = (Ok (), (it1, w1)) \<and>
     Recover AMD64 (sim_kernel AMD64) 7 [(''V'', 5)] (it1, w1) = (Ok (), (it2, w2)) \<and>
     s_mem attach_world 7 0x1005 = Some 0x90 \<and> s_mem w2 7 0x1005 = Some 0"
proof -
  obtain it1 w1 code u2 it2 w2 where run: "demo_attach 5 = (Ok (), (it1, w1))" "OriginAddress it1 = 0x1000"
    "OriginFuncCode it1 = Some code" "length code = 5"
    "Recover AMD64 (sim_kernel AMD64) 7 [(''V'', 5)] (it1, w1) = (Ok u2, (it2, w2))"
    by (rule demo_attached [of 5]) simp_all
  obtain e where im: "wf_image AMD64 it1" "fakeEntry it1 = Some e"
    "EndAddress e - StartAddress e = of_nat (length (content it1))"
    "content it1 \<noteq> []" "length (content it1) = 16" "length (offset it1) = 1"
    "image_at AMD64 (sim_kernel AMD64) 7 it1 e w1"
    by (rule demo_live [OF run(1,2)])
  have "holds_at (s_mem w2 7) 0x1000 (code @ replicate (align8 (length code) - length code) 0)"
    using Recover_writes_back [OF sim_kernel_ok sim_reads_total im(1-4) _ _ im(7) _ run(3) _ _ run(5)] im run
    by simp
  then have "s_mem w2 7 0x1005 = Some 0"
    using run(4) by (auto simp: holds_at_def align8_def nth_append dest!: spec [of _ 5])
  moreover have "s_mem attach_world 7 0x1005 = Some 0x90" by (simp add: mem_write_def in_range_def)
  ultimately show ?thesis using run by auto
qed

theorem Attach_again_sets_only_witness:
  "\<exists>it1 w1 r it2 w2. demo_attach 16 = (Ok (), (it1, w1)) \<and>
     AttachToProcess AMD64 (sim_kernel AMD64) (demo_elf 16) 7 [(''V'', 6)] (it1, w1) = (r, (it2, w2)) \<and> it2 = it1"
proof -
  obtain it1 w1 where run: "demo_attach 16 = (Ok (), (it1, w1))" "OriginAddress it1 = 0x1000"
    by (rule demo_attached [of 16]) simp_all
  obtain e where im: "wf_image AMD64 it1" "fakeEntry it1 = Some e"
    "EndAddress e - StartAddress e = of_nat (length (content it1))"
    "content it1 \<noteq> []" "length (content it1) = 16" "length (offset it1) = 1"
    "image_at AMD64 (sim_kernel AMD64) 7 it1 e w1"
    by (rule demo_live [OF run])
  obtain r it2 w2 where again: "AttachToProcess AMD64 (sim_kernel AMD64) (demo_elf 16) 7 [(''V'', 6)] (it1, w1) =
      (r, (it2, w2))"
    by (metis surj_pair)
  have "it2 = it1"
    using Attach_again_sets_only [OF sim_kernel_ok sim_reads_total im(1-4) _ _ im(7) again] im by simp
  with run again show ?thesis by blast
qed

end
