(* ===== verification/Loaded.thy ===== *)
theory Loaded
  imports Injection
begin

text \<open>
  From the object file to the running fake function: an image built by the loader satisfies what
  the injection asks of an image, and in a process where it is live the instructions of its text
  read the values that were set.
\<close>

section \<open>A loaded image is well formed\<close>

lemma loaded_wf:
  assumes load: "load_relocs A mach bo syms rela ([], text) = Ok (off, cont)"
    and d: "distinct (map snd (relocs bo syms rela))"
    and it: "offset it = off" "content it = cont"
  shows "wf_image A it" "text_len A it = length text"
proof -
  let ?rs = "relocs bo syms rela" and ?slot = "\<lambda>i. length text + i * varLength A"
  have l: "link A bo ?rs ([], text) = Ok (off, cont)" by (rule load_relocs_link [OF load])
  have len: "length cont = length text + length ?rs * varLength A" by (rule link_length [OF l])
  have off: "distinct (map fst off)" "set (map fst off) = set (map snd ?rs)"
      "\<forall>i < length ?rs. map_of off (snd (?rs ! i)) = Some (?slot i)"
    using link_offsets [OF l d] by simp_all
  have n: "length off = length ?rs" using off(1,2) d by (metis distinct_card length_map)
  show t: "text_len A it = length text" by (simp add: text_len_def it len n)
  have slot: "\<exists>i < length ?rs. k = snd (?rs ! i) \<and> o' = ?slot i" if "(k, o') \<in> set off" for k o'
  proof -
    have "k \<in> set (map snd ?rs)" using off(2) that by force
    then obtain i where i: "i < length ?rs" "k = snd (?rs ! i)" by (auto simp: in_set_conv_nth)
    with off(1,3) that have "Some o' = Some (?slot i)" by (metis map_of_is_SomeI)
    with i show ?thesis by blast
  qed
  have fit: "?slot i + varLength A \<le> length cont" if "i < length ?rs" for i
  proof -
    have "Suc i * varLength A \<le> length ?rs * varLength A" using that by (intro mult_le_mono1) simp
    then show ?thesis by (simp add: len)
  qed
  have apart: "?slot i + varLength A \<le> ?slot j \<or> ?slot j + varLength A \<le> ?slot i" if "i \<noteq> j" for i j
  proof -
    have "Suc a * varLength A \<le> b * varLength A" if "a < b" for a b
      using that by (intro mult_le_mono1) simp
    from this [of i j] this [of j i] show ?thesis using that by (auto simp: neq_iff)
  qed
  have inside: "length text \<le> o1 \<and> o1 + varLength A \<le> length cont" if "(k, o1) \<in> set off" for k o1
    using slot [OF that] fit by auto
  have between: "k = k' \<or> o1 + varLength A \<le> o2 \<or> o2 + varLength A \<le> o1"
    if h: "(k, o1) \<in> set off" "(k', o2) \<in> set off" for k o1 k' o2
  proof -
    obtain i j where "k = snd (?rs ! i)" "o1 = ?slot i" "k' = snd (?rs ! j)" "o2 = ?slot j"
      using slot [OF h(1)] slot [OF h(2)] by blast
    then show ?thesis using apart [of i j] by (cases "i = j") auto
  qed
  have "\<forall>(k, o1) \<in> set off. length text \<le> o1 \<and> o1 + varLength A \<le> length cont"
    using inside by blast
  moreover have "\<forall>(k, o1) \<in> set off. \<forall>(k', o2) \<in> set off.
      k = k' \<or> o1 + varLength A \<le> o2 \<or> o2 + varLength A \<le> o1"
    using between by blast
  ultimately show "wf_image A it" using off(1) len n by (simp add: wf_image_def t it list_all_iff)
qed

section \<open>What the fake function reads\<close>

text \<open>
  The value that the code at a relocation loads, from the memory of the process: the operand
  itself on amd64, through the pointer in the slot on arm64.
\<close>

definition operand_value ::
  "arch \<Rightarrow> u64 \<Rightarrow> byte list \<Rightarrow> Rela64 \<Rightarrow> (u64 \<Rightarrow> byte option) \<Rightarrow> u64 option" where
  "operand_value A base cont rela m =
     Option.bind (refers_to A base cont rela) (\<lambda>a.
     Option.bind (read_mem m a 8) (\<lambda>bs.
     case A of
       AMD64 \<Rightarrow> Some (GetUint64 LittleEndian bs)
     | ARM64 \<Rightarrow> map_option (GetUint64 LittleEndian) (read_mem m (GetUint64 LittleEndian bs) 8)))"

lemma slot_value:
  assumes "holds_at m (StartAddress e + of_nat off) (var_bytes A e off v)"
    and "refers_to A base cont rela = Some (StartAddress e + of_nat off)"
  shows "operand_value A base cont rela m = Some v"
proof (cases A)
  case AMD64
  then have "read_mem m (StartAddress e + of_nat off) 8 = Some (PutUint64 LittleEndian v)"
    using assms(1) by (intro read_mem_holds) (simp_all add: var_bytes_def)
  then show ?thesis unfolding operand_value_def assms(2) by (simp add: AMD64 u64_codec.get_put)
next
  case ARM64
  let ?a = "StartAddress e + of_nat off"
  have "holds_at m ?a (PutUint64 LittleEndian (?a + 8))" "holds_at m (?a + 8) (PutUint64 LittleEndian v)"
    using assms(1) by (simp_all add: ARM64 var_bytes_def holds_at_append)
  then have "read_mem m ?a 8 = Some (PutUint64 LittleEndian (?a + 8))"
      "read_mem m (?a + 8) 8 = Some (PutUint64 LittleEndian v)"
    by (auto intro: read_mem_holds)
  then show ?thesis unfolding operand_value_def assms(2) by (simp add: ARM64 u64_codec.get_put)
qed

text \<open>
  C4: in a process where the image that the loader built is live, the instruction at each
  relocation of a symbol reads the value its variable was set to, wherever the image was mapped,
  and the instructions before the slots are those of the loaded image.
\<close>

theorem fake_reads_variables:
  assumes load: "load_relocs A mach LittleEndian syms rela ([], text) = Ok (off, cont)"
    and rs: "rs = relocs LittleEndian syms rela"
    and wf: "wf_relocs (length text) rs" "list_all (\<lambda>(r, _). expected_reloc A text r) rs"
      "expected_text A text (length rs)" "distinct (map snd rs)"
    and it: "offset it = off" "content it = cont"
    and live: "fake_live A K p it e vs w"
    and i: "i < length rs" "(snd (rs ! i), v) \<in> set vs"
  shows "operand_value A (StartAddress e) cont (fst (rs ! i)) (mem_of K w p) = Some v \<and>
    holds_at (mem_of K w p) (StartAddress e) (take (length text) cont)"
proof -
  note L = load_relocs_layout [OF load rs wf]
  let ?slot = "length text + i * varLength A"
  have slot: "map_of off (snd (rs ! i)) = Some ?slot"
      "refers_to A (StartAddress e) cont (fst (rs ! i)) = Some (StartAddress e + of_nat ?slot)"
    using L i(1) by blast+
  obtain off' where "map_of (offset it) (snd (rs ! i)) = Some off'"
      "holds_at (mem_of K w p) (StartAddress e + of_nat off') (var_bytes A e off' v)"
    using live i(2) by (auto simp: fake_live_def vars_set_def)
  then have h: "holds_at (mem_of K w p) (StartAddress e + of_nat ?slot) (var_bytes A e ?slot v)"
    using slot(1) it(1) by simp
  have "text_len A it = length text"
    using loaded_wf(2) [OF load] wf(4) rs it by simp
  then have "holds_at (mem_of K w p) (StartAddress e) (take (length text) cont)"
    using live it(2) by (simp add: fake_live_def image_at_def)
  then show ?thesis using slot_value [OF h slot(2)] by simp
qed

section \<open>A concrete image\<close>

definition one_syms :: "elf_symbol list" where
  "one_syms = [\<lparr>sym_name = ''V'', sym_value = 0, sym_size = 8\<rparr>]"

definition one_reloc :: Rela64 where
  "one_reloc = \<lparr>Off = 2, Info = 0x100000002, Addend = - 4\<rparr>"

abbreviation one_load :: "image res" where
  "one_load \<equiv> load_relocs AMD64 62 LittleEndian one_syms (put_rela LittleEndian one_reloc) ([], replicate 16 0x90)"

lemma one_relocs: "relocs LittleEndian one_syms (put_rela LittleEndian one_reloc) = [(one_reloc, ''V'')]"
  by (simp add: relocs.simps read_put_rela [where bs = "[]", simplified] one_reloc_def one_syms_def
      drop_bit_eq_div Let_def)

lemma one_loaded: obtains cont where "one_load = Ok ([(''V'', 16)], cont)" "length cont = 24"
proof -
  have "is_ok one_load \<and> fst (case one_load of Ok im \<Rightarrow> im) = [(''V'', 16)] \<and>
      length (snd (case one_load of Ok im \<Rightarrow> im)) = 24"
    by (simp add: load_relocs.simps read_put_rela [where bs = "[]", simplified] one_reloc_def
        one_syms_def drop_bit_eq_div Let_def EM_X86_64_def AssetLD_eq varLength_def)
  then show thesis using that by (cases one_load) auto
qed

lemma one_attach:
  assumes "length cont = 24"
  shows "case AttachToProcess AMD64 (sim_kernel AMD64) (demo_elf 16) 7 [(''V'', 5)]
      (NewFakeImage ''time'' cont [(''V'', 16)], attach_world) of
     (r1, (it1, w1)) \<Rightarrow> is_ok r1 \<and> OriginAddress it1 = 0x1000"
proof -
  have "cont \<noteq> []" using assms by auto
  with assms show ?thesis by (simp add: attach_eval)
qed

lemma one_clean: "clean_mmap AMD64 (sim_kernel AMD64) 7 24 attach_world"
  by (simp add: clean_mmap_def attach_eval)

theorem fake_reads_variables_witness:
  "\<exists>cont (it :: FakeImage) (e :: Entry) (w :: sim). one_load = Ok ([(''V'', 16)], cont) \<and>
     operand_value AMD64 (StartAddress e) cont one_reloc (s_mem w 7) = Some 5 \<and>
     jump_target AMD64 (s_mem w 7) (OriginAddress it) = Some (StartAddress e)"
proof -
  obtain cont where load: "one_load = Ok ([(''V'', 16)], cont)" and len: "length cont = 24"
    by (rule one_loaded)
  let ?it = "NewFakeImage ''time'' cont [(''V'', 16)]"
  have it: "offset ?it = [(''V'', 16)]" "content ?it = cont" "fakeEntry ?it = None"
    by (simp_all add: NewFakeImage_def)
  obtain u it1 w1 where run: "AttachToProcess AMD64 (sim_kernel AMD64) (demo_elf 16) 7 [(''V'', 5)]
      (?it, attach_world) = (Ok u, (it1, w1))" and o: "OriginAddress it1 = 0x1000"
    using one_attach [OF len] by (auto simp: is_ok_def split: prod.splits res.splits)
  have wf: "wf_image AMD64 ?it"
    by (rule loaded_wf [OF load]) (simp_all add: one_relocs it)
  obtain e where it1: "\<exists>code. it1 = ?it\<lparr>fakeEntry := Some e, OriginFuncCode := Some code, OriginAddress := OriginAddress it1\<rparr>"
      and live: "fake_live AMD64 (sim_kernel AMD64) 7 it1 e [(''V'', 5)] w1"
    using Attach_Ok [OF sim_kernel_ok _ _ _ _ it(3) wf _ run, of 4] one_clean demo_mapped
    by (auto simp: it len o)
  from it1 have "offset it1 = [(''V'', 16)]" "content it1 = cont"
    by (auto simp: NewFakeImage_def elim!: ssubst)
  then have "operand_value AMD64 (StartAddress e) cont one_reloc (s_mem w1 7) = Some 5"
    using fake_reads_variables [OF load one_relocs [symmetric] _ _ _ _ _ _ live, of 0 5] len
    by (simp add: wf_relocs_def expected_reloc_def expected_text_def one_reloc_def)
  moreover have "jump_target AMD64 (s_mem w1 7) (OriginAddress it1) = Some (StartAddress e)"
    using live by (simp add: fake_live_def jump_target_code)
  ultimately show ?thesis
    using load by blast
qed

end
