(* ===== verification/ClkIds.thy ===== *)
theory ClkIds
  imports Prelude
begin

text \<open>
  \<open>encode_clk_ids.go\<close>: the list of clock names given on the command line becomes the bit mask
  that the injected \<open>clock_gettime\<close> consults.
\<close>

unbundle bit_operations_syntax

section \<open>EncodeClkIds\<close>

text \<open>The switch of the loop body: the bit of a clock name, as \<open>uapi/linux/time.h\<close> numbers them.\<close>

definition clk_bit :: "string \<Rightarrow> nat option" where
  "clk_bit s =
     (if s = ''CLOCK_REALTIME'' then Some 0
      else if s = ''CLOCK_MONOTONIC'' then Some 1
      else if s = ''CLOCK_PROCESS_CPUTIME_ID'' then Some 2
      else if s = ''CLOCK_THREAD_CPUTIME_ID'' then Some 3
      else if s = ''CLOCK_MONOTONIC_RAW'' then Some 4
      else if s = ''CLOCK_REALTIME_COARSE'' then Some 5
      else if s = ''CLOCK_MONOTONIC_COARSE'' then Some 6
      else if s = ''CLOCK_BOOTTIME'' then Some 7
      else if s = ''CLOCK_REALTIME_ALARM'' then Some 8
      else if s = ''CLOCK_BOOTTIME_ALARM'' then Some 9
      else None)"

fun encode_loop :: "u64 \<Rightarrow> string list \<Rightarrow> u64 res" where
  "encode_loop msk [] = Ok msk"
| "encode_loop msk (clk # clks) =
     (case clk_bit clk of
        Some n \<Rightarrow> encode_loop (msk OR push_bit n 1) clks
      | None \<Rightarrow> Err (Errorf ''unknown clock id %s'' []))"

definition EncodeClkIds :: "string list \<Rightarrow> u64 res" where
  "EncodeClkIds clkIds = encode_loop 0 clkIds"

section \<open>Lemmas\<close>

lemma clk_bit_less: "clk_bit s = Some n \<Longrightarrow> n < 10"
  by (auto simp: clk_bit_def split: if_splits)

lemma clk_bit_inj: "clk_bit s = Some n \<Longrightarrow> clk_bit t = Some n \<Longrightarrow> s = t"
  by (auto simp: clk_bit_def split: if_splits)

lemma encode_loop_err:
  "encode_loop msk clks = Err (Errorf ''unknown clock id %s'' []) \<longleftrightarrow>
     (\<exists>s \<in> set clks. clk_bit s = None)"
  by (induction clks arbitrary: msk) (auto split: option.splits)

lemma encode_loop_cases:
  "(\<exists>m. encode_loop msk clks = Ok m) \<or>
   encode_loop msk clks = Err (Errorf ''unknown clock id %s'' [])"
  by (induction clks arbitrary: msk) (auto split: option.splits)

lemma encode_loop_bits:
  "encode_loop msk clks = Ok m \<Longrightarrow> n < 64 \<Longrightarrow>
     bit m n \<longleftrightarrow> bit msk n \<or> (\<exists>s \<in> set clks. clk_bit s = Some n)"
  by (induction clks arbitrary: msk)
    (auto simp: bit_simps split: option.splits dest: clk_bit_less)

text \<open>The clock ids of \<open>uapi/linux/time.h\<close>: the position in the list is the number of the clock.\<close>

definition linux_clocks :: "string list" where
  "linux_clocks =
     [''CLOCK_REALTIME'', ''CLOCK_MONOTONIC'', ''CLOCK_PROCESS_CPUTIME_ID'', ''CLOCK_THREAD_CPUTIME_ID'',
      ''CLOCK_MONOTONIC_RAW'', ''CLOCK_REALTIME_COARSE'', ''CLOCK_MONOTONIC_COARSE'', ''CLOCK_BOOTTIME'',
      ''CLOCK_REALTIME_ALARM'', ''CLOCK_BOOTTIME_ALARM'']"

lemma length_linux_clocks [simp]: "length linux_clocks = 10"
  by (simp add: linux_clocks_def)

lemma clk_bit_Some: "clk_bit s = Some n \<longleftrightarrow> n < 10 \<and> linux_clocks ! n = s"
proof
  show "n < 10 \<and> linux_clocks ! n = s" if "clk_bit s = Some n"
    using that by (auto simp: clk_bit_def linux_clocks_def split: if_splits)
  assume n: "n < 10 \<and> linux_clocks ! n = s"
  then have "n \<in> {0, 1, 2, 3, 4, 5, 6, 7, 8, 9}" by auto
  with n show "clk_bit s = Some n" by (auto simp: clk_bit_def linux_clocks_def)
qed

lemma clk_bit_None: "clk_bit s = None \<longleftrightarrow> s \<notin> set linux_clocks"
  by (auto simp: clk_bit_def linux_clocks_def)

section \<open>Properties\<close>


end
