(* ===== verification/Skew.thy ===== *)
theory Skew
  imports Injection "HOL-Library.Multiset"
begin

text \<open>
  \<open>time_skew_linux.go\<close>: the configuration of a time skew, and the injection of its three fake
  images, for \<open>time\<close> (amd64 only), \<open>clock_gettime\<close> and \<open>gettimeofday\<close>, into one process. The mutex
  of \<open>Skew\<close> makes \<open>Inject\<close> and \<open>Recover\<close> atomic with respect to each other and is not modelled.
\<close>

unbundle bit_operations_syntax

section \<open>Config\<close>

text \<open>The \<open>int64\<close> members are kept as 64-bit words: the code adds them and converts them to \<open>uint64\<close>.\<close>

record Config =
  deltaSeconds :: u64
  deltaNanoSeconds :: u64
  clockIDsMask :: u64

definition NewConfig :: "u64 \<Rightarrow> u64 \<Rightarrow> u64 \<Rightarrow> Config" where
  "NewConfig s n m = \<lparr>deltaSeconds = s, deltaNanoSeconds = n, clockIDsMask = m\<rparr>"

definition DeepCopy :: "Config \<Rightarrow> Config" where
  "DeepCopy c =
     \<lparr>deltaSeconds = deltaSeconds c, deltaNanoSeconds = deltaNanoSeconds c, clockIDsMask = clockIDsMask c\<rparr>"

definition Merge :: "Config \<Rightarrow> Config \<Rightarrow> Config" where
  "Merge c a =
     c\<lparr>deltaSeconds := deltaSeconds c + deltaSeconds a,
       deltaNanoSeconds := deltaNanoSeconds c + deltaNanoSeconds a,
       clockIDsMask := clockIDsMask c OR clockIDsMask a\<rparr>"

section \<open>Skew\<close>

record Skew =
  SkewConfig :: Config
  time_image :: "FakeImage option"
  clockGetTime :: FakeImage
  getTimeOfDay :: FakeImage

definition image_file :: "arch \<Rightarrow> string \<Rightarrow> string" where
  "image_file A base = (case A of AMD64 \<Rightarrow> base @ ''_amd64.o'' | ARM64 \<Rightarrow> base @ ''_arm64.o'')"

definition GetSkew ::
  "arch \<Rightarrow> (string \<Rightarrow> byte list res) \<Rightarrow> (byte list \<Rightarrow> elf_file res) \<Rightarrow> Config \<Rightarrow> Skew res" where
  "GetSkew A embedded elf c =
     (let load = (\<lambda>base name. map_err (\<lambda>e. Errorf ''load fake image err: %v'' [e])
            (load_image A embedded elf (image_file A base) name)) in
      res_bind (if A = ARM64 then Ok None else map_res Some (load ''fake_time'' ''time'')) (\<lambda>timeImage.
      res_bind (load ''fake_clock_gettime'' ''clock_gettime'') (\<lambda>clockGetTimeImage.
      res_bind (load ''fake_gettimeofday'' ''gettimeofday'') (\<lambda>getTimeOfDayimage.
        Ok \<lparr>SkewConfig = c, time_image = timeImage, clockGetTime = clockGetTimeImage,
            getTimeOfDay = getTimeOfDayimage\<rparr>))))"

definition Fork ::
  "arch \<Rightarrow> (string \<Rightarrow> byte list res) \<Rightarrow> (byte list \<Rightarrow> elf_file res) \<Rightarrow> Skew \<Rightarrow> Skew res" where
  "Fork A embedded elf s = GetSkew A embedded elf (SkewConfig s)"

section \<open>Inject and Recover\<close>

definition time_vars :: "Config \<Rightarrow> (string \<times> u64) list" where
  "time_vars c = [(''TV_SEC_DELTA'', deltaSeconds c), (''TV_NSEC_DELTA'', deltaNanoSeconds c)]"

definition clock_vars :: "Config \<Rightarrow> (string \<times> u64) list" where
  "clock_vars c =
     [(''CLOCK_IDS_MASK'', clockIDsMask c), (''TV_SEC_DELTA'', deltaSeconds c),
      (''TV_NSEC_DELTA'', deltaNanoSeconds c)]"

text \<open>A method call on one of the images of the skew.\<close>

definition on_image ::
  "('s \<Rightarrow> FakeImage) \<Rightarrow> (FakeImage \<Rightarrow> 's \<Rightarrow> 's) \<Rightarrow> (FakeImage \<times> 'w, 'a) io \<Rightarrow> ('s \<times> 'w, 'a) io" where
  "on_image get put m = (\<lambda>(s, w). case m (get s, w) of (r, (im, w')) \<Rightarrow> (r, (put im s, w')))"

abbreviation on_clock :: "(FakeImage \<times> 'w, 'a) io \<Rightarrow> (Skew \<times> 'w, 'a) io" where
  "on_clock \<equiv> on_image clockGetTime (\<lambda>im. clockGetTime_update (\<lambda>_. im))"

abbreviation on_day :: "(FakeImage \<times> 'w, 'a) io \<Rightarrow> (Skew \<times> 'w, 'a) io" where
  "on_day \<equiv> on_image getTimeOfDay (\<lambda>im. getTimeOfDay_update (\<lambda>_. im))"

abbreviation on_time_image :: "(FakeImage \<times> 'w, 'a) io \<Rightarrow> (Skew \<times> 'w, 'a) io" where
  "on_time_image \<equiv> on_image (\<lambda>s. the (time_image s)) (\<lambda>im. time_image_update (\<lambda>_. Some im))"

text \<open>
  The maps of variables are iterated in an arbitrary order, which may differ from call to call:
  \<open>ord i\<close> is the order of the \<open>i\<close>-th call.
\<close>

definition Skew_Inject ::
  "arch \<Rightarrow> ('w, 'z) kernel_scheme \<Rightarrow> (byte list \<Rightarrow> elf_file res) \<Rightarrow>
     (nat \<Rightarrow> (string \<times> u64) list \<Rightarrow> (string \<times> u64) list) \<Rightarrow> u64 \<Rightarrow> (Skew \<times> 'w, unit) io" where
  "Skew_Inject A K elf ord sysPID =
     (let p = sint sysPID in
      and_then get_fst (\<lambda>s.
      and_then
        (case time_image s of
           None \<Rightarrow> ret ()
         | Some _ \<Rightarrow> on_time_image (AttachToProcess A K elf p (ord 0 (time_vars (SkewConfig s))))) (\<lambda>_.
      and_then (on_clock (AttachToProcess A K elf p (ord 1 (clock_vars (SkewConfig s))))) (\<lambda>_.
      on_day (AttachToProcess A K elf p (ord 2 (time_vars (SkewConfig s))))))))"

definition Skew_Recover ::
  "arch \<Rightarrow> ('w, 'z) kernel_scheme \<Rightarrow> u64 \<Rightarrow> (Skew \<times> 'w, unit) io" where
  "Skew_Recover A K sysPID =
     (let p = sint sysPID in
      and_then get_fst (\<lambda>s.
      and_then (attempt (on_clock (Recover A K p (clock_vars (SkewConfig s))))) (\<lambda>x1.
      case x1 of
        Inl err1 \<Rightarrow>
          and_then (attempt (on_day (Recover A K p (time_vars (SkewConfig s))))) (\<lambda>x2.
          case x2 of
            Inl err2 \<Rightarrow> throw (Errorf ''%v time skew all failed %v'' [err1, err2])
          | Inr _ \<Rightarrow> throw err1)
      | Inr _ \<Rightarrow> on_day (Recover A K p (time_vars (SkewConfig s))))))"

section \<open>Merging configurations\<close>

lemma Config_eq_iff:
  "(c :: Config) = d \<longleftrightarrow> deltaSeconds c = deltaSeconds d \<and> deltaNanoSeconds c = deltaNanoSeconds d \<and>
     clockIDsMask c = clockIDsMask d"
  by (cases c; cases d) simp

interpretation merge: comm_monoid Merge "NewConfig 0 0 0"
  by unfold_locales (simp_all add: Merge_def NewConfig_def Config_eq_iff ac_simps bit_simps or.assoc or.commute or.left_commute)

section \<open>Frames\<close>

lemma keeps_Attach:
  assumes "kernel_ok A K"
  shows "keeps (snd_rel (same_other K p)) (AttachToProcess A K elf p vs)"
  unfolding AttachToProcess_def
  by (intro other_frame2.keeps_rules other_frame.keeps_state_rules keeps_with_trace
      kernel_okD(1) [OF assms])
    (use keeps_attach_body [OF kernel_okD(1,3,5) [OF assms]] in blast)

lemma keeps_Recover:
  assumes "kernel_ok A K"
  shows "keeps (snd_rel (same_other K p)) (Recover A K p vs)"
proof -
  note laws = kernel_okD [OF assms]
  have body: "keeps (snd_rel (snd_rel (same_other K (pid P))))
      (and_then (wrap_err g (in_world (FindInjectedImage A K it P n)))
        (\<lambda>found. case found of None \<Rightarrow> ret () | Some e \<Rightarrow> TryReWriteFakeImage K P))" for P it n g
    by (intro other_frame3.keeps_rules other_frame2.keeps_state_rules other_frame.keeps_on_snd
        keeps_other [OF keeps_FindInjectedImage [OF laws(1)]] keeps_TryReWrite [OF laws(3)])
  show ?thesis
    unfolding Recover_def
    by (intro other_frame2.keeps_rules other_frame.keeps_state_rules keeps_with_trace laws(1)) (use body in blast)
qed

lemma keeps_on_image:
  "keeps (snd_rel R) m \<Longrightarrow> keeps (snd_rel R) (on_image get put m)"
  by (auto simp: keeps_def snd_rel_def on_image_def split: prod.splits) (metis snd_conv)

section \<open>Several images in one process\<close>

text \<open>
  \<open>all_live\<close> relates the world \<open>w0\<close> before any injection to a later one: every image of the list
  is live, on pages that were fresh in \<open>w0\<close>, and what was mapped in \<open>w0\<close> has changed at most in the
  sixteen bytes at the functions of the list.
\<close>

type_synonym live_image = "FakeImage \<times> Entry \<times> (string \<times> u64) list"

definition all_live ::
  "arch \<Rightarrow> ('w, 'z) kspec_scheme \<Rightarrow> int \<Rightarrow> 'w \<Rightarrow> 'w \<Rightarrow> live_image list \<Rightarrow> bool" where
  "all_live A K p w0 w L \<longleftrightarrow>
     (\<forall>(it, e, vs) \<in> set L. wf_image A it \<and> fake_live A K p it e vs w \<and>
        fresh_image K p e (length (content it)) w0 \<and> mapped_still K p w0 (OriginAddress it) 16) \<and>
     (\<forall>x \<in> still K p. mem_of K w0 p x = None \<or>
        (\<exists>(it, e, vs) \<in> set L. in_range (OriginAddress it) 16 x) \<or> mem_of K w p x = mem_of K w0 p x)"

definition disjoint16 :: "u64 \<Rightarrow> u64 \<Rightarrow> bool" where
  "disjoint16 a b \<longleftrightarrow> list_all (\<lambda>i. \<not> in_range a 16 (b + of_nat i) \<and> \<not> in_range b 16 (a + of_nat i)) [0..<16]"

lemma disjoint16D:
  "disjoint16 a b \<Longrightarrow> i < 16 \<Longrightarrow> \<not> in_range a 16 (b + of_nat i) \<and> \<not> in_range b 16 (a + of_nat i)"
  by (simp add: disjoint16_def list_all_iff)

lemma disjoint16_offset:
  assumes "16 \<le> n" "n + 16 \<le> 2 ^ 64"
  shows "disjoint16 a (a + of_nat n)"
proof -
  have "\<not> in_range a 16 (a + of_nat n + of_nat i) \<and> \<not> in_range (a + of_nat n) 16 (a + of_nat i)" if "i < 16" for i
    using in_range_offset [of "n + i" 0 16 a] in_range_offset [of i n 16 a] assms that by (simp add: add.assoc)
  then show ?thesis by (simp add: disjoint16_def list_all_iff)
qed

lemma all_live_Nil: "all_live A K p w w []"
  by (simp add: all_live_def)

lemma all_live_mapped:
  assumes "all_live A K p w0 w L" "x \<in> still K p" "mem_of K w0 p x \<noteq> None"
  shows "mem_of K w p x \<noteq> None"
proof -
  consider it e vs where "(it, e, vs) \<in> set L" "in_range (OriginAddress it) 16 x"
    | "mem_of K w p x = mem_of K w0 p x"
  proof -
    have "(\<exists>(it, e, vs) \<in> set L. in_range (OriginAddress it) 16 x) \<or> mem_of K w p x = mem_of K w0 p x"
      using assms by (auto simp: all_live_def)
    then show thesis using that by fast
  qed
  then show ?thesis
  proof cases
    case 1
    then have "holds_at (mem_of K w p) (OriginAddress it) (jump_code A (StartAddress e))"
      using assms(1) by (auto simp: all_live_def fake_live_def)
    from holds_at_in_range [OF this] 1(2) show ?thesis by simp
  qed (use assms(3) in simp)
qed

lemma kept_butD:
  "kept_but K p o' n w w' \<Longrightarrow> x \<in> still K p \<Longrightarrow> mem_of K w p x \<noteq> None \<Longrightarrow> \<not> in_range o' n x \<Longrightarrow>
     mem_of K w' p x = mem_of K w p x"
  by (auto simp: kept_but_def)

text \<open>Liveness only depends on the sixteen bytes of the function and the bytes of the image.\<close>

lemma fake_live_cong:
  assumes live: "fake_live A K p it e vs w" and wf: "wf_image A it"
    and o: "\<forall>i < 16. mem_of K w' p (OriginAddress it + of_nat i) = mem_of K w p (OriginAddress it + of_nat i)"
    and im: "\<forall>i < length (content it). mem_of K w' p (StartAddress e + of_nat i) = mem_of K w p (StartAddress e + of_nat i)"
  shows "fake_live A K p it e vs w'"
proof -
  have var: "holds_at (mem_of K w' p) (StartAddress e + of_nat off) (var_bytes A e off v)"
    if "map_of (offset it) k = Some off"
      "holds_at (mem_of K w p) (StartAddress e + of_nat off) (var_bytes A e off v)" for k off v
    unfolding holds_at_def
  proof (intro allI impI)
    fix i assume i: "i < length (var_bytes A e off v)"
    then have "off + i < length (content it)" using wf_image_slot(2) [OF wf that(1)] by simp
    then show "mem_of K w' p (StartAddress e + of_nat off + of_nat i) = Some (var_bytes A e off v ! i)"
      using im that(2) i by (simp add: holds_at_def add.assoc flip: of_nat_add)
  qed
  have "vars_set A K p it e vs w'"
    using live var unfolding fake_live_def vars_set_def by fast
  then show ?thesis
    using live o im by (simp add: fake_live_def image_at_def holds_at_def)
qed

text \<open>An image that is live stays live when another function is redirected.\<close>

lemma fake_live_kept:
  assumes live: "fake_live A K p it e vs w" and wf: "wf_image A it"
    and fresh: "fresh_image K p e (length (content it)) w0" and o: "mapped_still K p w0 (OriginAddress it) 16"
    and kept: "kept_but K p o' 16 w w'" and o': "mapped_still K p w0 o' 16"
    and dis: "disjoint16 (OriginAddress it) o'"
  shows "fake_live A K p it e vs w'"
proof (rule fake_live_cong [OF live wf]; intro allI impI)
  fix i :: nat
  show "mem_of K w' p (OriginAddress it + of_nat i) = mem_of K w p (OriginAddress it + of_nat i)" if i: "i < 16"
  proof (rule kept_butD [OF kept])
    have "holds_at (mem_of K w p) (OriginAddress it) (jump_code A (StartAddress e))"
      using live by (simp add: fake_live_def)
    then show "mem_of K w p (OriginAddress it + of_nat i) \<noteq> None" using i by (simp add: holds_at_def)
  qed (use i o disjoint16D [OF dis i] in \<open>simp_all add: mapped_still_def\<close>)
  show "mem_of K w' p (StartAddress e + of_nat i) = mem_of K w p (StartAddress e + of_nat i)"
    if i: "i < length (content it)"
    using live fresh i mapped_still_apart [OF fresh o' i]
    by (intro kept_butD [OF kept]) (simp_all add: fake_live_def image_at_def fresh_image_def)
qed

lemma all_live_kept:
  assumes "all_live A K p w0 w L" "kept_but K p o' 16 w w'" "x \<in> still K p"
  shows "mem_of K w0 p x = None \<or> in_range o' 16 x \<or>
    (\<exists>(it, e, vs) \<in> set L. in_range (OriginAddress it) 16 x) \<or> mem_of K w' p x = mem_of K w0 p x"
proof (cases "mem_of K w0 p x = None \<or> in_range o' 16 x")
  case False
  then have "mem_of K w' p x = mem_of K w p x"
    using all_live_mapped [OF assms(1,3)] kept_butD [OF assms(2,3)] by blast
  moreover have "(\<exists>(it, e, vs) \<in> set L. in_range (OriginAddress it) 16 x) \<or> mem_of K w p x = mem_of K w0 p x"
    using assms(1,3) False by (auto simp: all_live_def)
  ultimately show ?thesis by auto
qed blast

lemma all_live_step:
  assumes ok: "kernel_ok A K" and clean: "clean_mmap A K p (length (content it)) w"
    and page: "Getpagesize K = 2 ^ k" "k < 64" "length (content it) + 2 ^ k \<le> 2 ^ 64"
    and im: "fakeEntry it = None" "wf_image A it" "distinct (map fst vs)"
    and run: "AttachToProcess A K elf p vs (it, w) = (Ok u, (it', w'))"
    and L: "all_live A K p w0 w L"
    and o: "mapped_still K p w0 (OriginAddress it') 16"
      "\<forall>(im, e, ws) \<in> set L. disjoint16 (OriginAddress im) (OriginAddress it')"
  shows "\<exists>e. fakeEntry it' = Some e \<and> all_live A K p w0 w' ((it', e, vs) # L)"
proof -
  have o1: "mapped_still K p w (OriginAddress it') 16"
    using o(1) all_live_mapped [OF L] by (simp add: mapped_still_def)
  obtain e code where it': "it' = it\<lparr>fakeEntry := Some e, OriginFuncCode := Some code, OriginAddress := OriginAddress it'\<rparr>"
      and live: "fake_live A K p it' e vs w'" and fresh: "fresh_image K p e (length (content it)) w"
      and kept: "kept_but K p (OriginAddress it') 16 w w'"
    using Attach_Ok [OF ok clean page im run o1] by blast
  have same: "content it' = content it" "offset it' = offset it" "fakeEntry it' = Some e"
    by (subst it', simp)+
  have fresh0: "fresh_image K p e (length (content it')) w0"
    using fresh all_live_mapped [OF L] by (fastforce simp: fresh_image_def same)
  have wf: "wf_image A it'" using im(2) by (simp add: wf_image_def text_len_def same)
  have old: "wf_image A im \<and> fake_live A K p im e2 ws w' \<and> fresh_image K p e2 (length (content im)) w0 \<and>
      mapped_still K p w0 (OriginAddress im) 16" if m: "(im, e2, ws) \<in> set L" for im e2 ws
  proof -
    have m1: "wf_image A im" "fake_live A K p im e2 ws w" "fresh_image K p e2 (length (content im)) w0"
        "mapped_still K p w0 (OriginAddress im) 16"
      using L m by (auto simp: all_live_def)
    moreover have "disjoint16 (OriginAddress im) (OriginAddress it')" using o(2) m by fast
    ultimately show ?thesis using fake_live_kept [OF m1(2,1,3,4) kept o(1)] by simp
  qed
  have "all_live A K p w0 w' ((it', e, vs) # L)"
    unfolding all_live_def
  proof (intro conjI ballI)
    fix m assume m: "m \<in> set ((it', e, vs) # L)"
    obtain im e2 ws where [simp]: "m = (im, e2, ws)" by (cases m)
    show "case m of (im, e2, ws) \<Rightarrow> wf_image A im \<and> fake_live A K p im e2 ws w' \<and>
        fresh_image K p e2 (length (content im)) w0 \<and> mapped_still K p w0 (OriginAddress im) 16"
      using m old wf live fresh0 o(1) by auto
  next
    fix x assume "x \<in> still K p"
    from all_live_kept [OF L kept this]
    show "mem_of K w0 p x = None \<or> (\<exists>(im, e2, ws) \<in> set ((it', e, vs) # L). in_range (OriginAddress im) 16 x) \<or>
        mem_of K w' p x = mem_of K w0 p x"
      by auto
  qed
  with same(3) show ?thesis by blast
qed

section \<open>What a recovery can touch\<close>

lemma with_trace_frame:
  assumes "readers_ok K" and "\<And>w1 w2. same_mem K w1 w2 \<Longrightarrow> R w1 w2"
    and trans: "\<And>w1 w2 w3. R w1 w2 \<Longrightarrow> R w2 w3 \<Longrightarrow> R w1 w3"
    and body: "\<And>P b w1 r it' b' w2. pid P = p \<Longrightarrow> body P (it, (b, w1)) = (r, (it', (b', w2))) \<Longrightarrow> R w1 w2"
    and run: "with_trace A K p msg body (it, w) = (r, (it', w'))"
  shows "R w w'"
proof -
  obtain r1 w1 where t: "Trace K (unixInstrSize A) p w = (r1, w1)" by fastforce
  have w1: "R w w1" by (rule assms(2) [OF keepsD [OF keeps_Trace [OF assms(1)] t]])
  show ?thesis
  proof (cases "\<exists>P b. r1 = Ok (P, b)")
    case True
    then obtain P b where Pb: "r1 = Ok (P, b)" by blast
    then have P: "pid P = p" using Trace_Ok(1) [of K _ p w P b w1] t by blast
    obtain r2 it2 b2 w2 where bd: "body P (it, (b, w1)) = (r2, (it2, (b2, w2)))" by (metis surj_pair)
    have "w' = snd (Detach K P w2)" using run t Pb bd by (simp add: with_trace_def)
    moreover have "R w2 (snd (Detach K P w2))" by (rule assms(2) [OF Detach_same_mem [OF assms(1)]])
    ultimately show ?thesis using trans [OF w1 trans [OF body [OF P bd]]] by simp
  next
    case False
    with run t w1 show ?thesis by (cases r1) (auto simp: with_trace_def)
  qed
qed

lemma Recover_frame:
  assumes ok: "kernel_ok A K" and fits: "\<And>code. OriginFuncCode it = Some code \<Longrightarrow> align8 (length code) \<le> 2 ^ 64"
    and run: "Recover A K p vs (it, w) = (r, (it', w'))"
  shows "case OriginFuncCode it of None \<Rightarrow> w' = w
    | Some code \<Rightarrow> same_but K p (OriginAddress it) (align8 (length code)) w w'"
proof (cases "OriginFuncCode it")
  case None
  with run show ?thesis by (simp add: Recover_def and_then_def get_fst_def ret_def)
next
  case (Some code)
  note laws = kernel_okD [OF ok]
  let ?R = "same_but K p (OriginAddress it) (align8 (length code))"
  let ?body = "\<lambda>P. and_then (wrap_err (\<lambda>e. Errorf ''%T FindInjectedImage , pid: %d'' [e])
      (in_world (FindInjectedImage A K it P (length vs)))) (\<lambda>found.
       case found of None \<Rightarrow> ret () | Some e \<Rightarrow> TryReWriteFakeImage K P)"
  have wt: "with_trace A K p ''%T ptrace on target process, pid: %d'' ?body (it, w) = (r, (it', w'))"
    using run Some by (simp add: Recover_def and_then_def get_fst_def)
  have "?R w w'"
  proof (rule with_trace_frame [OF laws(1) same_mem_but same_but_trans _ wt])
    fix P b w1 r1 it1 b1 w2
    assume P: "pid P = p" and bd: "?body P (it, (b, w1)) = (r1, (it1, (b1, w2)))"
    obtain rf w3 where f: "FindInjectedImage A K it P (length vs) w1 = (rf, w3)" by fastforce
    have m: "?R w1 w3" by (rule same_mem_but [OF keepsD [OF keeps_FindInjectedImage [OF laws(1)] f]])
    obtain rw w4 where wr: "PtraceWriteSlice K P (OriginAddress it) code w3 = (rw, w4)" by fastforce
    have "?R w3 w4" using PtraceWriteSlice_same_but [OF laws(3) wr fits [OF Some]] by (simp add: P)
    moreover have "w2 = w3 \<or> w2 = w4"
      using bd f wr Some
      by (cases rf)
        (auto simp: and_then_def wrap_err_def on_snd_def ret_def TryReWriteFakeImage_def get_fst_def put_fst_def
          split: option.splits res.splits)
    ultimately show "?R w1 w2" using m same_but_trans [OF m] by blast
  qed
  with Some show ?thesis by simp
qed

section \<open>Properties\<close>

text \<open>
  Merging two time-skew configurations is commutative and associative, the empty configuration
  is neutral, and a copy is equal to its original. The seconds wrap around like \<open>int64\<close>.
\<close>

theorem Merge_comm_monoid:
  "Merge (Merge a b) c = Merge a (Merge b c) \<and> Merge a b = Merge b a \<and>
   Merge a (NewConfig 0 0 0) = a \<and> DeepCopy a = a \<and>
   deltaNanoSeconds (Merge a b) = deltaNanoSeconds a + deltaNanoSeconds b"
  by (intro conjI merge.assoc merge.commute merge.right_neutral) (simp_all add: Merge_def DeepCopy_def)

text \<open>
  C21: neither \<open>Inject\<close> nor \<open>Recover\<close> of a skew writes the memory of another process, whatever the
  outcome.
\<close>

theorem Skew_other_processes:
  assumes "kernel_ok A K"
    and "Skew_Inject A K elf ord sysPID (s, w) = (r, (s', w')) \<or> Skew_Recover A K sysPID (s, w) = (r, (s', w'))"
  shows "\<forall>q. \<forall>x \<in> still K q. q = sint sysPID \<or> mem_of K w' q x = mem_of K w q x"
proof -
  let ?R = "snd_rel (same_other K (sint sysPID))"
  have inj: "keeps ?R (Skew_Inject A K elf ord sysPID)"
    unfolding Skew_Inject_def Let_def
    by (intro other_frame2.keeps_rules other_frame.keeps_state_rules keeps_on_image keeps_Attach assms(1))
  have rec: "keeps ?R (Skew_Recover A K sysPID)"
    unfolding Skew_Recover_def Let_def
    by (intro other_frame2.keeps_rules other_frame.keeps_state_rules keeps_on_image keeps_Recover assms(1))
  have "?R (s, w) (s', w')" using assms(2) keepsD [OF inj] keepsD [OF rec] by blast
  then show ?thesis by (simp add: same_other_def)
qed

text \<open>
  The three attachments of \<open>Skew_Inject\<close> one after the other, each as its own run. On an image that
  is absent there is none.
\<close>

lemma on_image_Ok:
  "on_image get put m (s, w) = (Ok u, (s', w')) \<longleftrightarrow> (\<exists>im. m (get s, w) = (Ok u, (im, w')) \<and> s' = put im s)"
  by (auto simp: on_image_def split: prod.splits)

lemma Skew_Inject_run:
  assumes "Skew_Inject A K elf ord sysPID (s, w) = (Ok u, (s', w'))"
  obtains w1 w2 where
    "case time_image s of
       None \<Rightarrow> w1 = w \<and> time_image s' = None
     | Some im \<Rightarrow> \<exists>im'. time_image s' = Some im' \<and>
         AttachToProcess A K elf (sint sysPID) (ord 0 (time_vars (SkewConfig s))) (im, w) = (Ok (), (im', w1))"
    "AttachToProcess A K elf (sint sysPID) (ord 1 (clock_vars (SkewConfig s))) (clockGetTime s, w1) =
       (Ok (), (clockGetTime s', w2))"
    "AttachToProcess A K elf (sint sysPID) (ord 2 (time_vars (SkewConfig s))) (getTimeOfDay s, w2) =
       (Ok (), (getTimeOfDay s', w'))"
  using assms
  by (cases "time_image s") (auto simp: Skew_Inject_def Let_def io_ok on_image_Ok)

text \<open>The first \<open>mmap\<close> of each of the three attachments does not fail half way.\<close>

definition clean_inject ::
  "arch \<Rightarrow> ('w, 'z) kernel_scheme \<Rightarrow> (byte list \<Rightarrow> elf_file res) \<Rightarrow>
     (nat \<Rightarrow> (string \<times> u64) list \<Rightarrow> (string \<times> u64) list) \<Rightarrow> int \<Rightarrow> Skew \<Rightarrow> 'w \<Rightarrow> bool" where
  "clean_inject A K elf ord p s w \<longleftrightarrow>
     (let w1 = (case time_image s of None \<Rightarrow> w
                | Some im \<Rightarrow> snd (snd (AttachToProcess A K elf p (ord 0 (time_vars (SkewConfig s))) (im, w))));
          w2 = snd (snd (AttachToProcess A K elf p (ord 1 (clock_vars (SkewConfig s))) (clockGetTime s, w1)))
      in (case time_image s of None \<Rightarrow> True | Some im \<Rightarrow> clean_mmap A K p (length (content im)) w) \<and>
         clean_mmap A K p (length (content (clockGetTime s))) w1 \<and>
         clean_mmap A K p (length (content (getTimeOfDay s))) w2)"

text \<open>The states in which the second and the third attachment begin.\<close>

definition before_clock ::
  "arch \<Rightarrow> ('w, 'z) kernel_scheme \<Rightarrow> (byte list \<Rightarrow> elf_file res) \<Rightarrow>
     (nat \<Rightarrow> (string \<times> u64) list \<Rightarrow> (string \<times> u64) list) \<Rightarrow> int \<Rightarrow> Skew \<Rightarrow> 'w \<Rightarrow> 'w" where
  "before_clock A K elf ord p s w =
     (case time_image s of None \<Rightarrow> w
      | Some im \<Rightarrow> snd (snd (AttachToProcess A K elf p (ord 0 (time_vars (SkewConfig s))) (im, w))))"

definition before_day ::
  "arch \<Rightarrow> ('w, 'z) kernel_scheme \<Rightarrow> (byte list \<Rightarrow> elf_file res) \<Rightarrow>
     (nat \<Rightarrow> (string \<times> u64) list \<Rightarrow> (string \<times> u64) list) \<Rightarrow> int \<Rightarrow> Skew \<Rightarrow> 'w \<Rightarrow> 'w" where
  "before_day A K elf ord p s w =
     snd (snd (AttachToProcess A K elf p (ord 1 (clock_vars (SkewConfig s)))
       (clockGetTime s, before_clock A K elf ord p s w)))"

definition fresh_skew :: "arch \<Rightarrow> Skew \<Rightarrow> bool" where
  "fresh_skew A s \<longleftrightarrow>
     list_all (\<lambda>im. fakeEntry im = None \<and> wf_image A im \<and> length (content im) < 2 ^ 48)
       ((case time_image s of None \<Rightarrow> [] | Some im \<Rightarrow> [im]) @ [clockGetTime s, getTimeOfDay s])"

definition origins :: "Skew \<Rightarrow> u64 list" where
  "origins s = (case time_image s of None \<Rightarrow> [] | Some im \<Rightarrow> [OriginAddress im]) @
     [OriginAddress (clockGetTime s), OriginAddress (getTimeOfDay s)]"

lemma distinct_vars [simp]: "distinct (map fst (time_vars c))" "distinct (map fst (clock_vars c))"
  by (simp_all add: time_vars_def clock_vars_def)

lemma distinct_perm:
  "mset ys = mset xs \<Longrightarrow> distinct (map fst xs) \<Longrightarrow> distinct (map fst ys)"
  by (metis mset_eq_imp_distinct_iff mset_map)

text \<open>An image that is live in \<open>w'\<close>, on pages that were fresh in \<open>w\<close>.\<close>

definition live_in :: "arch \<Rightarrow> ('w, 'z) kspec_scheme \<Rightarrow> int \<Rightarrow> 'w \<Rightarrow> 'w \<Rightarrow> live_image \<Rightarrow> bool" where
  "live_in A K p w w' im \<longleftrightarrow>
     (case im of (it, e, vs) \<Rightarrow> wf_image A it \<and> fake_live A K p it e vs w' \<and>
        fresh_image K p e (length (content it)) w \<and> mapped_still K p w (OriginAddress it) 16)"

lemma live_in_fake: "live_in A K p w w' (it, e, vs) \<Longrightarrow> fake_live A K p it e vs w'"
  by (simp add: live_in_def)

text \<open>It stays live as long as the memory of its process is not written.\<close>

lemma live_in_unwritten:
  assumes "live_in A K p w w' (it, e, vs)" "\<forall>x \<in> still K p. mem_of K w'' p x = mem_of K w' p x"
  shows "live_in A K p w w'' (it, e, vs)"
proof -
  have live: "fake_live A K p it e vs w'" and wf: "wf_image A it"
    and fresh: "fresh_image K p e (length (content it)) w" and o: "mapped_still K p w (OriginAddress it) 16"
    using assms(1) by (simp_all add: live_in_def)
  have "fake_live A K p it e vs w''"
    by (rule fake_live_cong [OF live wf]) (use assms(2) fresh o in \<open>simp_all add: fresh_image_def mapped_still_def\<close>)
  with wf fresh o show ?thesis by (simp add: live_in_def)
qed

lemma Skew_Inject_live:
  assumes ok: "kernel_ok A K" and page: "Getpagesize K = 2 ^ k" "k \<le> 32"
    and fresh: "fresh_skew A s" and clean: "clean_inject A K elf ord (sint sysPID) s w"
    and ord: "\<And>i vs. mset (ord i vs) = mset vs"
    and run: "Skew_Inject A K elf ord sysPID (s, w) = (Ok u, (s', w'))"
    and fn: "list_all (\<lambda>o1. mapped_still K (sint sysPID) w o1 16) (origins s')"
      "sorted_wrt disjoint16 (origins s')"
  shows "(\<forall>im. time_image s' = Some im \<longrightarrow>
      (\<exists>e. live_in A K (sint sysPID) w w' (im, e, ord 0 (time_vars (SkewConfig s))))) \<and>
    (\<exists>e. live_in A K (sint sysPID) w w' (clockGetTime s', e, ord 1 (clock_vars (SkewConfig s)))) \<and>
    (\<exists>e. live_in A K (sint sysPID) w w' (getTimeOfDay s', e, ord 2 (time_vars (SkewConfig s))))"
proof -
  let ?p = "sint sysPID" and ?tv = "time_vars (SkewConfig s)" and ?cv = "clock_vars (SkewConfig s)"
  obtain w1 w2 where
    t: "case time_image s of
       None \<Rightarrow> w1 = w \<and> time_image s' = None
     | Some im \<Rightarrow> \<exists>im'. time_image s' = Some im' \<and> AttachToProcess A K elf ?p (ord 0 ?tv) (im, w) = (Ok (), (im', w1))"
    and c: "AttachToProcess A K elf ?p (ord 1 ?cv) (clockGetTime s, w1) = (Ok (), (clockGetTime s', w2))"
    and d: "AttachToProcess A K elf ?p (ord 2 ?tv) (getTimeOfDay s, w2) = (Ok (), (getTimeOfDay s', w'))"
    by (rule Skew_Inject_run [OF run])
  have dv: "distinct (map fst (ord i ?tv))" "distinct (map fst (ord i ?cv))" for i
    using distinct_perm [OF ord] distinct_vars by blast+
  have k: "k < 64" using page(2) by simp
  have small: "n + 2 ^ k \<le> 2 ^ 64" if "n < 2 ^ 48" for n :: nat
  proof -
    have "(2::nat) ^ k \<le> 2 ^ 32" using page(2) by (intro power_increasing) simp_all
    with that show ?thesis by simp
  qed
  note step = all_live_step [OF ok _ page(1) k small]
  have w1: "w1 = (case time_image s of None \<Rightarrow> w
      | Some im \<Rightarrow> snd (snd (AttachToProcess A K elf ?p (ord 0 ?tv) (im, w))))"
    using t by (auto split: option.splits)
  have cl: "clean_mmap A K ?p (length (content (clockGetTime s))) w1"
    "clean_mmap A K ?p (length (content (getTimeOfDay s))) w2"
    using clean c unfolding clean_inject_def Let_def w1 [symmetric] by simp_all
  have "\<exists>L. all_live A K ?p w w1 L \<and> map (OriginAddress \<circ> fst) L = butlast (butlast (origins s')) \<and>
      (\<forall>im. time_image s' = Some im \<longrightarrow> (\<exists>e. L = [(im, e, ord 0 ?tv)]))"
  proof (cases "time_image s")
    case None
    with t show ?thesis using all_live_Nil by (intro exI [of _ "[]"]) (simp add: origins_def)
  next
    case (Some im)
    with t obtain im' where im': "time_image s' = Some im'"
        and run: "AttachToProcess A K elf ?p (ord 0 ?tv) (im, w) = (Ok (), (im', w1))"
      by auto
    have "\<exists>e. fakeEntry im' = Some e \<and> all_live A K ?p w w1 [(im', e, ord 0 ?tv)]"
      using fresh clean fn Some im' dv run
      by (intro step [OF _ _ _ _ _ run all_live_Nil])
        (auto simp: fresh_skew_def clean_inject_def Let_def origins_def)
    then show ?thesis using im' by (auto simp: origins_def)
  qed
  then obtain L where L: "all_live A K ?p w w1 L" "map (OriginAddress \<circ> fst) L = butlast (butlast (origins s'))"
      "\<forall>im. time_image s' = Some im \<longrightarrow> (\<exists>e. L = [(im, e, ord 0 ?tv)])"
    by blast
  let ?oc = "OriginAddress (clockGetTime s')" and ?od = "OriginAddress (getTimeOfDay s')"
  have "origins s' = map (OriginAddress \<circ> fst) L @ [?oc, ?od]"
    using L(2) by (simp add: origins_def butlast_append)
  then have o: "mapped_still K ?p w ?oc 16" "mapped_still K ?p w ?od 16" "disjoint16 ?oc ?od"
    "\<forall>(im, e, ws) \<in> set L. disjoint16 (OriginAddress im) ?oc \<and> disjoint16 (OriginAddress im) ?od"
    using fn by (auto simp: sorted_wrt_append)
  obtain ec where ec: "all_live A K ?p w w2 ((clockGetTime s', ec, ord 1 ?cv) # L)"
    using step [OF cl(1) _ _ _ dv(2) c L(1) o(1)] fresh o(4) by (auto simp: fresh_skew_def)
  obtain ed where ed: "all_live A K ?p w w' ((getTimeOfDay s', ed, ord 2 ?tv) # (clockGetTime s', ec, ord 1 ?cv) # L)"
    using step [OF cl(2) _ _ _ dv(1) d ec o(2)] fresh o(3,4) by (auto simp: fresh_skew_def)
  then have live: "live_in A K ?p w w' im"
    if "im \<in> set ((getTimeOfDay s', ed, ord 2 ?tv) # (clockGetTime s', ec, ord 1 ?cv) # L)" for im
    using that by (auto simp: all_live_def live_in_def)
  have "\<exists>e. live_in A K ?p w w' (im, e, ord 0 ?tv)" if "time_image s' = Some im" for im
    using L(3) that live by fastforce
  then show ?thesis using live by (metis list.set_intros)
qed

text \<open>Each function that is redirected is the vDSO symbol with the name of its image.\<close>

lemma Skew_Inject_symbols:
  assumes ok: "kernel_ok A K" and page: "Getpagesize K = 2 ^ k" "k \<le> 32"
    and fresh: "fresh_skew A s" and clean: "clean_inject A K elf ord (sint sysPID) s w"
    and run: "Skew_Inject A K elf ord sysPID (s, w) = (Ok u, (s', w'))"
  shows "case time_image s of None \<Rightarrow> time_image s' = None
      | Some im \<Rightarrow> \<exists>im'. time_image s' = Some im' \<and>
          vdso_symbol A K elf (sint sysPID) w (symbolName im) (OriginAddress im')"
    "vdso_symbol A K elf (sint sysPID) (before_clock A K elf ord (sint sysPID) s w)
       (symbolName (clockGetTime s)) (OriginAddress (clockGetTime s'))"
    "vdso_symbol A K elf (sint sysPID) (before_day A K elf ord (sint sysPID) s w)
       (symbolName (getTimeOfDay s)) (OriginAddress (getTimeOfDay s'))"
proof -
  let ?p = "sint sysPID"
  have k: "(2::nat) ^ k \<le> 2 ^ 32" using page(2) by (intro power_increasing) simp_all
  have sym: "vdso_symbol A K elf ?p w1 (symbolName im) (OriginAddress im')"
    if "AttachToProcess A K elf ?p vs (im, w1) = (Ok (), (im', w2))" "clean_mmap A K ?p (length (content im)) w1"
      "fakeEntry im = None" "length (content im) < 2 ^ 48" for vs im im' w1 w2
    by (rule Attach_symbol [OF ok that(2) page(1) _ _ that(3,1)]) (use page(2) k that(4) in simp_all)
  obtain w1 w2 where t: "case time_image s of
       None \<Rightarrow> w1 = w \<and> time_image s' = None
     | Some im \<Rightarrow> \<exists>im'. time_image s' = Some im' \<and>
         AttachToProcess A K elf ?p (ord 0 (time_vars (SkewConfig s))) (im, w) = (Ok (), (im', w1))"
    and c: "AttachToProcess A K elf ?p (ord 1 (clock_vars (SkewConfig s))) (clockGetTime s, w1) =
       (Ok (), (clockGetTime s', w2))"
    and d: "AttachToProcess A K elf ?p (ord 2 (time_vars (SkewConfig s))) (getTimeOfDay s, w2) =
       (Ok (), (getTimeOfDay s', w'))"
    by (rule Skew_Inject_run [OF run])
  have w1: "before_clock A K elf ord ?p s w = w1" using t by (auto simp: before_clock_def split: option.splits)
  then have w2: "before_day A K elf ord ?p s w = w2" using c by (simp add: before_day_def)
  have cl: "case time_image s of None \<Rightarrow> True | Some im \<Rightarrow> clean_mmap A K ?p (length (content im)) w"
    "clean_mmap A K ?p (length (content (clockGetTime s))) w1" "clean_mmap A K ?p (length (content (getTimeOfDay s))) w2"
    using clean w1 w2 by (simp_all add: clean_inject_def before_day_def Let_def flip: before_clock_def)
  show "case time_image s of None \<Rightarrow> time_image s' = None
      | Some im \<Rightarrow> \<exists>im'. time_image s' = Some im' \<and> vdso_symbol A K elf ?p w (symbolName im) (OriginAddress im')"
  proof (cases "time_image s")
    case (Some im)
    with t cl(1) fresh sym show ?thesis by (fastforce simp: fresh_skew_def)
  qed (use t in simp)
  show "vdso_symbol A K elf ?p (before_clock A K elf ord ?p s w) (symbolName (clockGetTime s)) (OriginAddress (clockGetTime s'))"
    unfolding w1 by (rule sym [OF c cl(2)]) (use fresh in \<open>simp_all add: fresh_skew_def\<close>)
  show "vdso_symbol A K elf ?p (before_day A K elf ord ?p s w) (symbolName (getTimeOfDay s)) (OriginAddress (getTimeOfDay s'))"
    unfolding w2 by (rule sym [OF d cl(3)]) (use fresh in \<open>simp_all add: fresh_skew_def\<close>)
qed

text \<open>
  C3: a successful \<open>Inject\<close> of a skew that was just loaded makes all its fake functions live at
  once: none of the later injections disturbs an earlier one. The functions must be mapped before,
  at addresses at least sixteen bytes apart, and no \<open>mmap\<close> may fail half way.
\<close>

theorem Skew_Inject_all_live:
  assumes ok: "kernel_ok A K" and page: "Getpagesize K = 2 ^ k" "k \<le> 32"
    and fresh: "fresh_skew A s" and clean: "clean_inject A K elf ord (sint sysPID) s w"
    and ord: "\<And>i vs. mset (ord i vs) = mset vs"
    and run: "Skew_Inject A K elf ord sysPID (s, w) = (Ok u, (s', w'))"
    and fn: "list_all (\<lambda>o1. mapped_still K (sint sysPID) w o1 16) (origins s')"
      "sorted_wrt disjoint16 (origins s')"
  shows "(\<forall>im. time_image s' = Some im \<longrightarrow>
      (\<exists>e. fake_live A K (sint sysPID) im e (ord 0 (time_vars (SkewConfig s))) w')) \<and>
    (\<exists>e. fake_live A K (sint sysPID) (clockGetTime s') e (ord 1 (clock_vars (SkewConfig s))) w') \<and>
    (\<exists>e. fake_live A K (sint sysPID) (getTimeOfDay s') e (ord 2 (time_vars (SkewConfig s))) w')"
  using Skew_Inject_live [OF ok page fresh clean ord run fn] live_in_fake by fast

text \<open>
  C38: \<open>Recover\<close> of a skew recovers two of the three functions. Whatever its outcome, the image for
  \<open>time\<close> keeps its saved code, and if it was live it still is, so on amd64 the process goes on
  seeing the skewed \<open>time\<close>.
\<close>

theorem Skew_Recover_skips_time:
  assumes ok: "kernel_ok A K" and im: "time_image s = Some im" "wf_image A im"
    and live: "fake_live A K (sint sysPID) im e vs w"
    and st: "\<forall>i < length (content im). StartAddress e + of_nat i \<in> still K (sint sysPID)"
      "\<forall>i < 16. OriginAddress im + of_nat i \<in> still K (sint sysPID)"
    and out: "\<And>f code. f \<in> {clockGetTime s, getTimeOfDay s} \<Longrightarrow> OriginFuncCode f = Some code \<Longrightarrow>
      align8 (length code) \<le> 2 ^ 64 \<and>
      (\<forall>i < 16. \<not> in_range (OriginAddress f) (align8 (length code)) (OriginAddress im + of_nat i)) \<and>
      (\<forall>i < length (content im). \<not> in_range (OriginAddress f) (align8 (length code)) (StartAddress e + of_nat i))"
    and run: "Skew_Recover A K sysPID (s, w) = (r, (s', w'))"
  shows "time_image s' = Some im \<and> fake_live A K (sint sysPID) im e vs w'"
proof -
  let ?p = "sint sysPID"
  have safe: "mem_of K w2 ?p x = mem_of K w1 ?p x"
    if f: "f \<in> {clockGetTime s, getTimeOfDay s}" and rec: "Recover A K ?p ws (f, w1) = (r1, (f', w2))"
      and x: "(\<exists>i < 16. x = OriginAddress im + of_nat i) \<or> (\<exists>i < length (content im). x = StartAddress e + of_nat i)"
    for f ws w1 r1 f' w2 x
  proof -
    have "case OriginFuncCode f of None \<Rightarrow> w2 = w1
        | Some code \<Rightarrow> same_but K ?p (OriginAddress f) (align8 (length code)) w1 w2"
      using out [OF f] by (intro Recover_frame [OF ok _ rec]) blast
    moreover have "x \<in> still K ?p" using x st by auto
    ultimately show ?thesis
      using out [OF f] x same_butD by (fastforce split: option.splits)
  qed
  obtain r1 c' w1 where c: "Recover A K ?p (clock_vars (SkewConfig s)) (clockGetTime s, w) = (r1, (c', w1))"
    by (metis surj_pair)
  obtain r2 d' w2 where d: "Recover A K ?p (time_vars (SkewConfig s)) (getTimeOfDay s, w1) = (r2, (d', w2))"
    by (metis surj_pair)
  have "time_image s' = Some im \<and> (w' = w1 \<or> w' = w2)"
    using run c d im(1)
    by (cases r1; cases r2)
      (auto simp: Skew_Recover_def Let_def and_then_def get_fst_def attempt_def on_image_def throw_def ret_def)
  moreover have "mem_of K w1 ?p x = mem_of K w ?p x \<and> mem_of K w2 ?p x = mem_of K w ?p x"
    if "(\<exists>i < 16. x = OriginAddress im + of_nat i) \<or> (\<exists>i < length (content im). x = StartAddress e + of_nat i)" for x
    using safe [OF _ c that] safe [OF _ d that] by simp
  ultimately show ?thesis
    using fake_live_cong [OF live im(2), of w'] by blast
qed

section \<open>A concrete skew\<close>

definition skew_elf :: "byte list \<Rightarrow> elf_file res" where
  "skew_elf bs = Ok \<lparr>Machine = EM_X86_64, ByteOrder = LittleEndian,
     Progs = [\<lparr>prog_type = PT_LOAD, prog_vaddr = 0, prog_off = 0\<rparr>], Sections = [], Symbols = Ok [],
     DynamicSymbols = Ok [\<lparr>sym_name = ''clock_gettime'', sym_value = 0, sym_size = 16\<rparr>,
       \<lparr>sym_name = ''gettimeofday'', sym_value = 16, sym_size = 16\<rparr>]\<rparr>"

definition demo_skew :: "FakeImage option \<Rightarrow> Skew" where
  "demo_skew t =
     \<lparr>SkewConfig = NewConfig 1 2 1, time_image = t,
      clockGetTime = NewFakeImage ''clock_gettime'' (replicate 32 0)
        [(''CLOCK_IDS_MASK'', 8), (''TV_SEC_DELTA'', 16), (''TV_NSEC_DELTA'', 24)],
      getTimeOfDay = NewFakeImage ''gettimeofday'' (replicate 24 0)
        [(''TV_SEC_DELTA'', 8), (''TV_NSEC_DELTA'', 16)]\<rparr>"

abbreviation demo_inject :: "unit res \<times> Skew \<times> sim" where
  "demo_inject \<equiv> Skew_Inject AMD64 (sim_kernel AMD64) skew_elf (\<lambda>_ vs. vs) 7 (demo_skew None, attach_world)"

lemma demo_inject_run:
  "case demo_inject of (r, (s', w')) \<Rightarrow> is_ok r \<and> time_image s' = None \<and>
     OriginAddress (clockGetTime s') = 0x1000 \<and> OriginAddress (getTimeOfDay s') = 0x1010"
  by (simp add: Skew_Inject_def demo_skew_def time_vars_def clock_vars_def NewConfig_def skew_elf_def
      on_image_def attach_eval)

lemma demo_inject_Ok:
  obtains s' w' where "demo_inject = (Ok (), (s', w'))" "origins s' = [0x1000, 0x1010]"
proof -
  obtain r s' w' where run: "demo_inject = (r, (s', w'))" by (metis surj_pair)
  with demo_inject_run have "is_ok r \<and> time_image s' = None \<and>
      OriginAddress (clockGetTime s') = 0x1000 \<and> OriginAddress (getTimeOfDay s') = 0x1010"
    by simp
  with run that show thesis by (cases r) (auto simp: origins_def)
qed

lemma demo_fresh: "fresh_skew AMD64 (demo_skew None)"
  by (simp add: fresh_skew_def demo_skew_def NewFakeImage_def wf_image_def text_len_def varLength_def)

lemma demo_clean_inject:
  "clean_inject AMD64 (sim_kernel AMD64) skew_elf (\<lambda>_ vs. vs) 7 (demo_skew None) attach_world"
  by (simp add: clean_inject_def clean_mmap_def demo_skew_def time_vars_def clock_vars_def NewConfig_def
      skew_elf_def on_image_def attach_eval)

lemma demo_mapped2: "mapped_still (sim_kernel A) 7 attach_world 0x1010 16"
proof -
  have "mapped (s_mem attach_world 7) 0x1010 16" by simp
  then show ?thesis unfolding mapped_iff mapped_still_def by simp
qed

lemma disjoint_demo: "disjoint16 0x1000 0x1010"
  using disjoint16_offset [of 16 "0x1000"] by simp

theorem Skew_Inject_all_live_witness:
  "\<exists>s' w' e. demo_inject = (Ok (), (s', w')) \<and>
     fake_live AMD64 (sim_kernel AMD64) 7 (clockGetTime s') e (clock_vars (NewConfig 1 2 1)) w'"
proof -
  obtain s' w' where run: "demo_inject = (Ok (), (s', w'))" and o: "origins s' = [0x1000, 0x1010]"
    by (rule demo_inject_Ok)
  have "\<exists>e. fake_live AMD64 (sim_kernel AMD64) 7 (clockGetTime s') e (clock_vars (NewConfig 1 2 1)) w'"
    using Skew_Inject_all_live [OF sim_kernel_ok _ _ demo_fresh _ _ run, of 4]
      demo_clean_inject demo_mapped demo_mapped2 disjoint_demo
    by (simp add: o demo_skew_def)
  with run show ?thesis by blast
qed

theorem Skew_other_processes_witness:
  "\<exists>s' w'. demo_inject = (Ok (), (s', w')) \<and> s_mem w' 8 0x1000 = s_mem attach_world 8 0x1000"
proof -
  obtain s' w' where run: "demo_inject = (Ok (), (s', w'))" by (rule demo_inject_Ok)
  have "s_mem w' 8 0x1000 = s_mem attach_world 8 0x1000"
    using Skew_other_processes [OF sim_kernel_ok disjI1 [OF run], THEN spec, of 8] by simp
  with run show ?thesis by blast
qed

text \<open>The image for \<open>time\<close> has been injected, the two others are recovered without effect.\<close>

theorem Skew_Recover_skips_time_witness:
  "\<exists>it1 w1 r s' w' e. demo_attach 16 = (Ok (), (it1, w1)) \<and>
     Skew_Recover AMD64 (sim_kernel AMD64) 7 (demo_skew (Some it1), w1) = (r, (s', w')) \<and>
     fake_live AMD64 (sim_kernel AMD64) 7 it1 e [(''V'', 5)] w'"
proof -
  obtain it1 w1 where run: "demo_attach 16 = (Ok (), (it1, w1))" and o: "OriginAddress it1 = 0x1000"
    by (rule demo_attached [of 16]) simp_all
  obtain e where im: "wf_image AMD64 it1" "fakeEntry it1 = Some e" by (rule demo_live [OF run o])
  have live: "\<exists>e. fake_live AMD64 (sim_kernel AMD64) 7 it1 e [(''V'', 5)] w1"
    using Attach_Ok [OF sim_kernel_ok _ _ _ _ demo_wf(2,1) _ run, of 4] demo_clean demo_mapped o
    by (auto simp: demo_wf)
  then obtain e where live: "fake_live AMD64 (sim_kernel AMD64) 7 it1 e [(''V'', 5)] w1" by blast
  obtain r s' w' where rec: "Skew_Recover AMD64 (sim_kernel AMD64) 7 (demo_skew (Some it1), w1) = (r, (s', w'))"
    by (metis surj_pair)
  have none: "OriginFuncCode f = None"
    if "f \<in> {clockGetTime (demo_skew (Some it1)), getTimeOfDay (demo_skew (Some it1))}" for f
    using that by (auto simp: demo_skew_def NewFakeImage_def)
  have "time_image (demo_skew (Some it1)) = Some it1" by (simp add: demo_skew_def)
  from Skew_Recover_skips_time [OF sim_kernel_ok this im(1) _ _ _ _ rec, of e "[(''V'', 5)]"] live none
  have "fake_live AMD64 (sim_kernel AMD64) 7 it1 e [(''V'', 5)] w'" by simp
  with run rec show ?thesis by blast
qed

end
