(* ===== verification/DateParser.thy ===== *)
theory DateParser
  imports GoBytes GoStrings
begin

text \<open>
  The parser object of \<open>date_parse.go\<close>: the states of its two state machines, its fields, its
  options and the methods that write layout fragments into \<open>format\<close>.

  Go's \<open>int\<close> is unbounded here: every value is an index into a string or a difference of two
  such indices. Constants and fields keep their names; four fields whose names clash with local
  variables of the code have the prefix \<open>p_\<close>, and the method \<open>set\<close> is \<open>set_at\<close>.
\<close>

section \<open>Strings, bytes and runes\<close>

abbreviation rune :: "char \<Rightarrow> nat" where
  "rune c \<equiv> of_char c"

text \<open>\<open>s[a:b]\<close> and \<open>s[i]\<close>: out of range they panic.\<close>

definition substr :: "string \<Rightarrow> int \<Rightarrow> int \<Rightarrow> string res" where
  "substr s a b =
     (if 0 \<le> a \<and> a \<le> b \<and> b \<le> int (length s) then Ok (take (nat b - nat a) (drop (nat a) s)) else Panic)"

definition byte_at :: "string \<Rightarrow> int \<Rightarrow> char res" where
  "byte_at s i = (if 0 \<le> i \<and> i < int (length s) then Ok (s ! nat i) else Panic)"

text \<open>\<open>s[i] = c\<close> for a byte slice \<open>s\<close>.\<close>

definition put_byte :: "string \<Rightarrow> int \<Rightarrow> char \<Rightarrow> string res" where
  "put_byte s i c = (if 0 \<le> i \<and> i < int (length s) then Ok (s[nat i := c]) else Panic)"

fun Contains :: "string \<Rightarrow> string \<Rightarrow> bool" where
  "Contains [] w = (w = [])"
| "Contains (c # cs) w = (HasPrefix (c # cs) w \<or> Contains cs w)"

section \<open>The two state machines\<close>

datatype dateState =
    dateStart | dateDigit | dateDigitSt | dateYearDash | dateYearDashAlphaDash | dateYearDashDash
  | dateYearDashDashWs | dateYearDashDashT | dateYearDashDashOffset | dateDigitDash
  | dateDigitDashAlpha | dateDigitDashAlphaDash | dateDigitDot | dateDigitDotDot | dateDigitSlash
  | dateDigitYearSlash | dateDigitSlashAlpha | dateDigitColon | dateDigitChineseYear
  | dateDigitChineseYearWs | dateDigitWs | dateDigitWsMoYear | dateDigitWsMolong | dateAlpha
  | dateAlphaWs | dateAlphaWsDigit | dateAlphaWsDigitMore | dateAlphaWsDigitMoreWs
  | dateAlphaWsDigitMoreWsYear | dateAlphaWsMonth | dateAlphaWsDigitYearmaybe
  | dateAlphaWsMonthMore | dateAlphaWsMonthSuffix | dateAlphaWsMore | dateAlphaWsAtTime
  | dateAlphaWsAlpha | dateAlphaWsAlphaYearmaybe | dateAlphaPeriodWsDigit | dateWeekdayComma
  | dateWeekdayAbbrevComma

datatype timeState =
    timeIgnore | timeStart | timeWs | timeWsAlpha | timeWsAlphaWs | timeWsAlphaZoneOffset
  | timeWsAlphaZoneOffsetWs | timeWsAlphaZoneOffsetWsYear | timeWsAlphaZoneOffsetWsExtra
  | timeWsAMPMMaybe | timeWsAMPM | timeWsOffset | timeWsOffsetWs | timeWsOffsetColonAlpha
  | timeWsOffsetColon | timeWsYear | timeOffset | timeOffsetColon | timeAlpha | timePeriod
  | timePeriodOffset | timePeriodOffsetColon | timePeriodOffsetColonWs | timePeriodWs
  | timePeriodWsAlpha | timePeriodWsOffset | timePeriodWsOffsetWs | timePeriodWsOffsetWsAlpha
  | timePeriodWsOffsetColon | timePeriodWsOffsetColonAlpha | timeZ | timeZDigit

section \<open>Times and locations\<close>

text \<open>
  A \<open>time.Time\<close>: the seconds since 1970, the nanoseconds within the second, and the location it
  is shown in. A nil \<open>*time.Location\<close> is \<open>None\<close>.
\<close>

datatype location = UTC | Local | Named string | FixedZone string int

record gotime =
  unix_sec :: int
  nsec :: int
  zone :: location

definition zero_time :: gotime where
  "zero_time = \<lparr>unix_sec = - 62135596800, nsec = 0, zone = UTC\<rparr>"

definition IsZero :: "gotime \<Rightarrow> bool" where
  "IsZero t = (unix_sec t = - 62135596800 \<and> nsec t = 0)"

definition Unix :: "int \<Rightarrow> int \<Rightarrow> gotime" where
  "Unix sec ns = \<lparr>unix_sec = sec + ns div 1000000000, nsec = ns mod 1000000000, zone = Local\<rparr>"

definition In :: "gotime \<Rightarrow> location \<Rightarrow> gotime" where
  "In t l = t\<lparr>zone := l\<rparr>"

text \<open>Arithmetic of \<open>int64\<close>, with its wrap-around.\<close>

definition int64 :: "int \<Rightarrow> int" where
  "int64 x = sint (word_of_int x :: 64 word)"

lemma int64_mult: "int64 (int64 a * b) = int64 (a * b)"
proof -
  have "(word_of_int (sint (word_of_int a :: 64 word) * b) :: 64 word) = word_of_int (a * b)"
    by (simp add: wi_hom_mult [symmetric])
  then show ?thesis by (simp add: int64_def)
qed

lemma int64_id: "- (2 ^ 63) \<le> x \<Longrightarrow> x < 2 ^ 63 \<Longrightarrow> int64 x = x"
  by (simp add: int64_def sint_sbintrunc' signed_take_bit_int_eq_self)

section \<open>The parser\<close>

record parser =
  p_loc :: "location option"
  preferMonthFirst :: bool
  retryAmbiguousDateWithSwap :: bool
  ambiguousMD :: bool
  stateDate :: dateState
  stateTime :: timeState
  p_format :: string
  p_datestr :: string
  fullMonth :: string
  skip :: int
  extra :: int
  part1Len :: int
  yeari :: int
  yearlen :: int
  moi :: int
  molen :: int
  dayi :: int
  daylen :: int
  houri :: int
  hourlen :: int
  mini :: int
  minlen :: int
  seci :: int
  seclen :: int
  msi :: int
  mslen :: int
  offseti :: int
  offsetlen :: int
  tzi :: int
  tzlen :: int
  p_t :: "gotime option"

text \<open>The two options of the package; the error of an option is always nil and is ignored.\<close>

datatype ParserOption = PreferMonthFirst bool | RetryAmbiguousDateWithSwap bool

fun apply_option :: "ParserOption \<Rightarrow> parser \<Rightarrow> parser" where
  "apply_option (PreferMonthFirst b) p = p\<lparr>preferMonthFirst := b\<rparr>"
| "apply_option (RetryAmbiguousDateWithSwap b) p = p\<lparr>retryAmbiguousDateWithSwap := b\<rparr>"

definition newParser :: "string \<Rightarrow> location option \<Rightarrow> ParserOption list \<Rightarrow> parser" where
  "newParser dateStr loc opts =
     fold apply_option opts
       \<lparr>p_loc = loc, preferMonthFirst = True, retryAmbiguousDateWithSwap = False, ambiguousMD = False,
        stateDate = dateStart, stateTime = timeIgnore, p_format = dateStr, p_datestr = dateStr,
        fullMonth = [], skip = 0, extra = 0, part1Len = 0, yeari = 0, yearlen = 0, moi = 0, molen = 0,
        dayi = 0, daylen = 0, houri = 0, hourlen = 0, mini = 0, minlen = 0, seci = 0, seclen = 0,
        msi = 0, mslen = 0, offseti = 0, offsetlen = 0, tzi = 0, tzlen = 0, p_t = None\<rparr>"

definition nextIs :: "parser \<Rightarrow> int \<Rightarrow> char \<Rightarrow> bool" where
  "nextIs p i b \<longleftrightarrow> i + 1 < int (length (p_datestr p)) \<and> p_datestr p ! nat (i + 1) = b"

section \<open>Writing the layout\<close>

text \<open>\<open>set_bytes\<close> is the bounds check and the loop of \<open>set\<close> on the bytes of \<open>format\<close>.\<close>

definition set_bytes :: "string \<Rightarrow> int \<Rightarrow> string \<Rightarrow> string" where
  "set_bytes fmt start val =
     (if start < 0 then fmt
      else if int (length fmt) < start + int (length val) then fmt
      else overwrite fmt (nat start) val)"

definition set_at :: "int \<Rightarrow> string \<Rightarrow> parser \<Rightarrow> parser" where
  "set_at start val p = p\<lparr>p_format := set_bytes (p_format p) start val\<rparr>"

definition setMonth :: "parser \<Rightarrow> parser" where
  "setMonth p =
     (if molen p = 2 then set_at (moi p) ''01'' p
      else if molen p = 1 then set_at (moi p) ''1'' p else p)"

definition setDay :: "parser \<Rightarrow> parser" where
  "setDay p =
     (if daylen p = 2 then set_at (dayi p) ''02'' p
      else if daylen p = 1 then set_at (dayi p) ''2'' p else p)"

definition setYear :: "parser \<Rightarrow> parser" where
  "setYear p =
     (if yearlen p = 2 then set_at (yeari p) ''06'' p
      else if yearlen p = 4 then set_at (yeari p) ''2006'' p else p)"

text \<open>The three parts of \<open>coalesceDate\<close> and the four of \<open>coalesceTime\<close>, in their order.\<close>

definition coalesce_year :: "int \<Rightarrow> parser \<Rightarrow> parser" where
  "coalesce_year fin p =
     (if 0 < yeari p
      then setYear (if yearlen p = 0 then p\<lparr>yearlen := fin - yeari p\<rparr> else p)
      else p)"

definition coalesce_month :: "int \<Rightarrow> parser \<Rightarrow> parser" where
  "coalesce_month fin p =
     (if 0 < moi p \<and> molen p = 0 then setMonth (p\<lparr>molen := fin - moi p\<rparr>) else p)"

definition coalesce_day :: "int \<Rightarrow> parser \<Rightarrow> parser" where
  "coalesce_day fin p =
     (if 0 < dayi p \<and> daylen p = 0 then setDay (p\<lparr>daylen := fin - dayi p\<rparr>) else p)"

definition coalesceDate :: "int \<Rightarrow> parser \<Rightarrow> parser" where
  "coalesceDate fin p = coalesce_day fin (coalesce_month fin (coalesce_year fin p))"

definition coalesce_hour :: "parser \<Rightarrow> parser" where
  "coalesce_hour p =
     (if 0 < houri p
      then if hourlen p = 2 then set_at (houri p) ''15'' p
           else if hourlen p = 1 then set_at (houri p) ''3'' p else p
      else p)"

definition coalesce_min :: "int \<Rightarrow> parser \<Rightarrow> parser" where
  "coalesce_min fin p =
     (if 0 < mini p
      then
        let n = (if minlen p = 0 then fin - mini p else minlen p) in
        set_at (mini p) (if n = 2 then ''04'' else ''4'') (p\<lparr>minlen := n\<rparr>)
      else p)"

definition coalesce_sec :: "int \<Rightarrow> parser \<Rightarrow> parser" where
  "coalesce_sec fin p =
     (if 0 < seci p
      then
        let n = (if seclen p = 0 then fin - seci p else seclen p) in
        set_at (seci p) (if n = 2 then ''05'' else ''5'') (p\<lparr>seclen := n\<rparr>)
      else p)"

text \<open>The loop that writes the zeros of the fraction indexes \<open>format\<close> without a check.\<close>

definition coalesce_ms :: "parser \<Rightarrow> parser res" where
  "coalesce_ms p =
     (if 0 < msi p \<and> 0 < mslen p
      then
        if msi p + mslen p \<le> int (length (p_format p))
        then Ok (p\<lparr>p_format := overwrite (p_format p) (nat (msi p)) (replicate (nat (mslen p)) CHR ''0'')\<rparr>)
        else Panic
      else Ok p)"

definition coalesceTime :: "int \<Rightarrow> parser \<Rightarrow> parser res" where
  "coalesceTime fin p = coalesce_ms (coalesce_sec fin (coalesce_min fin (coalesce_hour p)))"

definition setFullMonth :: "string \<Rightarrow> parser \<Rightarrow> parser res" where
  "setFullMonth month p =
     (if moi p = 0
      then map_res (\<lambda>tail. p\<lparr>p_format := ''January'' @ tail\<rparr>)
             (substr (p_format p) (int (length month)) (int (length (p_format p))))
      else Ok p)"

definition trimExtra :: "parser \<Rightarrow> parser res" where
  "trimExtra p =
     (if 0 < extra p \<and> extra p < int (length (p_format p))
      then
        res_bind (substr (p_format p) 0 (extra p)) (\<lambda>f.
        res_bind (substr (p_datestr p) 0 (extra p)) (\<lambda>d.
          Ok (p\<lparr>p_format := f, p_datestr := d\<rparr>)))
      else Ok p)"

section \<open>What the methods leave alone\<close>

text \<open>
  Every method that writes into the layout is an update of \<open>p_format\<close> that keeps its length, and
  of the lengths it computes: rewritten with \<open>layout_upd\<close>, a step shows what it does to each field.
\<close>

lemma length_set_bytes [simp]: "length (set_bytes fmt start val) = length fmt"
  by (auto simp: set_bytes_def)

definition month_layout :: "parser \<Rightarrow> string" where
  "month_layout p =
     (if molen p = 2 then set_bytes (p_format p) (moi p) ''01''
      else if molen p = 1 then set_bytes (p_format p) (moi p) ''1'' else p_format p)"

definition day_layout :: "parser \<Rightarrow> string" where
  "day_layout p =
     (if daylen p = 2 then set_bytes (p_format p) (dayi p) ''02''
      else if daylen p = 1 then set_bytes (p_format p) (dayi p) ''2'' else p_format p)"

definition year_layout :: "parser \<Rightarrow> string" where
  "year_layout p =
     (if yearlen p = 2 then set_bytes (p_format p) (yeari p) ''06''
      else if yearlen p = 4 then set_bytes (p_format p) (yeari p) ''2006'' else p_format p)"

lemma setMonth_upd: "setMonth p = p\<lparr>p_format := month_layout p\<rparr>"
  by (simp add: setMonth_def month_layout_def set_at_def)

lemma setDay_upd: "setDay p = p\<lparr>p_format := day_layout p\<rparr>"
  by (simp add: setDay_def day_layout_def set_at_def)

lemma setYear_upd: "setYear p = p\<lparr>p_format := year_layout p\<rparr>"
  by (simp add: setYear_def year_layout_def set_at_def)

lemma length_layouts [simp]:
  "length (month_layout p) = length (p_format p)"
  "length (day_layout p) = length (p_format p)"
  "length (year_layout p) = length (p_format p)"
  by (simp_all add: month_layout_def day_layout_def year_layout_def)

lemmas layout_upd = set_at_def setMonth_upd setDay_upd setYear_upd

section \<open>Names of days and months\<close>

definition days :: "string list" where
  "days =
     [''mon'', ''tue'', ''wed'', ''thu'', ''fri'', ''sat'', ''sun'', ''monday'', ''tuesday'',
      ''wednesday'', ''thursday'', ''friday'', ''saturday'', ''sunday'']"

definition months :: "string list" where
  "months =
     [''january'', ''february'', ''march'', ''april'', ''may'', ''june'', ''july'', ''august'',
      ''september'', ''october'', ''november'', ''december'']"

definition isDay :: "string \<Rightarrow> bool" where
  "isDay alpha \<longleftrightarrow> alpha \<in> set days"

definition isMonthFull :: "string \<Rightarrow> bool" where
  "isMonthFull alpha \<longleftrightarrow> alpha \<in> set months"

end
