(* ===== verification/DateStates.thy ===== *)
theory DateStates
  imports DateParser
begin

text \<open>
  The first loop of \<open>parseTime\<close> (\<open>date_parse.go\<close>): one definition per date state, the dispatch on
  the state, and the loop over the runes of the string.

  A step gets the rune \<open>r\<close> and the index \<open>i\<close> of its last byte. It goes on with the next rune
  (\<open>Next\<close>: the end of the switch, or \<open>continue\<close>; the \<open>i++\<close> of the loop follows), leaves the loop
  (\<open>Break\<close>), returns from \<open>parseTime\<close> (\<open>Return\<close>), returns the result of a recursive call
  (\<open>Restart\<close>), or panics (\<open>Crash\<close>). The last two kinds of return carry the value that the variable
  \<open>datestr\<close> has at that moment, because the deferred closure of \<open>parseTime\<close> reads it.
\<close>

section \<open>Steps\<close>

datatype 's step =
    Next 's
  | Break 's
  | Return string "parser option" "gerr option"
  | Restart string string "location option" "ParserOption list"
  | Crash

definition with_res :: "'a res \<Rightarrow> ('a \<Rightarrow> 's step) \<Rightarrow> 's step" where
  "with_res r f = (case r of Ok a \<Rightarrow> f a | _ \<Rightarrow> Crash)"

lemma with_res_simps [simp]:
  "with_res (Ok a) f = f a" "with_res (Err e) f = Crash" "with_res Panic f = Crash"
  by (simp_all add: with_res_def)

definition unknownErr :: "string \<Rightarrow> gerr" where
  "unknownErr datestr = Errorf ''could not find format for %q'' []"

abbreviation fail :: "string \<Rightarrow> 's step" where
  "fail datestr \<equiv> Return datestr None (Some (unknownErr datestr))"

type_synonym date_step = "(parser \<times> int) step"

section \<open>Dates that start with a digit\<close>

definition on_dateStart :: "unicode_tables \<Rightarrow> string \<Rightarrow> parser \<Rightarrow> int \<Rightarrow> nat \<Rightarrow> date_step" where
  "on_dateStart U datestr p i r =
     (if IsDigit U r then Next (p\<lparr>stateDate := dateDigit\<rparr>, i)
      else if IsLetter U r then Next (p\<lparr>stateDate := dateAlpha\<rparr>, i)
      else fail datestr)"

text \<open>After the switch of \<open>dateDigit\<close>.\<close>

definition end_part1 :: "int \<Rightarrow> parser \<Rightarrow> date_step" where
  "end_part1 i p = Next (p\<lparr>part1Len := i\<rparr>, i)"

definition digit_dash :: "parser \<Rightarrow> int \<Rightarrow> date_step" where
  "digit_dash p i =
     end_part1 i
       (if i = 4
        then set_at 0 ''2006'' (p\<lparr>stateDate := dateYearDash, yeari := 0, yearlen := i, moi := i + 1\<rparr>)
        else p\<lparr>stateDate := dateDigitDash\<rparr>)"

definition digit_slash :: "unicode_tables \<Rightarrow> string \<Rightarrow> parser \<Rightarrow> int \<Rightarrow> date_step" where
  "digit_slash U datestr p i =
     (if i = 4
      then end_part1 i
        ((setYear (p\<lparr>stateDate := dateDigitSlash, yearlen := i, moi := i + 1\<rparr>))
           \<lparr>stateDate := dateDigitYearSlash\<rparr>)
      else
        let letter =
          (if i + 2 < int (length (p_datestr p)) then map_res (\<lambda>c. IsLetter U (rune c)) (byte_at datestr (i + 1))
           else Ok False) in
        with_res letter (\<lambda>letter.
          if letter
          then Next (setDay (p\<lparr>stateDate := dateDigitSlashAlpha, moi := i + 1, daylen := 2, dayi := 0\<rparr>), i)
          else
            let q = p\<lparr>stateDate := dateDigitSlash, ambiguousMD := True\<rparr> in
            end_part1 i
              (if preferMonthFirst q
               then if molen q = 0 then (setMonth (q\<lparr>molen := i\<rparr>))\<lparr>dayi := i + 1\<rparr> else q
               else if daylen q = 0 then (setDay (q\<lparr>daylen := i\<rparr>))\<lparr>moi := i + 1\<rparr> else q)))"

definition digit_colon :: "parser \<Rightarrow> int \<Rightarrow> date_step" where
  "digit_colon p i =
     end_part1 i
       (if i = 4 then setYear (p\<lparr>stateDate := dateDigitColon, yearlen := i, moi := i + 1\<rparr>)
        else if preferMonthFirst p \<and> molen p = 0
        then (setMonth (p\<lparr>stateDate := dateDigitColon, ambiguousMD := True, molen := i\<rparr>))\<lparr>dayi := i + 1\<rparr>
        else p\<lparr>stateDate := dateDigitColon, ambiguousMD := True\<rparr>)"

definition digit_dot :: "parser \<Rightarrow> int \<Rightarrow> date_step" where
  "digit_dot p i =
     end_part1 i
       (if i = 4 then setYear (p\<lparr>stateDate := dateDigitDot, yearlen := i, moi := i + 1\<rparr>)
        else (setMonth (p\<lparr>stateDate := dateDigitDot, ambiguousMD := True, moi := 0, molen := i\<rparr>))
               \<lparr>dayi := i + 1\<rparr>)"

definition digit_space :: "parser \<Rightarrow> int \<Rightarrow> date_step" where
  "digit_space p i =
     end_part1 i
       (if i = 6 then p\<lparr>stateDate := dateDigitSt\<rparr>
        else p\<lparr>stateDate := dateDigitWs, dayi := 0, daylen := i\<rparr>)"

text \<open>The rune \<open>0x2212\<close> is the minus sign, the rune \<open>0x5E74\<close> the Chinese character for a year.\<close>

definition on_dateDigit :: "unicode_tables \<Rightarrow> string \<Rightarrow> parser \<Rightarrow> int \<Rightarrow> nat \<Rightarrow> date_step" where
  "on_dateDigit U datestr p i r =
     (if r = rune CHR ''-'' \<or> r = 0x2212 then digit_dash p i
      else if r = rune CHR ''/'' then digit_slash U datestr p i
      else if r = rune CHR '':'' then digit_colon p i
      else if r = rune CHR ''.'' then digit_dot p i
      else if r = rune CHR '' '' then digit_space p i
      else if r = 0x5E74 then end_part1 i (p\<lparr>stateDate := dateDigitChineseYear\<rparr>)
      else if r = rune CHR '','' then fail datestr
      else Next (p, i))"

definition on_dateDigitSt :: "parser \<Rightarrow> int \<Rightarrow> date_step" where
  "on_dateDigitSt p i = Break ((set_at 0 ''060102'' p)\<lparr>stateTime := timeStart\<rparr>, i - 1)"

definition on_dateYearDash :: "unicode_tables \<Rightarrow> parser \<Rightarrow> int \<Rightarrow> nat \<Rightarrow> date_step" where
  "on_dateYearDash U p i r =
     (if r = rune CHR ''-''
      then Next (setMonth (p\<lparr>molen := i - moi p, dayi := i + 1, stateDate := dateYearDashDash\<rparr>), i)
      else if IsLetter U r then Next (p\<lparr>stateDate := dateYearDashAlphaDash\<rparr>, i)
      else Next (p, i))"

definition on_dateYearDashDash :: "parser \<Rightarrow> int \<Rightarrow> nat \<Rightarrow> date_step" where
  "on_dateYearDashDash p i r =
     (if r = rune CHR ''+'' \<or> r = rune CHR ''-''
      then Next (setDay (p\<lparr>offseti := i, daylen := i - dayi p, stateDate := dateYearDashDashOffset\<rparr>), i)
      else if r = rune CHR '' ''
      then Break (setDay (p\<lparr>daylen := i - dayi p, stateDate := dateYearDashDashWs, stateTime := timeStart\<rparr>), i)
      else if r = rune CHR ''T''
      then Break (setDay (p\<lparr>daylen := i - dayi p, stateDate := dateYearDashDashT, stateTime := timeStart\<rparr>), i)
      else Next (p, i))"

definition on_dateYearDashDashOffset :: "parser \<Rightarrow> int \<Rightarrow> nat \<Rightarrow> date_step" where
  "on_dateYearDashDashOffset p i r =
     (if r = rune CHR '':'' then Next (set_at (offseti p) ''-07:00'' p, i) else Next (p, i))"

definition on_dateYearDashAlphaDash :: "parser \<Rightarrow> int \<Rightarrow> nat \<Rightarrow> date_step" where
  "on_dateYearDashAlphaDash p i r =
     (if r = rune CHR ''-''
      then Next ((set_at (moi p) ''Jan'' (p\<lparr>molen := i - moi p\<rparr>))\<lparr>dayi := i + 1\<rparr>, i)
      else Next (p, i))"

definition on_dateDigitDash :: "unicode_tables \<Rightarrow> string \<Rightarrow> parser \<Rightarrow> int \<Rightarrow> nat \<Rightarrow> date_step" where
  "on_dateDigitDash U datestr p i r =
     (if IsLetter U r then Next (p\<lparr>stateDate := dateDigitDashAlpha, moi := i\<rparr>, i) else fail datestr)"

definition on_dateDigitDashAlpha :: "parser \<Rightarrow> int \<Rightarrow> nat \<Rightarrow> date_step" where
  "on_dateDigitDashAlpha p i r =
     (if r = rune CHR ''-''
      then Next ((set_at (moi p) ''Jan'' (p\<lparr>molen := i - moi p\<rparr>))
                   \<lparr>yeari := i + 1, stateDate := dateDigitDashAlphaDash\<rparr>, i)
      else Next (p, i))"

text \<open>Shared with the final switch: the length of the last part tells whether it is a year.\<close>

definition dash_year :: "int \<Rightarrow> parser \<Rightarrow> parser" where
  "dash_year n p =
     (if n = 4
      then setDay ((set_at (yeari p) ''2006'' (p\<lparr>yearlen := 4\<rparr>))\<lparr>dayi := 0, daylen := part1Len p\<rparr>)
      else if n = 2
      then setDay ((set_at (yeari p) ''06'' (p\<lparr>ambiguousMD := True, yearlen := 2\<rparr>))
                     \<lparr>dayi := 0, daylen := part1Len p\<rparr>)
      else p)"

definition on_dateDigitDashAlphaDash :: "parser \<Rightarrow> int \<Rightarrow> nat \<Rightarrow> date_step" where
  "on_dateDigitDashAlphaDash p i r =
     (if r = rune CHR '' ''
      then Break ((dash_year (i - (moi p + molen p + 1)) p)\<lparr>stateTime := timeStart\<rparr>, i)
      else Next (p, i))"

definition on_dateDigitYearSlash :: "parser \<Rightarrow> int \<Rightarrow> nat \<Rightarrow> date_step" where
  "on_dateDigitYearSlash p i r =
     (if r = rune CHR '' '' \<or> r = rune CHR '':''
      then Break (if daylen p = 0 then setDay (p\<lparr>stateTime := timeStart, daylen := i - dayi p\<rparr>)
                  else p\<lparr>stateTime := timeStart\<rparr>, i)
      else if r = rune CHR ''/'' \<and> molen p = 0
      then Next ((setMonth (p\<lparr>molen := i - moi p\<rparr>))\<lparr>dayi := i + 1\<rparr>, i)
      else Next (p, i))"

definition on_dateDigitSlashAlpha :: "parser \<Rightarrow> int \<Rightarrow> nat \<Rightarrow> date_step" where
  "on_dateDigitSlashAlpha p i r =
     (if r = rune CHR ''/''
      then Next (if molen p = 0 then (set_at (moi p) ''Jan'' p)\<lparr>yeari := i + 1\<rparr> else p, i)
      else if r = rune CHR '' '' \<or> r = rune CHR '':''
      then Break (if yearlen p = 0 then setYear (p\<lparr>stateTime := timeStart, yearlen := i - yeari p\<rparr>)
                  else p\<lparr>stateTime := timeStart\<rparr>, i)
      else Next (p, i))"

definition on_dateDigitSlash :: "parser \<Rightarrow> int \<Rightarrow> nat \<Rightarrow> date_step" where
  "on_dateDigitSlash p i r =
     (if r = rune CHR ''/''
      then Next
        (if preferMonthFirst p
         then if daylen p = 0 then (setDay (p\<lparr>daylen := i - dayi p\<rparr>))\<lparr>yeari := i + 1\<rparr> else p
         else if molen p = 0 then (setMonth (p\<lparr>molen := i - moi p\<rparr>))\<lparr>yeari := i + 1\<rparr> else p, i)
      else if r = rune CHR '' ''
      then Break (if yearlen p = 0 then setYear (p\<lparr>stateTime := timeStart, yearlen := i - yeari p\<rparr>)
                  else p\<lparr>stateTime := timeStart\<rparr>, i)
      else Next (p, i))"

definition on_dateDigitColon :: "parser \<Rightarrow> int \<Rightarrow> nat \<Rightarrow> date_step" where
  "on_dateDigitColon p i r =
     (if r = rune CHR '' ''
      then Break
        (if yearlen p = 0 then setYear (p\<lparr>stateTime := timeStart, yearlen := i - yeari p\<rparr>)
         else if daylen p = 0 then setDay (p\<lparr>stateTime := timeStart, daylen := i - dayi p\<rparr>)
         else p\<lparr>stateTime := timeStart\<rparr>, i)
      else if r = rune CHR '':''
      then Next
        (if 0 < yearlen p
         then if molen p = 0 then (setMonth (p\<lparr>molen := i - moi p\<rparr>))\<lparr>dayi := i + 1\<rparr> else p
         else if preferMonthFirst p \<and> daylen p = 0
         then (setDay (p\<lparr>daylen := i - dayi p\<rparr>))\<lparr>yeari := i + 1\<rparr> else p, i)
      else Next (p, i))"

definition on_dateDigitWs :: "parser \<Rightarrow> int \<Rightarrow> nat \<Rightarrow> date_step" where
  "on_dateDigitWs p i r =
     (if r = rune CHR '' ''
      then
        let q = (setDay (p\<lparr>yeari := i + 1, dayi := 0, daylen := part1Len p\<rparr>))\<lparr>stateTime := timeStart\<rparr> in
        if daylen q + 4 < i then Next (q\<lparr>stateDate := dateDigitWsMolong\<rparr>, i)
        else
          let m = q\<lparr>moi := daylen q + 1, molen := i - (daylen q + 1)\<rparr> in
          Next ((set_at (moi m) ''Jan'' m)\<lparr>stateDate := dateDigitWsMoYear\<rparr>, i)
      else Next (p, i))"

definition on_dateDigitWsMoYear :: "parser \<Rightarrow> int \<Rightarrow> nat \<Rightarrow> date_step" where
  "on_dateDigitWsMoYear p i r =
     (if r = rune CHR '','' then Break (setYear (p\<lparr>yearlen := i - yeari p\<rparr>), i + 1)
      else if r = rune CHR '' '' then Break (setYear (p\<lparr>yearlen := i - yeari p\<rparr>), i)
      else Next (p, i))"

definition on_dateDigitChineseYear :: "parser \<Rightarrow> int \<Rightarrow> nat \<Rightarrow> date_step" where
  "on_dateDigitChineseYear p i r =
     (if r = rune CHR '' '' then Next (p\<lparr>stateDate := dateDigitChineseYearWs\<rparr>, i) else Next (p, i))"

definition on_dateDigitDot :: "parser \<Rightarrow> int \<Rightarrow> nat \<Rightarrow> date_step" where
  "on_dateDigitDot p i r =
     (if r = rune CHR ''.''
      then
        if moi p = 0
        then Next ((setDay (p\<lparr>daylen := i - dayi p, yeari := i + 1\<rparr>))\<lparr>stateDate := dateDigitDotDot\<rparr>, i)
        else Next ((setMonth (p\<lparr>molen := i - moi p, dayi := i + 1\<rparr>))\<lparr>stateDate := dateDigitDotDot\<rparr>, i)
      else Next (p, i))"

end
