(* ===== verification/DateAlphaStates.thy ===== *)
theory DateAlphaStates
  imports DateStates
begin

text \<open>
  The date states of \<open>parseTime\<close> for strings that start with a letter, the dispatch on the date
  state, and the first loop.
\<close>

section \<open>Dates that start with a letter\<close>

text \<open>A space after the first word: a month, a weekday that is skipped, or something else.\<close>

definition alpha_space ::
  "unicode_tables \<Rightarrow> string \<Rightarrow> location option \<Rightarrow> parser \<Rightarrow> int \<Rightarrow> date_step" where
  "alpha_space U datestr loc p i =
     with_res (map_res (ToLower U) (substr datestr 0 i)) (\<lambda>word.
       if 3 < i
       then
         if isMonthFull word
         then with_res (substr datestr i (int (length datestr))) (\<lambda>rest.
           Next (p\<lparr>fullMonth := word,
                   stateDate := (if length rest < 10 then dateAlphaWsMonth else dateAlphaWsMore),
                   dayi := i + 1\<rparr>, i))
         else Next (p, i)
       else
         if isDay word
         then with_res (substr datestr (i + 1) (int (length datestr))) (\<lambda>rest. Restart datestr rest loc [])
         else Next (p\<lparr>stateDate := dateAlphaWs\<rparr>, i))"

text \<open>A full stop after the first word; a fourth letter before it is cut out.\<close>

definition alpha_period ::
  "string \<Rightarrow> location option \<Rightarrow> ParserOption list \<Rightarrow> parser \<Rightarrow> int \<Rightarrow> date_step" where
  "alpha_period datestr loc opts p i =
     (if i = 3 then Next (set_at 0 ''Jan'' (p\<lparr>stateDate := dateAlphaPeriodWsDigit, molen := i\<rparr>), i)
      else if i = 4
      then
        with_res (substr datestr 0 (i - 1)) (\<lambda>a.
        with_res (substr datestr i (int (length datestr))) (\<lambda>b.
          Restart (a @ b) (a @ b) loc opts))
      else fail datestr)"

definition on_dateAlpha ::
  "unicode_tables \<Rightarrow> string \<Rightarrow> location option \<Rightarrow> ParserOption list \<Rightarrow> parser \<Rightarrow> int \<Rightarrow> nat \<Rightarrow> date_step" where
  "on_dateAlpha U datestr loc opts p i r =
     (if r = rune CHR '' '' then alpha_space U datestr loc p i
      else if r = rune CHR '',''
      then if i = 3 then Next (set_at 0 ''Mon'' (p\<lparr>stateDate := dateWeekdayAbbrevComma\<rparr>), i)
           else Next (p\<lparr>stateDate := dateWeekdayComma, skip := i + 2\<rparr>, i + 1)
      else if r = rune CHR ''.'' then alpha_period datestr loc opts p i
      else Next (p, i))"

definition on_dateAlphaWs :: "unicode_tables \<Rightarrow> parser \<Rightarrow> int \<Rightarrow> nat \<Rightarrow> date_step" where
  "on_dateAlphaWs U p i r =
     (if IsLetter U r
      then Next (set_at i ''Jan'' ((set_at 0 ''Mon'' p)\<lparr>stateDate := dateAlphaWsAlpha\<rparr>), i)
      else if IsDigit U r
      then Next ((set_at 0 ''Jan'' p)\<lparr>stateDate := dateAlphaWsDigit, dayi := i\<rparr>, i)
      else Next (p, i))"

definition on_dateAlphaWsDigit :: "unicode_tables \<Rightarrow> parser \<Rightarrow> int \<Rightarrow> nat \<Rightarrow> date_step" where
  "on_dateAlphaWsDigit U p i r =
     (if r = rune CHR '','' then Next ((setDay (p\<lparr>daylen := i - dayi p\<rparr>))\<lparr>stateDate := dateAlphaWsDigitMore\<rparr>, i)
      else if r = rune CHR '' ''
      then Next ((setDay (p\<lparr>daylen := i - dayi p\<rparr>))
                   \<lparr>yeari := i + 1, stateDate := dateAlphaWsDigitYearmaybe, stateTime := timeStart\<rparr>, i)
      else if IsLetter U r then Next (p\<lparr>stateDate := dateAlphaWsMonthSuffix\<rparr>, i - 1)
      else Next (p, i))"

definition on_dateAlphaWsDigitYearmaybe :: "parser \<Rightarrow> int \<Rightarrow> nat \<Rightarrow> date_step" where
  "on_dateAlphaWsDigitYearmaybe p i r =
     (if r = rune CHR '':'' then Break (p\<lparr>stateDate := dateAlphaWsDigit, yeari := 0\<rparr>, i - 3)
      else if r = rune CHR '' '' then Break (setYear (p\<lparr>yearlen := i - yeari p\<rparr>), i)
      else Next (p, i))"

definition on_dateAlphaWsDigitMore :: "parser \<Rightarrow> int \<Rightarrow> nat \<Rightarrow> date_step" where
  "on_dateAlphaWsDigitMore p i r =
     (if r = rune CHR '' '' then Next (p\<lparr>yeari := i + 1, stateDate := dateAlphaWsDigitMoreWs\<rparr>, i)
      else Next (p, i))"

definition on_dateAlphaWsDigitMoreWs :: "parser \<Rightarrow> int \<Rightarrow> nat \<Rightarrow> date_step" where
  "on_dateAlphaWsDigitMoreWs p i r =
     (if r = 0x27 then Next (p\<lparr>yeari := i + 1\<rparr>, i)
      else if r = rune CHR '' '' \<or> r = rune CHR '',''
      then Break ((setYear (p\<lparr>stateDate := dateAlphaWsDigitMoreWsYear, yearlen := i - yeari p\<rparr>))
                    \<lparr>stateTime := timeStart\<rparr>, i)
      else Next (p, i))"

definition ordinal_letter :: "nat \<Rightarrow> bool" where
  "ordinal_letter r \<longleftrightarrow> r \<in> set (map of_char ''sSrRtTnN'')"

definition on_dateAlphaWsMonth :: "parser \<Rightarrow> int \<Rightarrow> nat \<Rightarrow> date_step" where
  "on_dateAlphaWsMonth p i r =
     (if r = rune CHR '' '' \<or> r = rune CHR '',''
      then Next (if daylen p = 0 then setDay (p\<lparr>daylen := i - dayi p\<rparr>) else p, i)
      else if ordinal_letter r then Next (p\<lparr>stateDate := dateAlphaWsMonthSuffix\<rparr>, i - 1)
      else if 0 < daylen p \<and> yeari p = 0 then Next (p\<lparr>yeari := i\<rparr>, i)
      else Next (p, i))"

definition on_dateAlphaWsMonthMore :: "parser \<Rightarrow> int \<Rightarrow> nat \<Rightarrow> date_step" where
  "on_dateAlphaWsMonthMore p i r =
     (if r = rune CHR '','' then Break ((setYear (p\<lparr>yearlen := i - yeari p\<rparr>))\<lparr>stateTime := timeStart\<rparr>, i + 1)
      else if r = rune CHR '' '' then Break ((setYear (p\<lparr>yearlen := i - yeari p\<rparr>))\<lparr>stateTime := timeStart\<rparr>, i)
      else Next (p, i))"

text \<open>A suffix of an ordinal number is cut out, and the parser starts again without it.\<close>

definition cut_suffix ::
  "string \<Rightarrow> location option \<Rightarrow> ParserOption list \<Rightarrow> parser \<Rightarrow> int \<Rightarrow> char \<Rightarrow> char \<Rightarrow> date_step" where
  "cut_suffix datestr loc opts p i lower upper =
     (if (nextIs p i lower \<or> nextIs p i upper) \<and> i + 2 < int (length datestr)
      then
        with_res (substr (p_datestr p) 0 i) (\<lambda>a.
        with_res (substr (p_datestr p) (i + 2) (int (length (p_datestr p)))) (\<lambda>b.
          Restart datestr (a @ b) loc opts))
      else Next (p, i))"

definition on_dateAlphaWsMonthSuffix ::
  "string \<Rightarrow> location option \<Rightarrow> ParserOption list \<Rightarrow> parser \<Rightarrow> int \<Rightarrow> nat \<Rightarrow> date_step" where
  "on_dateAlphaWsMonthSuffix datestr loc opts p i r =
     (if r = rune CHR ''t'' \<or> r = rune CHR ''T'' then cut_suffix datestr loc opts p i CHR ''h'' CHR ''H''
      else if r = rune CHR ''n'' \<or> r = rune CHR ''N'' then cut_suffix datestr loc opts p i CHR ''d'' CHR ''D''
      else if r = rune CHR ''s'' \<or> r = rune CHR ''S'' then cut_suffix datestr loc opts p i CHR ''t'' CHR ''T''
      else if r = rune CHR ''r'' \<or> r = rune CHR ''R'' then cut_suffix datestr loc opts p i CHR ''d'' CHR ''D''
      else Next (p, i))"

definition on_dateAlphaWsMore :: "unicode_tables \<Rightarrow> parser \<Rightarrow> int \<Rightarrow> nat \<Rightarrow> date_step" where
  "on_dateAlphaWsMore U p i r =
     (if r = rune CHR '',''
      then
        if nextIs p i CHR '' ''
        then Next ((setDay (p\<lparr>daylen := i - dayi p\<rparr>))
                     \<lparr>yeari := i + 2, stateDate := dateAlphaWsMonthMore\<rparr>, i + 1)
        else Next (p, i)
      else if r = rune CHR '' ''
      then Next ((setDay (p\<lparr>daylen := i - dayi p\<rparr>))\<lparr>yeari := i + 1, stateDate := dateAlphaWsMonthMore\<rparr>, i)
      else if IsDigit U r then Next (p, i)
      else if IsLetter U r
      then Next ((setDay (p\<lparr>daylen := i - dayi p\<rparr>))\<lparr>stateDate := dateAlphaWsMonthSuffix\<rparr>, i - 1)
      else Next (p, i))"

definition on_dateAlphaPeriodWsDigit :: "unicode_tables \<Rightarrow> string \<Rightarrow> parser \<Rightarrow> int \<Rightarrow> nat \<Rightarrow> date_step" where
  "on_dateAlphaPeriodWsDigit U datestr p i r =
     (if r = rune CHR '' '' then Next (p, i)
      else if IsDigit U r then Next (p\<lparr>stateDate := dateAlphaWsDigit, dayi := i\<rparr>, i)
      else Return datestr (Some p) (Some (unknownErr datestr)))"

definition on_dateWeekdayComma :: "parser \<Rightarrow> int \<Rightarrow> nat \<Rightarrow> date_step" where
  "on_dateWeekdayComma p i r =
     (let p = (if dayi p = 0 then p\<lparr>dayi := i\<rparr> else p) in
      if r = rune CHR '' '' \<or> r = rune CHR ''-''
      then
        if moi p = 0 then Next (setDay (p\<lparr>moi := i + 1, daylen := i - dayi p\<rparr>), i)
        else if yeari p = 0 then Next (set_at (moi p) ''Jan'' (p\<lparr>yeari := i + 1, molen := i - moi p\<rparr>), i)
        else Break (p\<lparr>stateTime := timeStart\<rparr>, i)
      else Next (p, i))"

definition on_dateWeekdayAbbrevComma :: "parser \<Rightarrow> int \<Rightarrow> nat \<Rightarrow> date_step" where
  "on_dateWeekdayAbbrevComma p i r =
     (if r = rune CHR '' '' \<or> r = rune CHR ''-''
      then
        if dayi p = 0 then Next (p\<lparr>dayi := i + 1\<rparr>, i)
        else if moi p = 0 then Next ((setDay (p\<lparr>daylen := i - dayi p\<rparr>))\<lparr>moi := i + 1\<rparr>, i)
        else if yeari p = 0
        then Next ((set_at (moi p) ''Jan'' (p\<lparr>molen := i - moi p\<rparr>))\<lparr>yeari := i + 1\<rparr>, i)
        else Break ((setYear (p\<lparr>yearlen := i - yeari p\<rparr>))\<lparr>stateTime := timeStart\<rparr>, i)
      else Next (p, i))"

section \<open>The dispatch\<close>

text \<open>The states that are not listed in the switch leave the loop.\<close>

definition on_date ::
  "unicode_tables \<Rightarrow> string \<Rightarrow> location option \<Rightarrow> ParserOption list \<Rightarrow> parser \<Rightarrow> int \<Rightarrow> nat \<Rightarrow> date_step" where
  "on_date U datestr loc opts p i r =
     (case stateDate p of
        dateStart \<Rightarrow> on_dateStart U datestr p i r
      | dateDigit \<Rightarrow> on_dateDigit U datestr p i r
      | dateDigitSt \<Rightarrow> on_dateDigitSt p i
      | dateYearDash \<Rightarrow> on_dateYearDash U p i r
      | dateYearDashDash \<Rightarrow> on_dateYearDashDash p i r
      | dateYearDashDashT \<Rightarrow> Next (p, i)
      | dateYearDashDashOffset \<Rightarrow> on_dateYearDashDashOffset p i r
      | dateYearDashAlphaDash \<Rightarrow> on_dateYearDashAlphaDash p i r
      | dateDigitDash \<Rightarrow> on_dateDigitDash U datestr p i r
      | dateDigitDashAlpha \<Rightarrow> on_dateDigitDashAlpha p i r
      | dateDigitDashAlphaDash \<Rightarrow> on_dateDigitDashAlphaDash p i r
      | dateDigitYearSlash \<Rightarrow> on_dateDigitYearSlash p i r
      | dateDigitSlashAlpha \<Rightarrow> on_dateDigitSlashAlpha p i r
      | dateDigitSlash \<Rightarrow> on_dateDigitSlash p i r
      | dateDigitColon \<Rightarrow> on_dateDigitColon p i r
      | dateDigitWs \<Rightarrow> on_dateDigitWs p i r
      | dateDigitWsMoYear \<Rightarrow> on_dateDigitWsMoYear p i r
      | dateDigitWsMolong \<Rightarrow> Next (p, i)
      | dateDigitChineseYear \<Rightarrow> on_dateDigitChineseYear p i r
      | dateDigitDot \<Rightarrow> on_dateDigitDot p i r
      | dateDigitDotDot \<Rightarrow> Next (p, i)
      | dateAlpha \<Rightarrow> on_dateAlpha U datestr loc opts p i r
      | dateAlphaWs \<Rightarrow> on_dateAlphaWs U p i r
      | dateAlphaWsDigit \<Rightarrow> on_dateAlphaWsDigit U p i r
      | dateAlphaWsDigitYearmaybe \<Rightarrow> on_dateAlphaWsDigitYearmaybe p i r
      | dateAlphaWsDigitMore \<Rightarrow> on_dateAlphaWsDigitMore p i r
      | dateAlphaWsDigitMoreWs \<Rightarrow> on_dateAlphaWsDigitMoreWs p i r
      | dateAlphaWsMonth \<Rightarrow> on_dateAlphaWsMonth p i r
      | dateAlphaWsMonthMore \<Rightarrow> on_dateAlphaWsMonthMore p i r
      | dateAlphaWsMonthSuffix \<Rightarrow> on_dateAlphaWsMonthSuffix datestr loc opts p i r
      | dateAlphaWsMore \<Rightarrow> on_dateAlphaWsMore U p i r
      | dateAlphaPeriodWsDigit \<Rightarrow> on_dateAlphaPeriodWsDigit U datestr p i r
      | dateWeekdayComma \<Rightarrow> on_dateWeekdayComma p i r
      | dateWeekdayAbbrevComma \<Rightarrow> on_dateWeekdayAbbrevComma p i r
      | _ \<Rightarrow> Break (p, i))"

section \<open>The loop\<close>

lemmas date_step_defs = on_dateStart_def end_part1_def digit_dash_def digit_slash_def
  digit_colon_def digit_dot_def digit_space_def on_dateDigit_def on_dateDigitSt_def
  on_dateYearDash_def on_dateYearDashDash_def on_dateYearDashDashOffset_def
  on_dateYearDashAlphaDash_def on_dateDigitDash_def on_dateDigitDashAlpha_def
  on_dateDigitDashAlphaDash_def on_dateDigitYearSlash_def on_dateDigitSlashAlpha_def
  on_dateDigitSlash_def on_dateDigitColon_def on_dateDigitWs_def on_dateDigitWsMoYear_def
  on_dateDigitChineseYear_def on_dateDigitDot_def alpha_space_def alpha_period_def
  on_dateAlpha_def on_dateAlphaWs_def on_dateAlphaWsDigit_def on_dateAlphaWsDigitYearmaybe_def
  on_dateAlphaWsDigitMore_def on_dateAlphaWsDigitMoreWs_def on_dateAlphaWsMonth_def
  on_dateAlphaWsMonthMore_def cut_suffix_def on_dateAlphaWsMonthSuffix_def on_dateAlphaWsMore_def
  on_dateAlphaPeriodWsDigit_def on_dateWeekdayComma_def on_dateWeekdayAbbrevComma_def

lemma with_res_eq_iff:
  "with_res r f = s \<longleftrightarrow> (\<exists>a. r = Ok a \<and> f a = s) \<or> (\<not> is_ok r \<and> s = Crash)"
  by (cases r) auto

text \<open>A step goes back at most to the rune it has read, and then it waits for a suffix.\<close>

lemma on_date_forward:
  "on_date U datestr loc opts p i r = Next (p', j) \<Longrightarrow>
     i \<le> j \<or> (j = i - 1 \<and> stateDate p \<noteq> dateAlphaWsMonthSuffix \<and> stateDate p' = dateAlphaWsMonthSuffix)"
  by (cases "stateDate p")
    (auto simp: on_date_def date_step_defs Let_def with_res_eq_iff split: if_splits)

text \<open>
  \<open>i\<close> is the index of the first byte of the next rune. What a rune longer than one byte adds to
  \<open>i\<close> before the switch makes it the index of the last byte.
\<close>

definition last_byte :: "int \<Rightarrow> nat \<Rightarrow> int" where
  "last_byte i bytesConsumed = (if 1 < bytesConsumed then i + (int bytesConsumed - 1) else i)"

function date_loop ::
  "unicode_tables \<Rightarrow> string \<Rightarrow> location option \<Rightarrow> ParserOption list \<Rightarrow> parser \<Rightarrow> int \<Rightarrow> date_step" where
  "date_loop U datestr loc opts p i =
     (if i < int (length datestr)
      then
        (case substr datestr i (int (length datestr)) of
           Ok rest \<Rightarrow>
             (case on_date U datestr loc opts p (last_byte i (snd (DecodeRune rest))) (fst (DecodeRune rest)) of
                Next (p', j) \<Rightarrow> date_loop U datestr loc opts p' (j + 1)
              | s \<Rightarrow> s)
         | _ \<Rightarrow> Crash)
      else Break (p, i))"
  by pat_completeness auto
termination
proof (relation "measures [\<lambda>(U, datestr, loc, opts, p, i). nat (int (length datestr) - i),
    \<lambda>(U, datestr, loc, opts, p, i). if stateDate p = dateAlphaWsMonthSuffix then 0 else 1]", goal_cases)
  case (2 U datestr loc opts p i rest s p' j)
  then have "on_date U datestr loc opts p (last_byte i (snd (DecodeRune rest))) (fst (DecodeRune rest)) = Next (p', j)"
    by simp
  from on_date_forward [OF this] 2(1) show ?case
    by (auto simp: last_byte_def split: if_splits)
qed simp

declare date_loop.simps [simp del]

end
