(* ===== verification/TimeStates.thy ===== *)
theory TimeStates
  imports DateAlphaStates
begin

text \<open>
  The second loop of \<open>parseTime\<close> (\<open>date_parse.go\<close>): one definition per time state, the dispatch,
  the loop over the bytes of the string, and the switch on the state in which it ends. The loop
  state has the variable \<open>datestr\<close>, which one of the steps changes.
\<close>

type_synonym time_step = "(parser \<times> string \<times> int) step"

abbreviation coalesced :: "int \<Rightarrow> parser \<Rightarrow> (parser \<Rightarrow> 's step) \<Rightarrow> 's step" where
  "coalesced i p f \<equiv> with_res (coalesceTime i p) f"

section \<open>The start of the time\<close>

definition start_comma ::
  "string \<Rightarrow> location option \<Rightarrow> ParserOption list \<Rightarrow> parser \<Rightarrow> int \<Rightarrow> time_step" where
  "start_comma datestr loc opts p i =
     with_res (put_byte (p_datestr p) i CHR ''.'') (\<lambda>ds. Restart datestr ds loc opts)"

definition start_sign :: "parser \<Rightarrow> int \<Rightarrow> parser" where
  "start_sign p i =
     (let p = p\<lparr>stateTime := timeOffset\<rparr>;
          p = (if seci p = 0 then p\<lparr>minlen := i - mini p\<rparr>
               else
                 let p = (if seclen p = 0 then p\<lparr>seclen := i - seci p\<rparr> else p) in
                 if 0 < msi p \<and> mslen p = 0 then p\<lparr>mslen := i - msi p\<rparr> else p)
      in p\<lparr>offseti := i\<rparr>)"

definition start_zulu :: "parser \<Rightarrow> int \<Rightarrow> parser" where
  "start_zulu p i =
     (if seci p = 0 then p\<lparr>stateTime := timeZ, minlen := i - mini p, p_loc := Some UTC\<rparr>
      else p\<lparr>stateTime := timeZ, seclen := i - seci p, p_loc := Some UTC\<rparr>)"

definition start_at :: "string \<Rightarrow> parser \<Rightarrow> int \<Rightarrow> char \<Rightarrow> time_step" where
  "start_at datestr p i r =
     (if nextIs p i CHR ''t'' \<or> nextIs p i CHR ''T''
      then if nextIs p (i + 1) CHR '' '' then Next (p\<lparr>houri := 0\<rparr>, datestr, i + 2)
           else Next (p, datestr, i + 1)
      else if r = CHR ''a'' \<and> nextIs p i CHR ''m''
      then coalesced i p (\<lambda>p. Next (set_at i ''am'' p, datestr, i))
      else if r = CHR ''A'' \<and> nextIs p i CHR ''M''
      then coalesced i p (\<lambda>p. Next (set_at i ''PM'' p, datestr, i))
      else Next (p, datestr, i))"

definition start_pm :: "string \<Rightarrow> parser \<Rightarrow> int \<Rightarrow> char \<Rightarrow> time_step" where
  "start_pm datestr p i r =
     (if r = CHR ''p'' \<and> nextIs p i CHR ''m''
      then coalesced i p (\<lambda>p. Next (set_at i ''pm'' p, datestr, i))
      else if r = CHR ''P'' \<and> nextIs p i CHR ''M''
      then coalesced i p (\<lambda>p. Next (set_at i ''PM'' p, datestr, i))
      else Next (p, datestr, i))"

text \<open>The third colon separates milliseconds and is replaced by a full stop.\<close>

definition start_colon :: "string \<Rightarrow> parser \<Rightarrow> int \<Rightarrow> time_step" where
  "start_colon datestr p i =
     (if mini p = 0 then Next (p\<lparr>mini := i + 1, hourlen := i - houri p\<rparr>, datestr, i)
      else if seci p = 0 then Next (p\<lparr>seci := i + 1, minlen := i - mini p\<rparr>, datestr, i)
      else if 0 < seci p
      then
        let p = set_at i ''.'' ((set_at (seci p) ''05'' (p\<lparr>seclen := i - seci p\<rparr>))\<lparr>msi := i + 1\<rparr>) in
        with_res (substr datestr 0 i) (\<lambda>a.
        with_res (substr datestr (i + 1) (int (length datestr))) (\<lambda>b.
          Next (p\<lparr>p_datestr := a @ ''.'' @ b\<rparr>, a @ ''.'' @ b, i)))
      else Next (p, datestr, i))"

definition on_timeStart ::
  "string \<Rightarrow> location option \<Rightarrow> ParserOption list \<Rightarrow> parser \<Rightarrow> int \<Rightarrow> char \<Rightarrow> time_step" where
  "on_timeStart datestr loc opts p i r =
     (let p = (if houri p = 0 then p\<lparr>houri := i\<rparr> else p) in
      if r = CHR '','' then start_comma datestr loc opts p i
      else if r = CHR ''-'' \<or> r = CHR ''+'' then Next (start_sign p i, datestr, i)
      else if r = CHR ''.''
      then Next (p\<lparr>stateTime := timePeriod, seclen := i - seci p, msi := i + 1\<rparr>, datestr, i)
      else if r = CHR ''Z'' then Next (start_zulu p i, datestr, i)
      else if r = CHR ''a'' \<or> r = CHR ''A'' then start_at datestr p i r
      else if r = CHR ''p'' \<or> r = CHR ''P'' then start_pm datestr p i r
      else if r = CHR '' '' then coalesced i p (\<lambda>p. Next (p\<lparr>stateTime := timeWs\<rparr>, datestr, i))
      else if r = CHR '':'' then start_colon datestr p i
      else Next (p, datestr, i))"

section \<open>After the time, behind a space\<close>

text \<open>From here on \<open>Keep p\<close> is a step that changes neither \<open>datestr\<close> nor the index.\<close>

datatype kept = Keep parser | Leave parser | Broken

definition kept_res :: "parser res \<Rightarrow> kept" where
  "kept_res r = (case r of Ok p \<Rightarrow> Keep p | _ \<Rightarrow> Broken)"

definition on_timeWs :: "unicode_tables \<Rightarrow> parser \<Rightarrow> int \<Rightarrow> char \<Rightarrow> kept" where
  "on_timeWs U p i r =
     (if r = CHR ''A'' \<or> r = CHR ''P'' then Keep (p\<lparr>tzi := i, stateTime := timeWsAMPMMaybe\<rparr>)
      else if r = CHR ''+'' \<or> r = CHR ''-'' then Keep (p\<lparr>offseti := i, stateTime := timeWsOffset\<rparr>)
      else if IsLetter U (rune r) then Keep (p\<lparr>tzi := i, stateTime := timeWsAlpha\<rparr>)
      else if IsDigit U (rune r) then Keep (p\<lparr>stateTime := timeWsYear, yeari := i\<rparr>)
      else Keep p)"

definition set_zone :: "parser \<Rightarrow> parser" where
  "set_zone p =
     (if tzlen p = 4 then set_at (tzi p) '' MST'' p
      else if tzlen p = 3 then set_at (tzi p) ''MST'' p else p)"

definition on_timeWsAlpha :: "parser \<Rightarrow> int \<Rightarrow> char \<Rightarrow> kept" where
  "on_timeWsAlpha p i r =
     (if r = CHR ''+'' \<or> r = CHR ''-''
      then Keep ((set_zone (p\<lparr>tzlen := i - tzi p\<rparr>))\<lparr>stateTime := timeWsAlphaZoneOffset, offseti := i\<rparr>)
      else if r = CHR '' ''
      then Keep ((set_zone (p\<lparr>tzlen := i - tzi p\<rparr>))\<lparr>stateTime := timeWsAlphaWs, yeari := i + 1\<rparr>)
      else Keep p)"

definition on_timeWsAlphaZoneOffset :: "parser \<Rightarrow> int \<Rightarrow> char \<Rightarrow> kept" where
  "on_timeWsAlphaZoneOffset p i r =
     (if r = CHR '' ''
      then
        let p = set_at (offseti p) ''-0700'' p;
            p = (if yeari p = 0 then p\<lparr>yeari := i + 1\<rparr> else p)
        in Keep (p\<lparr>stateTime := timeWsAlphaZoneOffsetWs\<rparr>)
      else Keep p)"

definition on_timeWsAlphaZoneOffsetWs :: "unicode_tables \<Rightarrow> parser \<Rightarrow> int \<Rightarrow> char \<Rightarrow> kept" where
  "on_timeWsAlphaZoneOffsetWs U p i r =
     (if IsDigit U (rune r) then Keep (p\<lparr>stateTime := timeWsAlphaZoneOffsetWsYear\<rparr>)
      else Keep (p\<lparr>extra := i - 1, stateTime := timeWsAlphaZoneOffsetWsExtra\<rparr>))"

text \<open>Shared by two states: a year that is complete when it has four digits.\<close>

definition year_digit :: "parser \<Rightarrow> int \<Rightarrow> parser" where
  "year_digit p i =
     (let p = p\<lparr>yearlen := i - yeari p + 1\<rparr> in if yearlen p = 4 then setYear p else p)"

definition on_timeWsAlphaZoneOffsetWsYear :: "unicode_tables \<Rightarrow> parser \<Rightarrow> int \<Rightarrow> char \<Rightarrow> kept" where
  "on_timeWsAlphaZoneOffsetWsYear U p i r =
     (if IsDigit U (rune r) then Keep (year_digit p i) else Keep p)"

definition on_timeWsAMPMMaybe :: "parser \<Rightarrow> int \<Rightarrow> char \<Rightarrow> kept" where
  "on_timeWsAMPMMaybe p i r =
     (if r = CHR ''M''
      then
        let p = set_at (i - 1) ''PM'' (p\<lparr>stateTime := timeWsAMPM\<rparr>) in
        Keep (if hourlen p = 2 then set_at (houri p) ''03'' p
              else if hourlen p = 1 then set_at (houri p) ''3'' p else p)
      else Keep (p\<lparr>stateTime := timeWsAlpha\<rparr>))"

definition on_timeWsOffset :: "parser \<Rightarrow> int \<Rightarrow> char \<Rightarrow> kept" where
  "on_timeWsOffset p i r =
     (if r = CHR '':'' then Keep (p\<lparr>stateTime := timeWsOffsetColon\<rparr>)
      else if r = CHR '' ''
      then Keep ((set_at (offseti p) ''-0700'' p)\<lparr>yeari := i + 1, stateTime := timeWsOffsetWs\<rparr>)
      else Keep p)"

text \<open>What follows the numeric offset: the \<open>m=\<close> of a printed Go time and a repeated offset are cut off.\<close>

definition cut_m :: "string \<Rightarrow> parser \<Rightarrow> int \<Rightarrow> kept" where
  "cut_m datestr p i =
     (case byte_at datestr (i - 1) of
        Ok c \<Rightarrow> if c = CHR ''m'' then kept_res (trimExtra (p\<lparr>extra := i - 2\<rparr>)) else Keep p
      | _ \<Rightarrow> Broken)"

definition on_timeWsOffsetWs :: "unicode_tables \<Rightarrow> string \<Rightarrow> parser \<Rightarrow> int \<Rightarrow> char \<Rightarrow> kept" where
  "on_timeWsOffsetWs U datestr p i r =
     (if r = CHR ''='' then cut_m datestr p i
      else if r = CHR ''+'' \<or> r = CHR ''-'' \<or> r = CHR ''(''
      then kept_res (trimExtra (p\<lparr>extra := i - 1, stateTime := timeWsOffset\<rparr>))
      else if IsDigit U (rune r) then Keep (year_digit p i)
      else if IsLetter U (rune r) then Keep (if tzi p = 0 then p\<lparr>tzi := i\<rparr> else p)
      else Keep p)"

definition on_timeWsOffsetColon :: "unicode_tables \<Rightarrow> parser \<Rightarrow> int \<Rightarrow> char \<Rightarrow> kept" where
  "on_timeWsOffsetColon U p i r =
     (if IsLetter U (rune r) then Leave (p\<lparr>stateTime := timeWsOffsetColonAlpha\<rparr>) else Keep p)"

section \<open>Fractions of seconds\<close>

definition on_timePeriod :: "unicode_tables \<Rightarrow> parser \<Rightarrow> int \<Rightarrow> char \<Rightarrow> kept" where
  "on_timePeriod U p i r =
     (if r = CHR '' '' then Keep (p\<lparr>mslen := i - msi p, stateTime := timePeriodWs\<rparr>)
      else if r = CHR ''+'' \<or> r = CHR ''-''
      then Keep (p\<lparr>mslen := i - msi p, offseti := i, stateTime := timePeriodOffset\<rparr>)
      else if IsLetter U (rune r) then Keep (p\<lparr>mslen := i - msi p, stateTime := timePeriodWsAlpha\<rparr>)
      else Keep p)"

definition on_timePeriodOffsetColon :: "parser \<Rightarrow> int \<Rightarrow> char \<Rightarrow> kept" where
  "on_timePeriodOffsetColon p i r =
     (if r = CHR '' ''
      then Keep ((set_at (offseti p) ''-07:00'' p)\<lparr>stateTime := timePeriodOffsetColonWs, tzi := i + 1\<rparr>)
      else Keep p)"

definition on_timePeriodWs :: "unicode_tables \<Rightarrow> parser \<Rightarrow> int \<Rightarrow> char \<Rightarrow> kept" where
  "on_timePeriodWs U p i r =
     (let p = (if offseti p = 0 then p\<lparr>offseti := i\<rparr> else p) in
      if r = CHR ''+'' \<or> r = CHR ''-''
      then Keep (p\<lparr>mslen := i - msi p - 1, stateTime := timePeriodWsOffset\<rparr>)
      else if IsLetter U (rune r) then Leave (p\<lparr>stateTime := timePeriodWsOffsetWsAlpha\<rparr>)
      else Keep p)"

definition on_timePeriodWsOffset :: "unicode_tables \<Rightarrow> parser \<Rightarrow> int \<Rightarrow> char \<Rightarrow> kept" where
  "on_timePeriodWsOffset U p i r =
     (if r = CHR '':'' then Keep (p\<lparr>stateTime := timePeriodWsOffsetColon\<rparr>)
      else if r = CHR '' '' then Keep (set_at (offseti p) ''-0700'' p)
      else if r = CHR ''+'' \<or> r = CHR ''-'' then kept_res (trimExtra (p\<lparr>extra := i - 1\<rparr>))
      else if IsLetter U (rune r) then Keep (p\<lparr>stateTime := timePeriodWsOffsetWsAlpha\<rparr>)
      else Keep p)"

definition on_timePeriodWsOffsetWsAlpha :: "string \<Rightarrow> parser \<Rightarrow> int \<Rightarrow> char \<Rightarrow> kept" where
  "on_timePeriodWsOffsetWsAlpha datestr p i r =
     (if r = CHR ''='' then cut_m datestr p i else Keep p)"

definition on_timePeriodWsOffsetColon :: "unicode_tables \<Rightarrow> parser \<Rightarrow> int \<Rightarrow> char \<Rightarrow> kept" where
  "on_timePeriodWsOffsetColon U p i r =
     (if r = CHR '' '' then Keep (set_at (offseti p) ''-07:00'' p)
      else if IsLetter U (rune r) then Keep (p\<lparr>tzi := i, stateTime := timePeriodWsOffsetColonAlpha\<rparr>)
      else Keep p)"

section \<open>The dispatch\<close>

definition kept_step :: "string \<Rightarrow> int \<Rightarrow> kept \<Rightarrow> time_step" where
  "kept_step datestr i k =
     (case k of Keep p \<Rightarrow> Next (p, datestr, i) | Leave p \<Rightarrow> Break (p, datestr, i) | Broken \<Rightarrow> Crash)"

definition on_time_ws :: "unicode_tables \<Rightarrow> string \<Rightarrow> parser \<Rightarrow> int \<Rightarrow> char \<Rightarrow> kept" where
  "on_time_ws U datestr p i r =
     (case stateTime p of
        timeOffset \<Rightarrow> Keep (if r = CHR '':'' then p\<lparr>stateTime := timeOffsetColon\<rparr> else p)
      | timeWs \<Rightarrow> on_timeWs U p i r
      | timeWsAlpha \<Rightarrow> on_timeWsAlpha p i r
      | timeWsAlphaZoneOffset \<Rightarrow> on_timeWsAlphaZoneOffset p i r
      | timeWsAlphaZoneOffsetWs \<Rightarrow> on_timeWsAlphaZoneOffsetWs U p i r
      | timeWsAlphaZoneOffsetWsYear \<Rightarrow> on_timeWsAlphaZoneOffsetWsYear U p i r
      | timeWsAMPMMaybe \<Rightarrow> on_timeWsAMPMMaybe p i r
      | timeWsOffset \<Rightarrow> on_timeWsOffset p i r
      | timeWsOffsetWs \<Rightarrow> on_timeWsOffsetWs U datestr p i r
      | timeWsOffsetColon \<Rightarrow> on_timeWsOffsetColon U p i r
      | timePeriod \<Rightarrow> on_timePeriod U p i r
      | timePeriodOffset \<Rightarrow> Keep (if r = CHR '':'' then p\<lparr>stateTime := timePeriodOffsetColon\<rparr> else p)
      | timePeriodOffsetColon \<Rightarrow> on_timePeriodOffsetColon p i r
      | timePeriodWs \<Rightarrow> on_timePeriodWs U p i r
      | timePeriodWsOffset \<Rightarrow> on_timePeriodWsOffset U p i r
      | timePeriodWsOffsetWsAlpha \<Rightarrow> on_timePeriodWsOffsetWsAlpha datestr p i r
      | timePeriodWsOffsetColon \<Rightarrow> on_timePeriodWsOffsetColon U p i r
      | timeZ \<Rightarrow> Keep (if IsDigit U (rune r) then p\<lparr>stateTime := timeZDigit\<rparr> else p)
      | _ \<Rightarrow> Keep p)"

definition on_time ::
  "unicode_tables \<Rightarrow> string \<Rightarrow> location option \<Rightarrow> ParserOption list \<Rightarrow> parser \<Rightarrow> int \<Rightarrow> char \<Rightarrow> time_step" where
  "on_time U datestr loc opts p i r =
     (if stateTime p = timeStart then on_timeStart datestr loc opts p i r
      else kept_step datestr i (on_time_ws U datestr p i r))"

section \<open>The loop\<close>

lemma substr_Ok_iff:
  "substr s a b = Ok t \<longleftrightarrow> 0 \<le> a \<and> a \<le> b \<and> b \<le> int (length s) \<and> t = take (nat b - nat a) (drop (nat a) s)"
  by (auto simp: substr_def)

lemma start_colon_forward:
  "start_colon datestr p i = Next (p', d, j) \<Longrightarrow> j = i \<and> length d = length datestr"
  by (auto simp: start_colon_def Let_def with_res_eq_iff substr_Ok_iff nat_add_distrib split: if_splits)

lemma on_time_forward:
  assumes "on_time U datestr loc opts p i r = Next (p', d, j)"
  shows "i \<le> j \<and> length d = length datestr"
proof (cases "stateTime p = timeStart")
  case True
  with assms have "on_timeStart datestr loc opts p i r = Next (p', d, j)" by (simp add: on_time_def)
  then show ?thesis
    by (auto simp: on_timeStart_def start_comma_def start_at_def start_pm_def Let_def with_res_eq_iff
        split: if_splits dest: start_colon_forward)
next
  case False
  with assms show ?thesis by (auto simp: on_time_def kept_step_def split: kept.splits)
qed

function time_loop ::
  "unicode_tables \<Rightarrow> location option \<Rightarrow> ParserOption list \<Rightarrow> parser \<Rightarrow> string \<Rightarrow> int \<Rightarrow> time_step" where
  "time_loop U loc opts p datestr i =
     (if i < int (length datestr)
      then
        (case byte_at datestr i of
           Ok r \<Rightarrow>
             (case on_time U datestr loc opts p i r of
                Next (p', datestr', j) \<Rightarrow> time_loop U loc opts p' datestr' (j + 1)
              | s \<Rightarrow> s)
         | _ \<Rightarrow> Crash)
      else Break (p, datestr, i))"
  by pat_completeness auto
termination
  by (relation "measure (\<lambda>(U, loc, opts, p, datestr, i). nat (int (length datestr) - i))")
    (auto dest!: on_time_forward)

declare time_loop.simps [simp del]

text \<open>The white space before the time.\<close>

function skip_spaces :: "string \<Rightarrow> int \<Rightarrow> int res" where
  "skip_spaces datestr i =
     (if i < int (length datestr)
      then
        (case byte_at datestr i of
           Ok r \<Rightarrow> if r \<noteq> CHR '' '' then Ok i else skip_spaces datestr (i + 1)
         | _ \<Rightarrow> Panic)
      else Ok i)"
  by pat_completeness auto
termination
  by (relation "measure (\<lambda>(datestr, i). nat (int (length datestr) - i))") auto

declare skip_spaces.simps [simp del]

section \<open>The end of the time\<close>

text \<open>Which layout fragments are written depends on the state in which the loop has ended.\<close>

definition end_alpha :: "parser \<Rightarrow> parser step" where
  "end_alpha p =
     (let n = int (length (p_datestr p)) - tzi p in
      if n = 3 then Next (set_at (tzi p) ''MST'' p)
      else if n = 4
      then with_res (trimExtra ((set_at (tzi p) ''MST'' p)\<lparr>extra := int (length (p_datestr p)) - 1\<rparr>)) Next
      else Next p)"

definition end_offset :: "string \<Rightarrow> parser \<Rightarrow> parser step" where
  "end_offset datestr p =
     (let n = int (length (p_datestr p)) - offseti p in
      if n = 0 \<or> n = 1 \<or> n = 2 \<or> n = 4
      then with_res (substr datestr (offseti p) (int (length datestr))) (\<lambda>near.
        Return datestr (Some p) (Some (Errorf ''TZ offset not recognized %q near %q (must be 2 or 4 digits optional colon)'' [])))
      else if n = 3 then Next (set_at (offseti p) ''-07'' p)
      else if n = 5 then Next (set_at (offseti p) ''-0700'' p)
      else Next p)"

text \<open>A named zone of three or four letters at \<open>tzi\<close>.\<close>

definition zone_name :: "int \<Rightarrow> parser \<Rightarrow> parser" where
  "zone_name n p =
     (if n = 3 then set_at (tzi p) ''MST'' p
      else if n = 4 then set_at (tzi p) ''MST '' p else p)"

definition end_time :: "string \<Rightarrow> parser \<Rightarrow> int \<Rightarrow> parser step" where
  "end_time datestr p i =
     (case stateTime p of
        timeWsAlpha \<Rightarrow> end_alpha p
      | timeWsAlphaWs \<Rightarrow> Next (setYear (p\<lparr>yearlen := i - yeari p\<rparr>))
      | timeWsYear \<Rightarrow> Next (setYear (p\<lparr>yearlen := i - yeari p\<rparr>))
      | timeWsAlphaZoneOffsetWsExtra \<Rightarrow> with_res (trimExtra p) Next
      | timeWsAlphaZoneOffset \<Rightarrow> Next (set_at (offseti p) (if i - offseti p < 4 then ''-07'' else ''-0700'') p)
      | timePeriod \<Rightarrow> Next (p\<lparr>mslen := i - msi p\<rparr>)
      | timeOffset \<Rightarrow> end_offset datestr p
      | timeWsOffset \<Rightarrow> Next (set_at (offseti p) ''-0700'' p)
      | timeWsOffsetWs \<Rightarrow>
          Next (if 0 < tzi p then zone_name (int (length (p_datestr p)) - tzi p) p else p)
      | timeWsOffsetColon \<Rightarrow> Next (set_at (offseti p) ''-07:00'' p)
      | timeOffsetColon \<Rightarrow> Next (set_at (offseti p) ''-07:00'' p)
      | timePeriodOffset \<Rightarrow> Next (set_at (offseti p) ''-0700'' p)
      | timePeriodOffsetColon \<Rightarrow> Next (set_at (offseti p) ''-07:00'' p)
      | timePeriodWsOffsetColonAlpha \<Rightarrow> Next (zone_name (i - tzi p) (p\<lparr>tzlen := i - tzi p\<rparr>))
      | timePeriodWsOffset \<Rightarrow> Next (set_at (offseti p) ''-0700'' p)
      | _ \<Rightarrow> Next p)"

end
