(* ===== verification/DateInvariant.thy ===== *)
theory DateInvariant
  imports TimeStates
begin

text \<open>
  The invariants of the two loops of \<open>parseTime\<close>. They say that no index and no slice of the loops
  is out of range, that the layout and the date string keep the same length, and that a string the
  parser starts again with is smaller than the one it was given. The measure of a string is its
  length plus the number of its commas: a recursive call either cuts bytes out of the string or
  replaces a comma.
\<close>

section \<open>The measure of a string\<close>

definition weight :: "string \<Rightarrow> nat" where
  "weight s = length s + count_list s CHR '',''"

lemma weight_append [simp]: "weight (s @ t) = weight s + weight t"
  by (simp add: weight_def)

lemma weight_Cons: "weight (c # s) = 1 + (if c = CHR '','' then 1 else 0) + weight s"
  by (simp add: weight_def)

lemma weight_split: "weight s = weight (take n s) + weight (drop n s)"
  by (metis append_take_drop_id weight_append)

lemma weight_drop_le: "weight (drop n s) \<le> weight s"
  by (simp add: weight_split [of s n])

lemma weight_drop_less: "0 < n \<Longrightarrow> s \<noteq> [] \<Longrightarrow> weight (drop n s) < weight s"
  using weight_split [of s n] by (cases s; cases n) (auto simp: weight_Cons)

lemma weight_cut:
  assumes "a < b" "a < length s"
  shows "weight (take a s @ drop b s) < weight s"
proof -
  have "drop b s = drop (b - a) (drop a s)" using assms(1) by simp
  moreover have "weight (drop (b - a) (drop a s)) < weight (drop a s)"
    using assms by (intro weight_drop_less) auto
  ultimately show ?thesis using weight_split [of s a] by simp
qed

lemma weight_comma:
  assumes "i < length s" "s ! i = CHR '',''" "c \<noteq> CHR '',''"
  shows "weight (s[i := c]) < weight s"
proof -
  have "s = take i s @ s ! i # drop (Suc i) s" using assms(1) by (rule id_take_nth_drop)
  then have "weight s = weight (take i s) + weight (s ! i # drop (Suc i) s)" by (metis weight_append)
  with assms show ?thesis by (simp add: upd_conv_take_nth_drop weight_Cons)
qed

section \<open>What holds of each kind of step\<close>

definition step_sat ::
  "('s \<Rightarrow> bool) \<Rightarrow> ('s \<Rightarrow> bool) \<Rightarrow> (string \<Rightarrow> ParserOption list \<Rightarrow> bool) \<Rightarrow> 's step \<Rightarrow> bool" where
  "step_sat N B R s =
     (case s of
        Next x \<Rightarrow> N x
      | Break x \<Rightarrow> B x
      | Return d p e \<Rightarrow> e \<noteq> None
      | Restart d s' l o' \<Rightarrow> R s' o'
      | Crash \<Rightarrow> False)"

lemma step_sat_simps [simp]:
  "step_sat N B R (Next x) = N x"
  "step_sat N B R (Break x) = B x"
  "step_sat N B R (Return d p e) = (e \<noteq> None)"
  "step_sat N B R (Restart d s' l o') = R s' o'"
  "step_sat N B R Crash = False"
  by (simp_all add: step_sat_def)

definition smaller :: "string \<Rightarrow> ParserOption list \<Rightarrow> string \<Rightarrow> ParserOption list \<Rightarrow> bool" where
  "smaller datestr opts s o' \<longleftrightarrow> weight s < weight datestr \<and> (o' = opts \<or> o' = [])"

section \<open>The date loop\<close>

text \<open>The states in which the word the string starts with is a full month name.\<close>

definition month_states :: "dateState set" where
  "month_states = {dateAlphaWsMonth, dateAlphaWsMore, dateAlphaWsMonthMore, dateAlphaWsMonthSuffix}"

definition date_fields :: "string \<Rightarrow> parser \<Rightarrow> int \<Rightarrow> bool" where
  "date_fields datestr p i \<longleftrightarrow>
     p_datestr p = datestr \<and> length (p_format p) = length datestr \<and> extra p = 0 \<and> msi p = 0 \<and>
     mslen p = 0 \<and> p_t p = None \<and> stateTime p \<in> {timeIgnore, timeStart} \<and>
     (fullMonth p = [] \<or> stateDate p \<in> month_states) \<and> int (length (fullMonth p)) \<le> i \<and>
     length (fullMonth p) \<le> length datestr \<and>
     (skip p = 0 \<or> stateDate p = dateWeekdayComma) \<and> 0 \<le> i \<and>
     (i \<le> int (length datestr) \<or> stateTime p = timeIgnore)"

definition date_inv :: "string \<Rightarrow> parser \<Rightarrow> int \<Rightarrow> bool" where
  "date_inv datestr p i \<longleftrightarrow>
     date_fields datestr p i \<and>
     (stateDate p \<noteq> dateStart \<longrightarrow> 1 \<le> i) \<and>
     (stateDate p \<in> {dateAlphaWs, dateAlphaPeriodWsDigit, dateAlphaWsDigit} \<longrightarrow> 2 \<le> i) \<and>
     (stateDate p = dateAlphaWsDigitYearmaybe \<longrightarrow> 3 \<le> i) \<and>
     (stateDate p \<in> {dateStart, dateAlpha} \<longrightarrow> stateTime p = timeIgnore)"

text \<open>Lower-casing does not make a string longer when its result is ASCII.\<close>

lemma EncodeRune_ascii:
  "\<forall>c \<in> set (EncodeRune r). of_char c < (128::nat) \<Longrightarrow> length (EncodeRune r) = 1"
  by (auto simp: EncodeRune_def split: if_splits)

lemma length_runes: "length (runes s) \<le> length s"
proof (induction s rule: runes.induct)
  case (1 s)
  then show ?case
    using DecodeRune_width [of s] by (subst runes.simps) fastforce
qed

lemma length_ToLower:
  assumes "\<forall>c \<in> set (ToLower U s). of_char c < (128::nat)"
  shows "length (ToLower U s) \<le> length s"
proof (cases "\<forall>c \<in> set s. of_char c < (128::nat)")
  case True
  then show ?thesis by (simp add: ToLower_def)
next
  case False
  then have eq: "ToLower U s = concat (map (\<lambda>r. EncodeRune (to_lower U r)) (runes s))"
    by (auto simp: ToLower_def)
  have "\<forall>r \<in> set (runes s). length (EncodeRune (to_lower U r)) = 1"
    using assms unfolding eq by (intro ballI EncodeRune_ascii) auto
  then have "length (ToLower U s) = length (runes s)"
    unfolding eq by (simp add: length_concat sum_list_triv comp_def cong: map_cong)
  with length_runes show ?thesis by metis
qed

lemma month_ascii: "isMonthFull w \<Longrightarrow> \<forall>c \<in> set w. of_char c < (128::nat)"
  by (auto simp: isMonthFull_def months_def)

lemma length_month: "isMonthFull (ToLower U s) \<Longrightarrow> length (ToLower U s) \<le> length s"
  by (intro length_ToLower month_ascii)

lemma step_sat_with_res [simp]:
  "step_sat N B R (with_res r f) \<longleftrightarrow> (\<exists>a. r = Ok a \<and> step_sat N B R (f a))"
  by (cases r) auto

abbreviation date_sat :: "string \<Rightarrow> ParserOption list \<Rightarrow> date_step \<Rightarrow> bool" where
  "date_sat datestr opts \<equiv>
     step_sat (\<lambda>(p, j). date_inv datestr p (j + 1)) (\<lambda>(p, j). date_fields datestr p j)
       (smaller datestr opts)"

lemmas date_inv_defs = date_inv_def date_fields_def layout_upd month_states_def

lemma nextIs_bound: "nextIs p i b \<Longrightarrow> i + 1 < int (length (p_datestr p))"
  by (simp add: nextIs_def)

lemma alpha_space_sat:
  assumes "date_inv datestr p i" "i \<le> k" "k < int (length datestr)" "stateDate p = dateAlpha"
  shows "date_sat datestr opts (alpha_space U datestr loc p k)"
proof -
  define word where "word = ToLower U (take (nat k) datestr)"
  have k: "1 \<le> k" using assms by (simp add: date_inv_def)
  then have "length (take (nat k) datestr) = nat k" using assms(3) by simp
  then have "isMonthFull word \<Longrightarrow> length word \<le> nat k"
    using length_month [of U "take (nat k) datestr"] by (simp add: word_def)
  then have w: "isMonthFull word \<Longrightarrow> int (length word) \<le> k + 1 \<and> length word \<le> length datestr"
    using k assms(3) by linarith
  have "weight (drop (nat (k + 1)) datestr) < weight datestr"
    by (rule weight_drop_less) (use assms k in auto)
  then have less: "smaller datestr opts (drop (nat (k + 1)) datestr) []" by (simp add: smaller_def)
  have "substr datestr 0 k = Ok (take (nat k) datestr)" using assms(3) k by (simp add: substr_def)
  moreover have "substr datestr k (int (length datestr)) = Ok (drop (nat k) datestr)"
    and "substr datestr (k + 1) (int (length datestr)) = Ok (drop (nat (k + 1)) datestr)"
    using assms(3) k by (simp_all add: substr_def)
  ultimately show ?thesis
    using assms w k less by (simp add: alpha_space_def word_def [symmetric] date_inv_defs)
qed

lemma alpha_period_sat:
  assumes "date_inv datestr p i" "i \<le> k" "k < int (length datestr)" "stateDate p = dateAlpha"
  shows "date_sat datestr opts (alpha_period datestr loc opts p k)"
proof (cases "k = 4")
  case True
  have "weight (take 3 datestr @ drop 4 datestr) < weight datestr"
    by (rule weight_cut) (use True assms(3) in auto)
  with True assms(3) show ?thesis by (simp add: alpha_period_def substr_def smaller_def)
next
  case False
  with assms show ?thesis by (auto simp: alpha_period_def date_inv_defs)
qed

lemma cut_suffix_sat:
  assumes "date_inv datestr p i" "i \<le> k" "k < int (length datestr)"
    and "stateDate p = dateAlphaWsMonthSuffix"
  shows "date_sat datestr opts (cut_suffix datestr loc opts p k c d)"
proof -
  have "weight (take (nat k) datestr @ drop (nat (k + 2)) datestr) < weight datestr"
    by (rule weight_cut) (use assms in \<open>auto simp: date_inv_defs\<close>)
  then show ?thesis
    using assms by (auto simp: cut_suffix_def date_inv_defs substr_Ok_iff smaller_def)
qed

lemma end_part1_sat: "date_inv datestr p (i + 1) \<Longrightarrow> date_sat datestr opts (end_part1 i p)"
  by (simp add: end_part1_def date_inv_def date_fields_def)

lemma on_dateDigit_sat:
  assumes "date_inv datestr p i" "i \<le> k" "k < int (length datestr)" "stateDate p = dateDigit"
  shows "date_sat datestr opts (on_dateDigit U datestr p k r)"
proof -
  have "date_sat datestr opts (digit_dash p k)"
    unfolding digit_dash_def by (rule end_part1_sat) (use assms in \<open>auto simp: date_inv_defs\<close>)
  moreover have "date_sat datestr opts (digit_colon p k)"
    unfolding digit_colon_def by (rule end_part1_sat) (use assms in \<open>auto simp: date_inv_defs\<close>)
  moreover have "date_sat datestr opts (digit_dot p k)"
    unfolding digit_dot_def by (rule end_part1_sat) (use assms in \<open>auto simp: date_inv_defs\<close>)
  moreover have "date_sat datestr opts (digit_space p k)"
    unfolding digit_space_def by (rule end_part1_sat) (use assms in \<open>auto simp: date_inv_defs\<close>)
  moreover have "date_sat datestr opts (digit_slash U datestr p k)"
    using assms by (auto simp: digit_slash_def byte_at_def end_part1_def Let_def date_inv_defs)
  moreover have "date_sat datestr opts (end_part1 k (p\<lparr>stateDate := dateDigitChineseYear\<rparr>))"
    by (rule end_part1_sat) (use assms in \<open>auto simp: date_inv_defs\<close>)
  moreover have "date_inv datestr p (k + 1)" using assms by (auto simp: date_inv_defs)
  ultimately show ?thesis by (simp add: on_dateDigit_def)
qed

text \<open>The states whose steps only write fields.\<close>

lemma on_date_inv:
  assumes "date_inv datestr p i" "i \<le> k" "k < int (length datestr)"
  shows "date_sat datestr opts (on_date U datestr loc opts p k r)"
proof (cases "stateDate p")
  case dateDigit
  with on_dateDigit_sat [OF assms] show ?thesis by (simp add: on_date_def)
next
  case dateAlpha
  with alpha_space_sat [OF assms] alpha_period_sat [OF assms] assms show ?thesis
    by (auto simp: on_date_def on_dateAlpha_def date_inv_defs)
next
  case dateAlphaWsMonthSuffix
  with cut_suffix_sat [OF assms] assms show ?thesis
    by (simp add: on_date_def on_dateAlphaWsMonthSuffix_def) (auto simp: date_inv_defs)
next
  case dateAlphaWsMore
  with assms show ?thesis
    by (auto simp: on_date_def on_dateAlphaWsMore_def date_inv_defs dest: nextIs_bound)
qed (use assms in \<open>auto simp: on_date_def date_step_defs date_inv_defs Let_def dash_year_def\<close>)

lemma date_inv_option: "date_inv datestr (apply_option opt p) i = date_inv datestr p i"
  by (cases opt) (simp_all add: date_inv_def date_fields_def)

lemma date_inv_options: "date_inv datestr (fold apply_option opts p) i = date_inv datestr p i"
  by (induction opts arbitrary: p) (simp_all add: date_inv_option)

lemma date_inv_start: "date_inv datestr (newParser datestr loc opts) 0"
  by (simp add: newParser_def date_inv_options) (simp add: date_inv_def date_fields_def)

lemma last_byte_range:
  assumes "0 \<le> i" "i < int (length s)"
  shows "i \<le> last_byte i (snd (DecodeRune (drop (nat i) s)))"
    "last_byte i (snd (DecodeRune (drop (nat i) s))) < int (length s)"
proof -
  have "snd (DecodeRune (drop (nat i) s)) \<le> length s - nat i"
    using DecodeRune_width [of "drop (nat i) s"] assms by simp
  then have "int (snd (DecodeRune (drop (nat i) s))) \<le> int (length s) - i" using assms by linarith
  with assms show "i \<le> last_byte i (snd (DecodeRune (drop (nat i) s)))"
    "last_byte i (snd (DecodeRune (drop (nat i) s))) < int (length s)"
    by (simp_all add: last_byte_def)
qed

lemma date_loop_sat:
  "date_inv datestr p i \<Longrightarrow>
     step_sat (\<lambda>_. False) (\<lambda>(p, j). date_fields datestr p j) (smaller datestr opts)
       (date_loop U datestr loc opts p i)"
proof (induction U datestr loc opts p i rule: date_loop.induct)
  case (1 U datestr loc opts p i)
  show ?case
  proof (cases "i < int (length datestr)")
    case False
    then show ?thesis using "1.prems" by (subst date_loop.simps) (simp add: date_inv_def)
  next
    case True
    have i: "0 \<le> i" using "1.prems" by (simp add: date_inv_def date_fields_def)
    let ?rest = "drop (nat i) datestr"
    have rest: "substr datestr i (int (length datestr)) = Ok ?rest"
      using True i by (simp add: substr_def)
    let ?s = "on_date U datestr loc opts p (last_byte i (snd (DecodeRune ?rest))) (fst (DecodeRune ?rest))"
    have "date_sat datestr opts ?s"
      by (rule on_date_inv [OF "1.prems"]) (use last_byte_range [OF i True] in auto)
    with "1.IH" [OF True rest] True rest show ?thesis
      by (subst date_loop.simps) (auto split: step.split)
  qed
qed

section \<open>The time loop\<close>

text \<open>
  \<open>ms_below p n\<close>: the zeros that \<open>coalesceTime\<close> writes for the fraction end before \<open>n\<close>. The bytes
  of the full month at the start of the string are never cut off.
\<close>

definition ms_below :: "parser \<Rightarrow> int \<Rightarrow> bool" where
  "ms_below p n \<longleftrightarrow> (0 < msi p \<and> 0 < mslen p \<longrightarrow> msi p + mslen p \<le> n)"

definition time_fields :: "parser \<Rightarrow> int \<Rightarrow> bool" where
  "time_fields p i \<longleftrightarrow>
     length (p_format p) = length (p_datestr p) \<and> ms_below p (int (length (p_format p))) \<and>
     length (fullMonth p) \<le> length (p_format p) \<and> int (length (fullMonth p)) \<le> i \<and>
     (0 < extra p \<longrightarrow> int (length (fullMonth p)) \<le> extra p) \<and> p_t p = None \<and>
     (fullMonth p = [] \<or> stateDate p \<in> month_states) \<and> (skip p = 0 \<or> stateDate p = dateWeekdayComma)"

text \<open>What each state adds: where a cut may come, that no cut has come yet, or no fraction.\<close>

definition time_local :: "string \<Rightarrow> parser \<Rightarrow> int \<Rightarrow> bool" where
  "time_local datestr p i \<longleftrightarrow>
     (case stateTime p of
        timeStart \<Rightarrow> p_datestr p = datestr \<and> mslen p = 0
      | timeWs \<Rightarrow> mslen p = 0
      | timeWsAlpha \<Rightarrow> mslen p = 0 \<and> int (length (fullMonth p)) \<le> tzi p
      | timeWsAMPMMaybe \<Rightarrow> mslen p = 0 \<and> int (length (fullMonth p)) \<le> tzi p
      | timeWsAlphaZoneOffset \<Rightarrow> mslen p = 0
      | timeWsAlphaZoneOffsetWs \<Rightarrow> mslen p = 0
      | timeWsAlphaZoneOffsetWsExtra \<Rightarrow> mslen p = 0
      | timeWsOffset \<Rightarrow> mslen p = 0
      | timeWsOffsetWs \<Rightarrow> mslen p = 0 \<and> int (length (fullMonth p)) + 2 \<le> i
      | timeOffset \<Rightarrow> p_datestr p = datestr \<and> 0 \<le> offseti p \<and> offseti p \<le> int (length datestr)
      | timePeriod \<Rightarrow> p_datestr p = datestr \<and> mslen p = 0
      | timePeriodWs \<Rightarrow> p_datestr p = datestr
      | timePeriodWsOffset \<Rightarrow> ms_below p (i - 2)
      | timePeriodWsOffsetWsAlpha \<Rightarrow> ms_below p (i - 2) \<and> int (length (fullMonth p)) + 2 \<le> i
      | _ \<Rightarrow> True)"

definition time_inv :: "string \<Rightarrow> parser \<Rightarrow> int \<Rightarrow> bool" where
  "time_inv datestr p i \<longleftrightarrow>
     time_fields p i \<and> time_local datestr p i \<and> 0 \<le> i \<and> i \<le> int (length datestr) \<and>
     (stateTime p \<noteq> timeStart \<longrightarrow> int (length (fullMonth p)) + 1 \<le> i)"

text \<open>After the loop; a \<open>break\<close> leaves it in one of two states.\<close>

definition time_post :: "string \<Rightarrow> parser \<Rightarrow> int \<Rightarrow> bool" where
  "time_post datestr p i \<longleftrightarrow>
     time_fields p i \<and> i \<le> int (length datestr) \<and>
     (stateTime p \<in> {timeWsOffsetColonAlpha, timePeriodWsOffsetWsAlpha} \<or> time_local datestr p i)"

lemma coalesce_parts:
  "coalesce_hour p = p\<lparr>p_format := p_format (coalesce_hour p)\<rparr>"
  "length (p_format (coalesce_hour p)) = length (p_format p)"
  "coalesce_min i p = p\<lparr>p_format := p_format (coalesce_min i p), minlen := minlen (coalesce_min i p)\<rparr>"
  "length (p_format (coalesce_min i p)) = length (p_format p)"
  "coalesce_sec i p = p\<lparr>p_format := p_format (coalesce_sec i p), seclen := seclen (coalesce_sec i p)\<rparr>"
  "length (p_format (coalesce_sec i p)) = length (p_format p)"
  by (auto simp: coalesce_hour_def coalesce_min_def coalesce_sec_def set_at_def Let_def)

lemma coalesce_ms_Ok:
  assumes "ms_below p (int (length (p_format p)))"
  obtains F where "length F = length (p_format p)" "coalesce_ms p = Ok (p\<lparr>p_format := F\<rparr>)"
proof (cases "0 < msi p \<and> 0 < mslen p")
  case True
  with assms show ?thesis
    by (intro that [of "overwrite (p_format p) (nat (msi p)) (replicate (nat (mslen p)) CHR ''0'')"])
      (auto simp: coalesce_ms_def ms_below_def)
next
  case False
  then show ?thesis by (intro that [of "p_format p"]) (auto simp: coalesce_ms_def)
qed

lemma coalesceTime_Ok:
  assumes "ms_below p (int (length (p_format p)))"
  obtains F m n where "length F = length (p_format p)"
    and "coalesceTime i p = Ok (p\<lparr>minlen := m, seclen := n, p_format := F\<rparr>)"
proof -
  obtain F1 where 1: "length F1 = length (p_format p)" "coalesce_hour p = p\<lparr>p_format := F1\<rparr>"
    using coalesce_parts(1,2) by blast
  obtain F2 m where 2: "length F2 = length F1"
    "coalesce_min i (coalesce_hour p) = p\<lparr>p_format := F2, minlen := m\<rparr>"
    using coalesce_parts(3,4) [of i "p\<lparr>p_format := F1\<rparr>"] unfolding 1(2) by simp
  define q where "q = coalesce_sec i (p\<lparr>p_format := F2, minlen := m\<rparr>)"
  obtain F3 n where 3: "length F3 = length F2" "q = p\<lparr>minlen := m, p_format := F3, seclen := n\<rparr>"
    using coalesce_parts(5,6) [of i "p\<lparr>p_format := F2, minlen := m\<rparr>"] unfolding q_def by simp
  obtain F where 4: "length F = length (p_format q)" "coalesce_ms q = Ok (q\<lparr>p_format := F\<rparr>)"
    by (rule coalesce_ms_Ok [of q]) (use assms 1 2 3 in \<open>auto simp: ms_below_def\<close>)
  show ?thesis
    by (rule that [of F _ _]) (use 1 2 3 4 in \<open>simp_all add: coalesceTime_def q_def [symmetric]\<close>)
qed

lemma trimExtra_eq:
  "length (p_format p) = length (p_datestr p) \<Longrightarrow>
     trimExtra p = Ok (if 0 < extra p \<and> extra p < int (length (p_format p))
       then p\<lparr>p_format := take (nat (extra p)) (p_format p), p_datestr := take (nat (extra p)) (p_datestr p)\<rparr>
       else p)"
  by (auto simp: trimExtra_def substr_def)

abbreviation time_sat :: "string \<Rightarrow> ParserOption list \<Rightarrow> time_step \<Rightarrow> bool" where
  "time_sat datestr opts \<equiv>
     step_sat (\<lambda>(p, d, j). time_inv d p (j + 1) \<and> weight d = weight datestr)
       (\<lambda>(p, d, j). time_post d p j) (smaller datestr opts)"

lemmas time_inv_defs = time_inv_def time_fields_def time_local_def ms_below_def layout_upd

lemma start_colon_sat:
  assumes "time_inv datestr p i" "i < int (length datestr)" "stateTime p = timeStart"
    and "datestr ! nat i = CHR '':''"
  shows "time_sat datestr opts (start_colon datestr p i)"
proof -
  have n: "nat i < length datestr" "0 \<le> i" using assms by (auto simp: time_inv_def)
  have "weight datestr = weight (take (nat i) datestr @ datestr ! nat i # drop (Suc (nat i)) datestr)"
    using id_take_nth_drop [OF n(1)] by simp
  then have w: "weight (take (nat i) datestr @ CHR ''.'' # drop (nat (i + 1)) datestr) = weight datestr"
    using n assms(4) by (simp add: weight_Cons nat_add_distrib)
  have l: "length (take (nat i) datestr @ CHR ''.'' # drop (nat (i + 1)) datestr) = length datestr"
    using n by simp
  show ?thesis
    using assms n w l by (auto simp: start_colon_def Let_def substr_def time_inv_defs)
qed

lemma coalesced_sat:
  assumes "time_inv datestr p i"
    and "\<And>F m n. length F = length (p_format p) \<Longrightarrow>
      time_sat datestr opts (f (p\<lparr>minlen := m, seclen := n, p_format := F\<rparr>))"
  shows "time_sat datestr opts (coalesced k p f)"
proof -
  have "ms_below p (int (length (p_format p)))" using assms(1) by (auto simp: time_inv_def time_fields_def)
  then obtain F m n where "length F = length (p_format p)"
    "coalesceTime k p = Ok (p\<lparr>minlen := m, seclen := n, p_format := F\<rparr>)"
    by (rule coalesceTime_Ok)
  with assms(2) show ?thesis by simp
qed

lemma on_timeStart_sat:
  assumes inv: "time_inv datestr p i" and i: "i < int (length datestr)" and st: "stateTime p = timeStart"
    and r: "datestr ! nat i = r"
  shows "time_sat datestr opts (on_timeStart datestr loc opts p i r)"
proof -
  define q where "q = (if houri p = 0 then p\<lparr>houri := i\<rparr> else p)"
  have q: "time_inv datestr q i" "stateTime q = timeStart" "p_datestr q = datestr"
    using inv st by (simp_all add: q_def time_inv_defs)
  have n: "nat i < length datestr" "0 \<le> i" using inv i by (auto simp: time_inv_def)
  have comma: "time_sat datestr opts (start_comma datestr loc opts q i)" if "r = CHR '',''"
    using weight_comma [of "nat i" datestr "CHR ''.''"] n q(3) i r that
    by (simp add: start_comma_def put_byte_def smaller_def)
  have sign: "time_inv datestr (start_sign q i) (i + 1)"
    using q i n by (auto simp: start_sign_def Let_def time_inv_defs)
  have zulu: "time_inv datestr (start_zulu q i) (i + 1)"
    using q i n by (auto simp: start_zulu_def time_inv_defs)
  have keep: "time_inv datestr q (i + 1)" using q i n by (auto simp: time_inv_defs)
  have set: "time_inv datestr (set_at i v (q\<lparr>minlen := l, seclen := m, p_format := F\<rparr>)) (i + 1)"
    if "length F = length (p_format q)" for F v l m
    using keep q(2) that by (simp add: time_inv_defs)
  have at: "time_sat datestr opts (start_at datestr q i r)"
  proof (cases "nextIs q i CHR ''t'' \<or> nextIs q i CHR ''T''")
    case True
    then have "i + 1 < int (length datestr)" using q(3) nextIs_bound by metis
    moreover have "i + 1 + 1 < int (length datestr)" if "nextIs q (i + 1) CHR '' ''"
      using that q(3) nextIs_bound by metis
    ultimately show ?thesis using True q n by (auto simp: start_at_def time_inv_defs)
  next
    case False
    then show ?thesis unfolding start_at_def using keep
      by (auto simp del: step_sat_with_res intro!: coalesced_sat [OF q(1)] set)
  qed
  have pm: "time_sat datestr opts (start_pm datestr q i r)"
    unfolding start_pm_def using keep
    by (auto simp del: step_sat_with_res intro!: coalesced_sat [OF q(1)] set)
  have space: "time_sat datestr opts (coalesced i q (\<lambda>p. Next (p\<lparr>stateTime := timeWs\<rparr>, datestr, i)))"
    by (rule coalesced_sat [OF q(1)]) (use q i n in \<open>auto simp: time_inv_defs\<close>)
  have colon: "time_sat datestr opts (start_colon datestr q i)" if "r = CHR '':''"
    using start_colon_sat [OF q(1) i q(2)] r that by simp
  show ?thesis
    using comma sign zulu at pm space colon keep q i n
    by (simp add: on_timeStart_def Let_def q_def [symmetric] del: step_sat_with_res) (auto simp: time_inv_defs)
qed

definition kept_sat :: "string \<Rightarrow> int \<Rightarrow> kept \<Rightarrow> bool" where
  "kept_sat datestr i k =
     (case k of Keep p \<Rightarrow> time_inv datestr p (i + 1) | Leave p \<Rightarrow> time_post datestr p i | Broken \<Rightarrow> False)"

lemma kept_sat_simps [simp]:
  "kept_sat datestr i (Keep p) = time_inv datestr p (i + 1)"
  "kept_sat datestr i (Leave p) = time_post datestr p i"
  "kept_sat datestr i Broken = False"
  by (simp_all add: kept_sat_def)

text \<open>A cut that leaves the month and the fraction in place.\<close>

lemma trim_sat:
  assumes "time_fields p (i + 1)" "ms_below p (extra p)" "int (length (fullMonth p)) \<le> extra p"
    and "0 \<le> i" "i < int (length datestr)" "int (length (fullMonth p)) \<le> i"
    and "\<And>F D. time_local datestr (p\<lparr>p_format := F, p_datestr := D\<rparr>) (i + 1)"
  shows "kept_sat datestr i (kept_res (trimExtra p))"
proof -
  have len: "length (p_format p) = length (p_datestr p)" using assms(1) by (simp add: time_fields_def)
  have tl: "time_local datestr p (i + 1)" using assms(7) [of "p_datestr p" "p_format p"] by simp
  show ?thesis
    using assms tl by (auto simp: trimExtra_eq [OF len] kept_res_def time_inv_def time_fields_def ms_below_def)
qed

lemma cut_m_sat:
  assumes "time_inv datestr p i" "i < int (length datestr)" "1 \<le> i"
    and "stateTime p \<in> {timeWsOffsetWs, timePeriodWsOffsetWsAlpha}"
  shows "kept_sat datestr i (cut_m datestr p i)"
proof -
  have keep: "time_inv datestr p (i + 1)" using assms by (auto simp: time_inv_defs)
  have "kept_sat datestr i (kept_res (trimExtra (p\<lparr>extra := i - 2\<rparr>)))"
    by (rule trim_sat) (use assms in \<open>auto simp: time_inv_defs\<close>)
  with keep assms(2,3) show ?thesis by (simp add: cut_m_def byte_at_def)
qed

lemma on_timeWsOffsetWs_sat:
  assumes "time_inv datestr p i" "i < int (length datestr)" "stateTime p = timeWsOffsetWs"
  shows "kept_sat datestr i (on_timeWsOffsetWs U datestr p i r)"
proof -
  have i: "1 \<le> i" using assms by (auto simp: time_inv_defs)
  have "kept_sat datestr i (kept_res (trimExtra (p\<lparr>extra := i - 1, stateTime := timeWsOffset\<rparr>)))"
    by (rule trim_sat) (use assms in \<open>auto simp: time_inv_defs\<close>)
  moreover have "kept_sat datestr i (cut_m datestr p i)"
    by (rule cut_m_sat) (use assms i in auto)
  ultimately show ?thesis
    using assms by (simp add: on_timeWsOffsetWs_def year_digit_def Let_def) (auto simp: time_inv_defs)
qed

lemma on_timePeriodWsOffset_sat:
  assumes "time_inv datestr p i" "i < int (length datestr)" "stateTime p = timePeriodWsOffset"
  shows "kept_sat datestr i (on_timePeriodWsOffset U p i r)"
proof -
  have "kept_sat datestr i (kept_res (trimExtra (p\<lparr>extra := i - 1\<rparr>)))"
    by (rule trim_sat) (use assms in \<open>auto simp: time_inv_defs\<close>)
  then show ?thesis
    using assms by (simp add: on_timePeriodWsOffset_def) (auto simp: time_inv_defs)
qed

lemma on_time_ws_sat:
  assumes "time_inv datestr p i" "i < int (length datestr)" "stateTime p \<noteq> timeStart"
  shows "kept_sat datestr i (on_time_ws U datestr p i r)"
proof (cases "stateTime p")
  case timeWsOffsetWs
  with assms on_timeWsOffsetWs_sat show ?thesis by (simp add: on_time_ws_def)
next
  case timePeriodWsOffset
  with assms on_timePeriodWsOffset_sat show ?thesis by (simp add: on_time_ws_def)
next
  case timePeriodWsOffsetWsAlpha
  have "kept_sat datestr i (cut_m datestr p i)"
    by (rule cut_m_sat) (use assms timePeriodWsOffsetWsAlpha in \<open>auto simp: time_inv_defs\<close>)
  with timePeriodWsOffsetWsAlpha assms show ?thesis
    by (simp add: on_time_ws_def on_timePeriodWsOffsetWsAlpha_def) (auto simp: time_inv_defs)
qed (use assms in \<open>auto simp: on_time_ws_def on_timeWs_def on_timeWsAlpha_def set_zone_def
  on_timeWsAlphaZoneOffset_def on_timeWsAlphaZoneOffsetWs_def on_timeWsAlphaZoneOffsetWsYear_def
  year_digit_def on_timeWsAMPMMaybe_def on_timeWsOffset_def on_timeWsOffsetColon_def
  on_timePeriod_def on_timePeriodOffsetColon_def on_timePeriodWs_def on_timePeriodWsOffsetColon_def
  Let_def time_post_def time_inv_defs\<close>)

lemma on_time_sat:
  assumes "time_inv datestr p i" "i < int (length datestr)" "datestr ! nat i = r"
  shows "time_sat datestr opts (on_time U datestr loc opts p i r)"
proof (cases "stateTime p = timeStart")
  case True
  with on_timeStart_sat [OF assms(1,2) True assms(3)] show ?thesis by (simp add: on_time_def)
next
  case False
  with on_time_ws_sat [OF assms(1,2) False, of U r] show ?thesis
    by (cases "on_time_ws U datestr p i r") (simp_all add: on_time_def kept_step_def)
qed

lemma time_loop_sat:
  "time_inv datestr p i \<Longrightarrow>
     step_sat (\<lambda>_. False) (\<lambda>(p, d, j). time_post d p j) (smaller datestr opts)
       (time_loop U loc opts p datestr i)"
proof (induction U loc opts p datestr i rule: time_loop.induct)
  case (1 U loc opts p datestr i)
  show ?case
  proof (cases "i < int (length datestr)")
    case False
    then show ?thesis
      using "1.prems" by (subst time_loop.simps) (auto simp: time_inv_def time_post_def)
  next
    case True
    have byte: "byte_at datestr i = Ok (datestr ! nat i)"
      using "1.prems" True by (simp add: byte_at_def time_inv_def)
    have sat: "time_sat datestr opts (on_time U datestr loc opts p i (datestr ! nat i))"
      by (rule on_time_sat [OF "1.prems" True refl])
    show ?thesis
    proof (cases "on_time U datestr loc opts p i (datestr ! nat i)")
      case (Next s)
      obtain p' d j where s: "s = (p', d, j)" by (cases s)
      with Next sat have inv: "time_inv d p' (j + 1)" and w: "weight d = weight datestr" by auto
      from "1.IH" [OF True byte Next, of p' "(d, j)" d j] s inv
      have "step_sat (\<lambda>_. False) (\<lambda>(p, d, j). time_post d p j) (smaller d opts) (time_loop U loc opts p' d (j + 1))"
        by simp
      moreover have "smaller d opts = smaller datestr opts" by (simp add: smaller_def fun_eq_iff w)
      ultimately show ?thesis using True byte Next s by (subst time_loop.simps) simp
    qed (use sat True byte in \<open>subst time_loop.simps, simp\<close>)+
  qed
qed

lemma skip_spaces_Ok:
  "0 \<le> i \<Longrightarrow> i \<le> int (length s) \<Longrightarrow> \<exists>j. skip_spaces s i = Ok j \<and> i \<le> j \<and> j \<le> int (length s)"
proof (induction s i rule: skip_spaces.induct)
  case (1 s i)
  show ?case
  proof (cases "i < int (length s) \<and> s ! nat i = CHR '' ''")
    case True
    then have byte: "byte_at s i = Ok CHR '' ''" using "1.prems" by (simp add: byte_at_def)
    with "1.IH" [OF _ byte] True "1.prems"
    obtain j where "skip_spaces s (i + 1) = Ok j" "i + 1 \<le> j" "j \<le> int (length s)" by auto
    with True byte show ?thesis by (subst skip_spaces.simps) auto
  next
    case False
    then show ?thesis using "1.prems" by (subst skip_spaces.simps) (auto simp: byte_at_def)
  qed
qed

section \<open>After the loops\<close>

text \<open>What \<open>parse\<close> needs: the slices it takes of \<open>format\<close> and \<open>datestr\<close> are in range.\<close>

definition parse_ready :: "parser \<Rightarrow> bool" where
  "parse_ready p \<longleftrightarrow>
     length (fullMonth p) \<le> length (p_format p) \<and>
     (fullMonth p = [] \<or> skip p = 0) \<and>
     (skip p = 0 \<or> length (p_format p) = length (p_datestr p))"

definition sat_fields :: "parser \<Rightarrow> bool" where
  "sat_fields p \<longleftrightarrow>
     length (p_format p) = length (p_datestr p) \<and> length (fullMonth p) \<le> length (p_format p) \<and>
     p_t p = None \<and> (fullMonth p = [] \<or> stateDate p \<in> month_states) \<and>
     (skip p = 0 \<or> stateDate p = dateWeekdayComma)"

lemma coalesceDate_fields:
  assumes "date_fields datestr p i"
  shows "date_fields datestr (coalesceDate i p) i"
proof -
  have "date_fields datestr (coalesce_year i p) i" if "date_fields datestr p i" for p
    using that by (simp add: coalesce_year_def date_fields_def setYear_upd)
  moreover have "date_fields datestr (coalesce_month i p) i" if "date_fields datestr p i" for p
    using that by (simp add: coalesce_month_def date_fields_def setMonth_upd)
  moreover have "date_fields datestr (coalesce_day i p) i" if "date_fields datestr p i" for p
    using that by (simp add: coalesce_day_def date_fields_def setDay_upd)
  ultimately show ?thesis using assms by (simp add: coalesceDate_def)
qed

lemma end_time_sat:
  assumes "time_post datestr p i"
  shows "step_sat (\<lambda>p. time_fields p i) (\<lambda>_. False) R (end_time datestr p i)"
proof (cases "stateTime p")
  case timeWsAlpha
  with assms show ?thesis
    by (auto simp: end_time_def end_alpha_def Let_def trimExtra_eq time_post_def time_inv_defs)
next
  case timeWsAlphaZoneOffsetWsExtra
  with assms show ?thesis
    by (auto simp: end_time_def trimExtra_eq time_post_def time_inv_defs)
next
  case timeOffset
  with assms show ?thesis
    by (auto simp: end_time_def end_offset_def Let_def substr_def time_post_def time_inv_defs)
qed (use assms in \<open>auto simp: end_time_def zone_name_def time_post_def time_inv_defs\<close>)

end
