(* ===== verification/DateParse.thy ===== *)
theory DateParse
  imports DateInvariant
begin

text \<open>
  \<open>parseTime\<close>, \<open>parse\<close> and the exported functions of \<open>date_parse.go\<close>. The recursion of \<open>parseTime\<close>
  ends by the measure of \<open>DateInvariant\<close>, and the retry of the deferred closure by the option it
  turns off.
\<close>

section \<open>The standard library's parser of times\<close>

text \<open>
  \<open>Parse L layout value loc\<close> is \<open>time.Parse\<close> for a nil location and \<open>time.ParseInLocation\<close>
  otherwise; \<open>ErrorText L err\<close> is \<open>err.Error()\<close>.
\<close>

record time_lib =
  Parse :: "string \<Rightarrow> string \<Rightarrow> location option \<Rightarrow> gotime res"
  ErrorText :: "gerr \<Rightarrow> string"

section \<open>The final switch\<close>

type_synonym parsed = "parser option \<times> gerr option"

definition unix_time :: "string \<Rightarrow> gotime" where
  "unix_time datestr =
     (let n = length datestr in
      case ParseInt datestr 10 64 of
        Ok v \<Rightarrow>
          if n = 19 then Unix 0 v
          else if n = 16 then Unix 0 (int64 (v * 1000))
          else if n = 13 then Unix 0 (int64 (int64 (v * 1000) * 1000))
          else if n = 10 then Unix v 0
          else zero_time
      | _ \<Rightarrow> zero_time)"

definition end_digit :: "string \<Rightarrow> location option \<Rightarrow> parser \<Rightarrow> parsed" where
  "end_digit datestr loc p =
     (let n = length datestr; t = unix_time datestr in
      if n = 14 then (Some (p\<lparr>p_format := ''20060102150405''\<rparr>), None)
      else if n = 8 then (Some (p\<lparr>p_format := ''20060102''\<rparr>), None)
      else if n = 4 then (Some (p\<lparr>p_format := ''2006''\<rparr>), None)
      else if n < 4 then (None, Some (Errorf ''unrecognized format, too short %v'' []))
      else if \<not> IsZero t
      then (Some (p\<lparr>p_t := Some (case loc of None \<Rightarrow> t | Some l \<Rightarrow> In t l)\<rparr>), None)
      else (None, Some (unknownErr datestr)))"

definition chinese_layout :: string where
  "chinese_layout =
     ''2006'' @ EncodeRune 0x5E74 @ ''01'' @ EncodeRune 0x6708 @ ''02'' @ EncodeRune 0x65E5"

definition end_date :: "string \<Rightarrow> location option \<Rightarrow> parser \<Rightarrow> int \<Rightarrow> parsed" where
  "end_date datestr loc p i =
     (case stateDate p of
        dateDigit \<Rightarrow> end_digit datestr loc p
      | dateDigitSt \<Rightarrow> (Some p, None)
      | dateYearDash \<Rightarrow> (Some p, None)
      | dateYearDashDash \<Rightarrow> (Some p, None)
      | dateYearDashDashOffset \<Rightarrow>
          (let n = int (length (p_datestr p)) - offseti p in
           (Some (if n = 5 then set_at (offseti p) ''-0700'' p
                  else if n = 6 then set_at (offseti p) ''-07:00'' p else p), None))
      | dateYearDashAlphaDash \<Rightarrow> (Some (setDay (p\<lparr>daylen := i - dayi p\<rparr>)), None)
      | dateYearDashDashWs \<Rightarrow> (Some p, None)
      | dateYearDashDashT \<Rightarrow> (Some p, None)
      | dateDigitDashAlphaDash \<Rightarrow>
          (Some (dash_year (int (length datestr) - (moi p + molen p + 1)) p), None)
      | dateDigitDot \<Rightarrow> (Some (setMonth (p\<lparr>molen := i - moi p\<rparr>)), None)
      | dateDigitDotDot \<Rightarrow> (Some p, None)
      | dateDigitWsMoYear \<Rightarrow> (Some p, None)
      | dateDigitWsMolong \<Rightarrow>
          (Some (p\<lparr>p_format := (if daylen p = 2 then ''02 January 2006'' else ''2 January 2006'')\<rparr>), None)
      | dateAlphaWsMonth \<Rightarrow> (Some (setYear (p\<lparr>yearlen := i - yeari p\<rparr>)), None)
      | dateAlphaWsMonthMore \<Rightarrow> (Some p, None)
      | dateAlphaWsDigitMoreWs \<Rightarrow> (Some (setYear (p\<lparr>yearlen := i - yeari p\<rparr>)), None)
      | dateAlphaWsDigitMoreWsYear \<Rightarrow> (Some p, None)
      | dateAlphaWsAlpha \<Rightarrow> (Some p, None)
      | dateAlphaWsDigit \<Rightarrow> (Some p, None)
      | dateAlphaWsDigitYearmaybe \<Rightarrow> (Some p, None)
      | dateDigitSlash \<Rightarrow> (Some p, None)
      | dateDigitSlashAlpha \<Rightarrow> (Some p, None)
      | dateDigitYearSlash \<Rightarrow> (Some p, None)
      | dateDigitColon \<Rightarrow> (Some p, None)
      | dateDigitChineseYear \<Rightarrow> (Some (p\<lparr>p_format := chinese_layout\<rparr>), None)
      | dateDigitChineseYearWs \<Rightarrow> (Some (p\<lparr>p_format := chinese_layout @ '' 15:04:05''\<rparr>), None)
      | dateWeekdayComma \<Rightarrow> (Some p, None)
      | dateWeekdayAbbrevComma \<Rightarrow> (Some p, None)
      | _ \<Rightarrow> (None, Some (unknownErr datestr)))"

section \<open>parse\<close>

text \<open>The parser is a pointer: \<open>parse\<close> leaves its changes in it.\<close>

definition skip_prefix :: "parser \<Rightarrow> parser res" where
  "skip_prefix p =
     (if 0 < skip p \<and> skip p < int (length (p_format p))
      then
        res_bind (substr (p_format p) (skip p) (int (length (p_format p)))) (\<lambda>f.
        res_bind (substr (p_datestr p) (skip p) (int (length (p_datestr p)))) (\<lambda>d.
          Ok (p\<lparr>p_format := f, p_datestr := d\<rparr>)))
      else Ok p)"

definition parse :: "time_lib \<Rightarrow> parser \<Rightarrow> gotime res \<times> parser" where
  "parse L p =
     (case p_t p of
        Some t \<Rightarrow> (Ok t, p)
      | None \<Rightarrow>
          (case (if fullMonth p \<noteq> [] then setFullMonth (fullMonth p) p else Ok p) of
             Ok p1 \<Rightarrow>
               (case skip_prefix p1 of
                  Ok p2 \<Rightarrow> (Parse L (p_format p2) (p_datestr p2) (p_loc p2), p2)
                | _ \<Rightarrow> (Panic, p1))
           | _ \<Rightarrow> (Panic, p)))"

section \<open>parseTime\<close>

text \<open>The code that follows a loop runs when the loop is left, not when \<open>parseTime\<close> returns from it.\<close>

definition step_bind :: "'s step \<Rightarrow> ('s \<Rightarrow> 't step) \<Rightarrow> 't step" where
  "step_bind s f =
     (case s of
        Next x \<Rightarrow> f x
      | Break x \<Rightarrow> f x
      | Return d p e \<Rightarrow> Return d p e
      | Restart d s l os \<Rightarrow> Restart d s l os
      | Crash \<Rightarrow> Crash)"

lemma step_bind_simps [simp]:
  "step_bind (Next x) f = f x" "step_bind (Break x) f = f x"
  "step_bind (Return d p e) f = Return d p e" "step_bind (Restart d s l os) f = Restart d s l os"
  "step_bind Crash f = Crash"
  by (simp_all add: step_bind_def)

definition time_phase ::
  "unicode_tables \<Rightarrow> location option \<Rightarrow> ParserOption list \<Rightarrow> parser \<Rightarrow> string \<Rightarrow> int \<Rightarrow> time_step" where
  "time_phase U loc opts p datestr i =
     (if stateTime p = timeStart
      then
        with_res (skip_spaces datestr (if i < int (length (p_datestr p)) then i + 1 else i)) (\<lambda>k.
        step_bind (time_loop U loc opts p datestr k) (\<lambda>(p, datestr, i).
        step_bind (end_time datestr p i) (\<lambda>p.
        with_res (coalesceTime i p) (\<lambda>p. Break (p, datestr, i)))))
      else Break (p, datestr, i))"

text \<open>\<open>detect\<close> is the body of \<open>parseTime\<close> after the parser has been made.\<close>

definition detect ::
  "unicode_tables \<Rightarrow> string \<Rightarrow> location option \<Rightarrow> ParserOption list \<Rightarrow> unit step" where
  "detect U datestr loc opts =
     step_bind (date_loop U datestr loc opts (newParser datestr loc opts) 0) (\<lambda>(p, i).
     step_bind (time_phase U loc opts (coalesceDate i p) datestr i) (\<lambda>(p, datestr, i).
       case end_date datestr loc p i of (q, e) \<Rightarrow> Return datestr q e))"

subsection \<open>The body returns a parser or an error, or starts again with less\<close>

definition detect_sat :: "string \<Rightarrow> ParserOption list \<Rightarrow> unit step \<Rightarrow> bool" where
  "detect_sat datestr opts s =
     (case s of
        Return d p e \<Rightarrow> (e = None \<longrightarrow> (\<exists>q. p = Some q \<and> parse_ready q))
      | Restart d s' l o' \<Rightarrow> smaller datestr opts s' o'
      | _ \<Rightarrow> False)"

lemma end_date_sat:
  assumes "sat_fields p"
  shows "case end_date datestr loc p i of (q, e) \<Rightarrow> e = None \<longrightarrow> (\<exists>q'. q = Some q' \<and> parse_ready q')"
proof (cases "stateDate p")
  case dateDigit
  with assms show ?thesis
    by (auto simp: end_date_def end_digit_def Let_def sat_fields_def parse_ready_def month_states_def)
qed (use assms in \<open>auto simp: end_date_def sat_fields_def parse_ready_def month_states_def layout_upd
  dash_year_def Let_def\<close>)

lemma step_sat_bind:
  assumes "step_sat A B R s" "\<And>x. A x \<or> B x \<Longrightarrow> step_sat N' B' R (f x)"
  shows "step_sat N' B' R (step_bind s f)"
  using assms by (cases s) auto

lemma time_phase_sat:
  assumes "date_fields datestr p i"
  shows "step_sat (\<lambda>_. False) (\<lambda>(p, d, j). sat_fields p) (smaller datestr opts)
    (time_phase U loc opts p datestr i)"
proof (cases "stateTime p = timeStart")
  case False
  with assms show ?thesis
    by (auto simp: time_phase_def date_fields_def sat_fields_def)
next
  case True
  let ?k = "if i < int (length (p_datestr p)) then i + 1 else i"
  have "0 \<le> ?k" "?k \<le> int (length datestr)" using assms True by (auto simp: date_fields_def)
  then obtain k where k: "skip_spaces datestr ?k = Ok k" "?k \<le> k" "k \<le> int (length datestr)"
    using skip_spaces_Ok by blast
  have inv: "time_inv datestr p k"
    using assms True k(2,3) by (auto simp: date_fields_def time_inv_defs split: if_splits)
  have fin: "step_sat (\<lambda>_. False) (\<lambda>(p, d, j). sat_fields p) (smaller datestr opts)
      (with_res (coalesceTime j q) (\<lambda>p. Break (p, d, j)))"
    if "time_fields q j" for q j and d :: string
  proof -
    have "ms_below q (int (length (p_format q)))" using that by (auto simp: time_fields_def)
    then obtain F m n where "length F = length (p_format q)"
      "coalesceTime j q = Ok (q\<lparr>minlen := m, seclen := n, p_format := F\<rparr>)" by (rule coalesceTime_Ok)
    with that show ?thesis by (auto simp: time_fields_def sat_fields_def)
  qed
  show ?thesis
    unfolding time_phase_def using True k(1)
    by (auto simp del: step_sat_with_res intro!: step_sat_bind [OF time_loop_sat [OF inv]] step_sat_bind [OF end_time_sat] fin)
qed

lemma detect_sat_bind:
  assumes "step_sat A B (smaller datestr opts) s"
    and "\<And>x. A x \<or> B x \<Longrightarrow> detect_sat datestr opts (f x)"
  shows "detect_sat datestr opts (step_bind s f)"
  using assms by (cases s) (auto simp: detect_sat_def)

lemma detect_ok: "detect_sat datestr opts (detect U datestr loc opts)"
proof -
  have fin: "detect_sat datestr opts (case end_date d loc p j of (q, e) \<Rightarrow> Return d q e)"
    if "sat_fields p" for p d j
    using end_date_sat [OF that, of d loc j] by (cases "end_date d loc p j") (simp add: detect_sat_def)
  have "detect_sat datestr opts (step_bind (time_phase U loc opts (coalesceDate i p) datestr i)
      (\<lambda>(p, datestr, i). case end_date datestr loc p i of (q, e) \<Rightarrow> Return datestr q e))"
    if "date_fields datestr p i" for p i
    by (rule detect_sat_bind [OF time_phase_sat [OF coalesceDate_fields [OF that]]]) (auto intro: fin)
  then show ?thesis
    unfolding detect_def by (intro detect_sat_bind [OF date_loop_sat [OF date_inv_start]]) auto
qed

section \<open>The recursion\<close>

text \<open>
  The retry parses once more with the other preference. The closure declares its own \<open>err\<close>, so
  only the parser of the second attempt replaces the first result.
\<close>

definition retry_opts :: "ParserOption list \<Rightarrow> parser \<Rightarrow> ParserOption list" where
  "retry_opts opts q = opts @ [PreferMonthFirst (\<not> preferMonthFirst q), RetryAmbiguousDateWithSwap False]"

definition wants_retry :: "ParserOption list \<Rightarrow> bool" where
  "wants_retry opts = retryAmbiguousDateWithSwap (newParser [] None opts)"

lemma retry_option:
  "retryAmbiguousDateWithSwap p = retryAmbiguousDateWithSwap q \<Longrightarrow>
     retryAmbiguousDateWithSwap (apply_option opt p) = retryAmbiguousDateWithSwap (apply_option opt q)"
  by (cases opt) simp_all

lemma retry_options:
  "retryAmbiguousDateWithSwap p = retryAmbiguousDateWithSwap q \<Longrightarrow>
     retryAmbiguousDateWithSwap (fold apply_option opts p) = retryAmbiguousDateWithSwap (fold apply_option opts q)"
proof (induction opts arbitrary: p q)
  case (Cons opt opts)
  show ?case using Cons.IH [OF retry_option [OF Cons.prems]] by simp
qed simp

lemma newParser_retry [simp]:
  "retryAmbiguousDateWithSwap (newParser datestr loc opts) = wants_retry opts"
  by (simp add: wants_retry_def newParser_def retry_options)

lemma wants_retry_Nil [simp]: "\<not> wants_retry []"
  by (simp add: wants_retry_def newParser_def)

lemma wants_retry_retry [simp]: "\<not> wants_retry (retry_opts opts q)"
  by (simp add: wants_retry_def retry_opts_def newParser_def)

function parseTime ::
  "time_lib \<Rightarrow> unicode_tables \<Rightarrow> string \<Rightarrow> location option \<Rightarrow> ParserOption list \<Rightarrow> parsed res" where
  "parseTime L U datestr loc opts =
     (let (d, first) =
        (case detect U datestr loc opts of
           Return d p e \<Rightarrow> (d, Ok (p, e))
         | Restart d s l os \<Rightarrow> (d, parseTime L U s l os)
         | _ \<Rightarrow> (datestr, Panic))
      in
        if retryAmbiguousDateWithSwap (newParser datestr loc opts)
        then
          (case first of
             Ok (Some p, e) \<Rightarrow>
               if ambiguousMD p
               then
                 (case parse L p of
                    (Err err, q) \<Rightarrow>
                      if Contains (ErrorText L err) ''month out of range''
                      then map_res (\<lambda>(p2, _). (p2, e)) (parseTime L U d (Some Local) (retry_opts opts q))
                      else Ok (Some q, e)
                  | (Ok _, q) \<Rightarrow> Ok (Some q, e)
                  | (Panic, _) \<Rightarrow> Panic)
               else first
           | _ \<Rightarrow> first)
        else first)"
  by pat_completeness auto
termination
proof (relation "measures [\<lambda>(L, U, datestr, loc, opts). if wants_retry opts then 1 else 0,
    \<lambda>(L, U, datestr, loc, opts). weight datestr]", goal_cases)
  case (2 L U datestr loc opts d s l os)
  then show ?case using detect_ok [of datestr opts U loc] by (auto simp: detect_sat_def smaller_def)
qed simp_all

declare parseTime.simps [simp del]

section \<open>The exported functions\<close>

text \<open>A method call on a nil parser dereferences it.\<close>

definition parse_ptr :: "time_lib \<Rightarrow> parser option \<Rightarrow> gotime res \<times> parser option" where
  "parse_ptr L p = (case p of None \<Rightarrow> (Panic, None) | Some q \<Rightarrow> map_prod id Some (parse L q))"

text \<open>The three functions that differ only in the location.\<close>

definition parse_any ::
  "time_lib \<Rightarrow> unicode_tables \<Rightarrow> location option \<Rightarrow> string \<Rightarrow> ParserOption list \<Rightarrow> gotime res" where
  "parse_any L U loc datestr opts =
     res_bind (parseTime L U datestr loc opts) (\<lambda>(p, e).
       case e of Some err \<Rightarrow> Err err | None \<Rightarrow> fst (parse_ptr L p))"

definition ParseDateAny :: "time_lib \<Rightarrow> unicode_tables \<Rightarrow> string \<Rightarrow> ParserOption list \<Rightarrow> gotime res" where
  "ParseDateAny L U datestr opts = parse_any L U None datestr opts"

definition ParseDateIn ::
  "time_lib \<Rightarrow> unicode_tables \<Rightarrow> string \<Rightarrow> location option \<Rightarrow> ParserOption list \<Rightarrow> gotime res" where
  "ParseDateIn L U datestr loc opts = parse_any L U loc datestr opts"

definition ParseDateLocal :: "time_lib \<Rightarrow> unicode_tables \<Rightarrow> string \<Rightarrow> ParserOption list \<Rightarrow> gotime res" where
  "ParseDateLocal L U datestr opts = parse_any L U (Some Local) datestr opts"

text \<open>\<open>MustParse\<close> panics on every error.\<close>

definition MustParse :: "time_lib \<Rightarrow> unicode_tables \<Rightarrow> string \<Rightarrow> ParserOption list \<Rightarrow> gotime res" where
  "MustParse L U datestr opts =
     (case parse_any L U None datestr opts of Ok t \<Rightarrow> Ok t | _ \<Rightarrow> Panic)"

definition ParseDateFormat :: "time_lib \<Rightarrow> unicode_tables \<Rightarrow> string \<Rightarrow> ParserOption list \<Rightarrow> string res" where
  "ParseDateFormat L U datestr opts =
     res_bind (parseTime L U datestr None opts) (\<lambda>(p, e).
       case e of
         Some err \<Rightarrow> Err err
       | None \<Rightarrow>
           (case parse_ptr L p of
              (r, q) \<Rightarrow> res_bind r (\<lambda>_. case q of Some q \<Rightarrow> Ok (p_format q) | None \<Rightarrow> Panic)))"

definition ErrAmbiguousMMDD :: gerr where
  "ErrAmbiguousMMDD = Errorf ''this date has ambiguous mm/dd vs dd/mm type format'' []"

definition ParseDataStrict :: "time_lib \<Rightarrow> unicode_tables \<Rightarrow> string \<Rightarrow> ParserOption list \<Rightarrow> gotime res" where
  "ParseDataStrict L U datestr opts =
     res_bind (parseTime L U datestr None opts) (\<lambda>(p, e).
       case e of
         Some err \<Rightarrow> Err err
       | None \<Rightarrow>
           (case p of
              None \<Rightarrow> Panic
            | Some q \<Rightarrow> if ambiguousMD q then Err ErrAmbiguousMMDD else fst (parse_ptr L p)))"

end
