(* ===== verification/DateFormats.thy ===== *)
theory DateFormats
  imports DateParse
begin

text \<open>
  What \<open>parseTime\<close> detects for the formats the documentation of the program names: Unix
  timestamps, \<open>yyyy-mm-dd\<close> alone and with a time, and dates with slashes. The statements hold for
  all digits: the loops are run symbolically, a run of digits at a time.
\<close>

section \<open>Running the loops over a known string\<close>

abbreviation digit :: "char \<Rightarrow> bool" where
  "digit c \<equiv> (48::nat) \<le> rune c \<and> rune c \<le> (57::nat)"

lemma digit_not_letter: "digit c \<Longrightarrow> \<not> IsLetter U (rune c)"
  by (simp add: IsLetter_def)

lemma digit_is_digit: "digit c \<Longrightarrow> IsDigit U (rune c)"
  by (simp add: IsDigit_def)

lemma digit_rune_neq:
  assumes "digit c"
  shows "rune c \<noteq> (32::nat)" "rune c \<noteq> (39::nat)" "rune c \<noteq> (43::nat)" "rune c \<noteq> (44::nat)" "rune c \<noteq> (45::nat)"
    "rune c \<noteq> (46::nat)" "rune c \<noteq> (47::nat)" "rune c \<noteq> (58::nat)" "rune c \<noteq> (84::nat)"
    "rune c \<noteq> (0x2212::nat)" "rune c \<noteq> (0x5E74::nat)" "rune c < (128::nat)"
  using assms by auto

lemma digit_char_neq:
  assumes "digit c" "\<not> digit d"
  shows "c \<noteq> d"
  using assms by auto

lemmas digit_simps = digit_not_letter digit_is_digit digit_rune_neq

lemma all_digits_set: "all_digits w \<Longrightarrow> c \<in> set w \<Longrightarrow> digit c"
  by (simp add: all_digits_def)

lemma date_loop_end: "int (length s) \<le> i \<Longrightarrow> date_loop U s loc opts p i = Break (p, i)"
  by (subst date_loop.simps) simp

lemma date_loop_char:
  assumes "s = pre @ c # post" "i = int (length pre)" "of_char c < (128::nat)"
  shows "date_loop U s loc opts p i =
    (case on_date U s loc opts p i (rune c) of Next (p', j) \<Rightarrow> date_loop U s loc opts p' (j + 1) | x \<Rightarrow> x)"
  using assms
  by (subst date_loop.simps) (simp add: substr_def DecodeRune_ascii last_byte_def)

lemma date_loop_run:
  assumes "s = pre @ w @ post" "i = int (length pre)"
    and "\<And>c k. c \<in> set w \<Longrightarrow> of_char c < (128::nat) \<and> on_date U s loc opts p k (rune c) = Next (p, k)"
  shows "date_loop U s loc opts p i = date_loop U s loc opts p (i + int (length w))"
  using assms
proof (induction w arbitrary: pre i)
  case (Cons c w)
  have "date_loop U s loc opts p i = date_loop U s loc opts p (i + 1)"
    using date_loop_char [of s pre c "w @ post" i U loc opts p] Cons.prems by simp
  also have "\<dots> = date_loop U s loc opts p (i + 1 + int (length w))"
    by (rule Cons.IH [of "pre @ [c]"]) (use Cons.prems in auto)
  finally show ?case by (simp add: algebra_simps)
qed simp

lemma time_loop_end: "int (length s) \<le> i \<Longrightarrow> time_loop U loc opts p s i = Break (p, s, i)"
  by (subst time_loop.simps) simp

lemma time_loop_char:
  assumes "s = pre @ c # post" "i = int (length pre)"
  shows "time_loop U loc opts p s i =
    (case on_time U s loc opts p i c of Next (p', d, j) \<Rightarrow> time_loop U loc opts p' d (j + 1) | x \<Rightarrow> x)"
  using assms by (subst time_loop.simps) (simp add: byte_at_def)

lemma time_loop_run:
  assumes "s = pre @ w @ post" "i = int (length pre)"
    and "\<And>c k. c \<in> set w \<Longrightarrow> on_time U s loc opts p k c = Next (p, s, k)"
  shows "time_loop U loc opts p s i = time_loop U loc opts p s (i + int (length w))"
  using assms
proof (induction w arbitrary: pre i)
  case (Cons c w)
  have "time_loop U loc opts p s i = time_loop U loc opts p s (i + 1)"
    using time_loop_char [of s pre c "w @ post" i U loc opts p] Cons.prems by simp
  also have "\<dots> = time_loop U loc opts p s (i + 1 + int (length w))"
    by (rule Cons.IH [of "pre @ [c]"]) (use Cons.prems in auto)
  finally show ?case by (simp add: algebra_simps)
qed simp

text \<open>Layout fragments that replace a part of the same length.\<close>

lemma set_bytes_middle:
  "start = int (length a) \<Longrightarrow> length b = length v \<Longrightarrow> set_bytes (a @ b @ c) start v = a @ v @ c"
  by (simp add: set_bytes_def overwrite_def)

text \<open>The options only set the two preferences of a new parser.\<close>

definition prefers_month :: "ParserOption list \<Rightarrow> bool" where
  "prefers_month opts = preferMonthFirst (newParser [] None opts)"

lemma fold_options:
  "fold apply_option opts p =
     p\<lparr>preferMonthFirst := preferMonthFirst (fold apply_option opts p),
       retryAmbiguousDateWithSwap := retryAmbiguousDateWithSwap (fold apply_option opts p)\<rparr>"
proof (induction opts arbitrary: p)
  case (Cons opt opts)
  show ?case
    by (cases opt) (simp_all, (subst Cons.IH, simp)+)
qed simp

lemma newParser_fields [simp]:
  "p_loc (newParser s loc opts) = loc"
  "ambiguousMD (newParser s loc opts) = False"
  "stateDate (newParser s loc opts) = dateStart"
  "stateTime (newParser s loc opts) = timeIgnore"
  "p_format (newParser s loc opts) = s"
  "p_datestr (newParser s loc opts) = s"
  "fullMonth (newParser s loc opts) = []"
  "skip (newParser s loc opts) = 0"
  "yeari (newParser s loc opts) = 0" "yearlen (newParser s loc opts) = 0"
  "moi (newParser s loc opts) = 0" "molen (newParser s loc opts) = 0"
  "dayi (newParser s loc opts) = 0" "daylen (newParser s loc opts) = 0"
  "houri (newParser s loc opts) = 0" "hourlen (newParser s loc opts) = 0"
  "mini (newParser s loc opts) = 0" "minlen (newParser s loc opts) = 0"
  "seci (newParser s loc opts) = 0" "seclen (newParser s loc opts) = 0"
  "msi (newParser s loc opts) = 0" "mslen (newParser s loc opts) = 0"
  "p_t (newParser s loc opts) = None"
  by (simp_all add: newParser_def, (subst fold_options, simp)+)

lemma prefer_option:
  "preferMonthFirst p = preferMonthFirst q \<Longrightarrow>
     preferMonthFirst (fold apply_option opts p) = preferMonthFirst (fold apply_option opts q)"
proof (induction opts arbitrary: p q)
  case (Cons opt opts)
  have "preferMonthFirst (apply_option opt p) = preferMonthFirst (apply_option opt q)"
    using Cons.prems by (cases opt) simp_all
  from Cons.IH [OF this] show ?case by simp
qed simp

lemma newParser_prefers [simp]: "preferMonthFirst (newParser s loc opts) = prefers_month opts"
  by (simp add: prefers_month_def newParser_def prefer_option)

lemma prefers_month_Nil [simp]: "prefers_month []"
  by (simp add: prefers_month_def newParser_def)

section \<open>Timestamps\<close>

lemma detect_digits:
  assumes "all_digits s" "s \<noteq> []"
  shows "detect U s loc opts =
    (case end_digit s loc ((newParser s loc opts)\<lparr>stateDate := dateDigit\<rparr>) of (q, e) \<Rightarrow> Return s q e)"
proof -
  obtain c w where s: "s = c # w" using assms(2) by (cases s) auto
  have c: "digit c" and w: "\<And>d. d \<in> set w \<Longrightarrow> digit d" using assms(1) by (auto simp: s all_digits_def)
  let ?p = "(newParser s loc opts)\<lparr>stateDate := dateDigit\<rparr>"
  have "date_loop U s loc opts (newParser s loc opts) 0 = date_loop U s loc opts ?p 1"
    using date_loop_char [of s "[]" c w 0] c by (simp add: s on_date_def on_dateStart_def digit_simps)
  also have "\<dots> = date_loop U s loc opts ?p (1 + int (length w))"
  proof (rule date_loop_run)
    show "s = [c] @ w @ []" by (simp add: s)
  next
    fix d k assume "d \<in> set w"
    then have "digit d" by (rule w)
    then show "of_char d < (128::nat) \<and> on_date U s loc opts ?p k (rune d) = Next (?p, k)"
      by (simp add: on_date_def on_dateDigit_def digit_simps)
  qed simp
  also have "\<dots> = Break (?p, int (length s))"
    by (subst date_loop_end) (simp_all add: s)
  finally show ?thesis
    by (simp add: detect_def coalesceDate_def coalesce_year_def coalesce_month_def coalesce_day_def
        time_phase_def end_date_def)
qed

lemma parse_any_detect:
  assumes "detect U s loc opts = Return d (Some q) None" "\<not> wants_retry opts"
  shows "parse_any L U loc s opts = fst (parse L q)"
    "parseTime L U s loc opts = Ok (Some q, None)"
  using assms by (simp_all add: parse_any_def parseTime.simps [of L U s loc opts] parse_ptr_def)

lemma ParseInt_digits:
  assumes "all_digits s" "s \<noteq> []" "decimal s < 2 ^ 63"
  shows "ParseInt s 10 64 = Ok (int (decimal s))"
proof -
  obtain c w where s: "s = c # w" using assms(2) by (cases s) auto
  have "digit c" using assms(1) by (simp add: s all_digits_def)
  then have c: "c \<noteq> CHR ''+''" "c \<noteq> CHR ''-''" by auto
  have "ParseUint s 10 64 = Ok (decimal s)"
    using assms by (simp add: ParseUint_def parse_digits_decimal)
  with assms(3) c show ?thesis by (simp add: s ParseInt_def drop_sign_def sign_value_def)
qed

lemma decimal_from_less: "all_digits s \<Longrightarrow> decimal_from n s < (n + 1) * 10 ^ length s"
proof (induction n s rule: decimal_from.induct)
  case (2 n c cs)
  have "digit c" "all_digits cs" using "2.prems" by (simp_all add: all_digits_def)
  then have "decimal_from (n * 10 + (rune c - 48)) cs < (n * 10 + (rune c - 48) + 1) * 10 ^ length cs"
    using "2.IH" by simp
  also have "\<dots> \<le> ((n + 1) * 10) * 10 ^ length cs"
  proof (rule mult_le_mono1)
    have "rune c - 48 < (10::nat)" using \<open>digit c\<close> by auto
    then show "n * 10 + (rune c - 48) + 1 \<le> (n + 1) * 10" by simp
  qed
  finally show ?case by (simp add: algebra_simps)
qed simp

lemma decimal_less: "all_digits s \<Longrightarrow> decimal s < 10 ^ length s"
  using decimal_from_less [of s 0] by simp

lemma Unix_not_zero: "- 62135596800 < sec + ns div 1000000000 \<Longrightarrow> \<not> IsZero (Unix sec ns)"
  by (simp add: IsZero_def Unix_def)

lemma int64_bounds: "- (2 ^ 63) \<le> int64 x" "int64 x < 2 ^ 63"
  using sint_greater_eq [of "word_of_int x :: 64 word"] sint_less [of "word_of_int x :: 64 word"]
  by (simp_all add: int64_def)

text \<open>The time a string of digits stands for, by its length.\<close>

definition stamp_time :: "string \<Rightarrow> gotime" where
  "stamp_time s =
     (if length s = 10 then Unix (int (decimal s)) 0
      else if length s = 13 then Unix 0 (int64 (int (decimal s) * 1000000))
      else if length s = 16 then Unix 0 (int64 (int (decimal s) * 1000))
      else Unix 0 (int (decimal s)))"

lemma unix_time_stamp:
  assumes "all_digits s" "decimal s < 2 ^ 63" "length s \<in> {10, 13, 16, 19}"
  shows "unix_time s = stamp_time s" "\<not> IsZero (unix_time s)"
proof -
  have ne: "s \<noteq> []" using assms(3) by auto
  have nn: "int64 (int64 (int (decimal s) * 1000) * 1000) = int64 (int (decimal s) * 1000000)"
    by (simp only: int64_mult mult.assoc) simp
  show eq: "unix_time s = stamp_time s"
    using ParseInt_digits [OF assms(1) ne assms(2)] assms(3)
    by (auto simp: unix_time_def stamp_time_def Let_def nn)
  have "- 62135596800 < int64 x div 1000000000" for x
  proof -
    have "- 9223372037 * 1000000000 \<le> int64 x" using int64_bounds(1) [of x] by simp
    then have "- 9223372037 * 1000000000 div 1000000000 \<le> int64 x div 1000000000"
      by (rule zdiv_mono1) simp
    then show ?thesis by simp
  qed
  moreover have "- 62135596800 < int (decimal s) div 1000000000"
    by (rule order_less_le_trans [of _ 0]) simp_all
  ultimately show "\<not> IsZero (unix_time s)"
    using assms(3) unfolding eq stamp_time_def by (auto intro!: Unix_not_zero)
qed

text \<open>A timestamp is read as seconds, milliseconds, microseconds or nanoseconds.\<close>

lemma parse_any_stamp:
  assumes "all_digits s" "decimal s < 2 ^ 63" "length s \<in> {10, 13, 16, 19}" "\<not> wants_retry opts"
  shows "parse_any L U loc s opts = Ok (case loc of None \<Rightarrow> stamp_time s | Some l \<Rightarrow> In (stamp_time s) l)"
proof -
  have ne: "s \<noteq> []" using assms(3) by auto
  let ?q = "(newParser s loc opts)\<lparr>stateDate := dateDigit,
    p_t := Some (case loc of None \<Rightarrow> stamp_time s | Some l \<Rightarrow> In (stamp_time s) l)\<rparr>"
  have "detect U s loc opts = Return s (Some ?q) None"
    using unix_time_stamp [OF assms(1-3)] assms(3)
    by (elim insertE emptyE) (simp_all add: detect_digits [OF assms(1) ne] end_digit_def Let_def)
  from parse_any_detect(1) [OF this assms(4)] show ?thesis by (simp add: parse_def)
qed

section \<open>Dates with dashes\<close>

definition mon_frag :: "nat \<Rightarrow> string" where
  "mon_frag n = (if n = 2 then ''01'' else ''1'')"

definition day_frag :: "nat \<Rightarrow> string" where
  "day_frag n = (if n = 2 then ''02'' else ''2'')"

definition year_frag :: "nat \<Rightarrow> string" where
  "year_frag n = (if n = 2 then ''06'' else ''2006'')"

text \<open>The part of a date: one or two digits.\<close>

definition part :: "string \<Rightarrow> bool" where
  "part w \<longleftrightarrow> all_digits w \<and> (length w = 1 \<or> length w = 2)"

lemma setMonth_middle:
  assumes "p_format p = a @ w @ b" "moi p = int (length a)" "molen p = int (length w)"
    and "length w = 1 \<or> length w = 2"
  shows "setMonth p = p\<lparr>p_format := a @ mon_frag (length w) @ b\<rparr>"
  using assms set_bytes_middle [of "moi p" a w "mon_frag (length w)" b]
  by (auto simp: setMonth_def set_at_def mon_frag_def)

lemma setDay_middle:
  assumes "p_format p = a @ w @ b" "dayi p = int (length a)" "daylen p = int (length w)"
    and "length w = 1 \<or> length w = 2"
  shows "setDay p = p\<lparr>p_format := a @ day_frag (length w) @ b\<rparr>"
  using assms set_bytes_middle [of "dayi p" a w "day_frag (length w)" b]
  by (auto simp: setDay_def set_at_def day_frag_def)

lemma setYear_middle:
  assumes "p_format p = a @ w @ b" "yeari p = int (length a)" "yearlen p = int (length w)"
    and "length w = 2 \<or> length w = 4"
  shows "setYear p = p\<lparr>p_format := a @ year_frag (length w) @ b\<rparr>"
  using assms set_bytes_middle [of "yeari p" a w "year_frag (length w)" b]
  by (auto simp: setYear_def set_at_def year_frag_def)

lemma length_frags [simp]:
  "n = 1 \<or> n = 2 \<Longrightarrow> length (mon_frag n) = n"
  "n = 1 \<or> n = 2 \<Longrightarrow> length (day_frag n) = n"
  "n = 2 \<or> n = 4 \<Longrightarrow> length (year_frag n) = n"
  by (auto simp: mon_frag_def day_frag_def year_frag_def)

text \<open>The first digits of a string, up to a rune that ends them.\<close>

lemma date_loop_first_part:
  assumes s: "s = w @ post" and w: "all_digits w" "w \<noteq> []"
  shows "date_loop U s loc opts (newParser s loc opts) 0 =
    date_loop U s loc opts ((newParser s loc opts)\<lparr>stateDate := dateDigit\<rparr>) (int (length w))"
proof -
  obtain c v where cv: "w = c # v" using w(2) by (cases w) auto
  have c: "digit c" and v: "\<And>d. d \<in> set v \<Longrightarrow> digit d" using w(1) by (auto simp: cv all_digits_def)
  let ?p = "(newParser s loc opts)\<lparr>stateDate := dateDigit\<rparr>"
  have "date_loop U s loc opts (newParser s loc opts) 0 = date_loop U s loc opts ?p 1"
    using date_loop_char [of s "[]" c "v @ post" 0] c s cv by (simp add: on_date_def on_dateStart_def digit_simps)
  also have "\<dots> = date_loop U s loc opts ?p (1 + int (length v))"
    by (rule date_loop_run [of s "[c]" v post])
      (use s cv in \<open>simp_all add: on_date_def on_dateDigit_def digit_simps [OF v]\<close>)
  finally show ?thesis by (simp add: cv)
qed

definition dash_parser :: "parser \<Rightarrow> nat \<Rightarrow> string \<Rightarrow> parser" where
  "dash_parser p n rest =
     p\<lparr>stateDate := dateYearDashDash, yearlen := 4, moi := 5, part1Len := 4, molen := int n,
       dayi := 6 + int n, p_format := ''2006-'' @ mon_frag n @ ''-'' @ rest\<rparr>"

lemma date_loop_dashes:
  assumes s: "s = y @ ''-'' @ m @ ''-'' @ rest" and y: "all_digits y" "length y = 4" and m: "part m"
  shows "date_loop U s loc opts (newParser s loc opts) 0 =
    date_loop U s loc opts (dash_parser (newParser s loc opts) (length m) rest) (6 + int (length m))"
proof -
  let ?p = "(newParser s loc opts)\<lparr>stateDate := dateDigit\<rparr>"
  let ?q = "(newParser s loc opts)\<lparr>stateDate := dateYearDash, yearlen := 4, moi := 5, part1Len := 4,
    p_format := ''2006-'' @ m @ ''-'' @ rest\<rparr>"
  have ml: "length m = 1 \<or> length m = 2" using m by (simp add: part_def)
  have ne: "y \<noteq> []" using y(2) by auto
  have "date_loop U s loc opts (newParser s loc opts) 0 = date_loop U s loc opts ?p 4"
    using date_loop_first_part [of s y "''-'' @ m @ ''-'' @ rest" U loc opts] s y(1) ne y(2) by simp
  also have "\<dots> = date_loop U s loc opts ?q 5"
  proof -
    have f: "set_bytes s 0 ''2006'' = ''2006-'' @ m @ ''-'' @ rest"
      using set_bytes_middle [of 0 "[]" y "''2006''" "''-'' @ m @ ''-'' @ rest"] y(2) by (simp add: s)
    have "on_date U s loc opts ?p 4 (rune CHR ''-'') = Next (?q, 4)"
      by (simp add: on_date_def on_dateDigit_def digit_dash_def end_part1_def set_at_def f)
    then show ?thesis
      using date_loop_char [of s y "CHR ''-''" "m @ ''-'' @ rest" 4 U loc opts ?p] s y(2) by simp
  qed
  also have "\<dots> = date_loop U s loc opts ?q (5 + int (length m))"
    by (rule date_loop_run [of s "y @ ''-''" m "''-'' @ rest"])
      (use s y(2) m in \<open>auto simp: part_def on_date_def on_dateYearDash_def digit_simps dest!: all_digits_set\<close>)
  also have "\<dots> = date_loop U s loc opts (dash_parser (newParser s loc opts) (length m) rest) (6 + int (length m))"
  proof -
    have "on_date U s loc opts ?q (5 + int (length m)) (rune CHR ''-'') =
        Next (dash_parser (newParser s loc opts) (length m) rest, 5 + int (length m))"
      using setMonth_middle [of "?q\<lparr>molen := int (length m), dayi := 6 + int (length m), stateDate := dateYearDashDash\<rparr>"
          "''2006-''" m "''-'' @ rest"] ml
      by (simp add: on_date_def on_dateYearDash_def dash_parser_def)
    then show ?thesis
      using date_loop_char [of s "y @ ''-'' @ m" "CHR ''-''" rest "5 + int (length m)" U loc opts ?q] s y(2) by simp
  qed
  finally show ?thesis .
qed

lemma coalesce_dashes:
  assumes "part d" "length m = 1 \<or> length m = 2"
    and "p = dash_parser q (length m) (d @ post)" "daylen q = 0" "yeari q = 0"
    and "i = 6 + int (length m) + int (length d)"
  shows "coalesceDate i p =
    p\<lparr>daylen := int (length d), p_format := ''2006-'' @ mon_frag (length m) @ ''-'' @ day_frag (length d) @ post\<rparr>"
proof -
  have d: "length d = 1 \<or> length d = 2" using assms(1) by (simp add: part_def)
  have m: "m \<noteq> []" using assms(2) by auto
  have "setDay (p\<lparr>daylen := int (length d)\<rparr>) =
      p\<lparr>daylen := int (length d), p_format := (''2006-'' @ mon_frag (length m) @ ''-'') @ day_frag (length d) @ post\<rparr>"
    by (subst setDay_middle [of _ "''2006-'' @ mon_frag (length m) @ ''-''" d post])
      (use assms(2,3) d in \<open>simp_all add: dash_parser_def\<close>)
  with assms(2-6) m show ?thesis
    by (simp add: coalesceDate_def coalesce_year_def coalesce_month_def coalesce_day_def dash_parser_def)
qed

lemma detect_dashes:
  assumes s: "s = y @ ''-'' @ m @ ''-'' @ d" and y: "all_digits y" "length y = 4"
    and m: "part m" and d: "part d"
  shows "detect U s loc opts = Return s
    (Some ((dash_parser (newParser s loc opts) (length m) d)\<lparr>daylen := int (length d),
        p_format := ''2006-'' @ mon_frag (length m) @ ''-'' @ day_frag (length d)\<rparr>)) None"
proof -
  let ?p = "dash_parser (newParser s loc opts) (length m) d"
  have ml: "length m = 1 \<or> length m = 2" using m by (simp add: part_def)
  have "date_loop U s loc opts (newParser s loc opts) 0 = date_loop U s loc opts ?p (6 + int (length m))"
    by (rule date_loop_dashes [OF s y m])
  also have "\<dots> = date_loop U s loc opts ?p (6 + int (length m) + int (length d))"
    by (rule date_loop_run [of s "y @ ''-'' @ m @ ''-''" d "[]"])
      (use s y(2) d in \<open>auto simp: part_def dash_parser_def on_date_def on_dateYearDashDash_def digit_simps
        dest!: all_digits_set\<close>)
  also have "\<dots> = Break (?p, 6 + int (length m) + int (length d))"
    by (rule date_loop_end) (use s y(2) in simp)
  finally show ?thesis
    using coalesce_dashes [OF d ml, of ?p "newParser s loc opts" "[]"]
    by (simp add: detect_def time_phase_def end_date_def) (simp add: dash_parser_def end_date_def)
qed

section \<open>A time of day\<close>

lemma digit_chars:
  assumes "digit c"
  shows "c \<noteq> CHR '',''" "c \<noteq> CHR ''-''" "c \<noteq> CHR ''+''" "c \<noteq> CHR ''.''" "c \<noteq> CHR ''Z''" "c \<noteq> CHR ''a''"
    "c \<noteq> CHR ''A''" "c \<noteq> CHR ''p''" "c \<noteq> CHR ''P''" "c \<noteq> CHR '' ''" "c \<noteq> CHR '':''"
  using assms by auto

lemma on_time_digit:
  "digit c \<Longrightarrow> stateTime p = timeStart \<Longrightarrow>
     on_time U s loc opts p k c = Next (if houri p = 0 then p\<lparr>houri := k\<rparr> else p, s, k)"
  by (simp add: on_time_def on_timeStart_def digit_chars Let_def)

lemma time_loop_digits:
  assumes "s = pre @ w @ post" "i = int (length pre)" "all_digits w" "stateTime p = timeStart" "houri p \<noteq> 0"
  shows "time_loop U loc opts p s i = time_loop U loc opts p s (i + int (length w))"
  by (rule time_loop_run [OF assms(1,2)])
    (use assms(3-5) in \<open>auto simp: on_time_digit dest!: all_digits_set\<close>)

definition clock_parser :: "parser \<Rightarrow> int \<Rightarrow> nat \<Rightarrow> nat \<Rightarrow> parser" where
  "clock_parser p i h m =
     p\<lparr>houri := i, mini := i + int h + 1, hourlen := int h, seci := i + int h + int m + 2, minlen := int m\<rparr>"

lemma time_loop_clock:
  assumes s: "s = pre @ h @ '':'' @ m @ '':'' @ sec" and i: "i = int (length pre)" "pre \<noteq> []"
    and w: "part h" "part m" "part sec"
    and p: "stateTime p = timeStart" "houri p = 0" "mini p = 0" "seci p = 0"
  shows "time_loop U loc opts p s i = Break (clock_parser p i (length h) (length m), s, int (length s))"
proof -
  obtain c v where h: "h = c # v" using w(1) by (cases h) (auto simp: part_def)
  have d: "digit c" "all_digits v" "all_digits m" "all_digits sec"
    using w h by (auto simp: part_def all_digits_def)
  have i0: "0 < i" using i by simp
  let ?p1 = "p\<lparr>houri := i\<rparr>"
  let ?p2 = "p\<lparr>houri := i, mini := i + int (length h) + 1, hourlen := int (length h)\<rparr>"
  let ?p3 = "clock_parser p i (length h) (length m)"
  have "time_loop U loc opts p s i = time_loop U loc opts ?p1 s (i + 1)"
    using time_loop_char [of s pre c "v @ '':'' @ m @ '':'' @ sec" i U loc opts p] s i(1) h p(1,2)
    by (simp add: on_time_digit [OF d(1)])
  also have "\<dots> = time_loop U loc opts ?p1 s (i + int (length h))"
    using time_loop_digits [of s "pre @ [c]" v "'':'' @ m @ '':'' @ sec" "i + 1" ?p1 U loc opts] s i i0 h p d(2)
    by (simp add: algebra_simps)
  also have "\<dots> = time_loop U loc opts ?p2 s (i + int (length h) + 1)"
    using time_loop_char [of s "pre @ h" "CHR '':''" "m @ '':'' @ sec" "i + int (length h)" U loc opts ?p1] s i(1) i0 p
    by (simp add: on_time_def on_timeStart_def start_colon_def)
  also have "\<dots> = time_loop U loc opts ?p2 s (i + int (length h) + 1 + int (length m))"
    by (rule time_loop_digits [of s "pre @ h @ '':''" m "'':'' @ sec"]) (use s i i0 p d(3) in simp_all)
  also have "\<dots> = time_loop U loc opts ?p3 s (i + int (length h) + 1 + int (length m) + 1)"
    using time_loop_char [of s "pre @ h @ '':'' @ m" "CHR '':''" sec "i + int (length h) + 1 + int (length m)" U loc opts ?p2]
      s i(1) i0 p
    by (simp add: on_time_def on_timeStart_def start_colon_def clock_parser_def algebra_simps)
  also have "\<dots> = time_loop U loc opts ?p3 s (i + int (length h) + 1 + int (length m) + 1 + int (length sec))"
    by (rule time_loop_digits [of s "pre @ h @ '':'' @ m @ '':''" sec "[]"])
      (use s i i0 p d(4) in \<open>simp_all add: clock_parser_def\<close>)
  also have "\<dots> = Break (?p3, s, int (length s))"
    by (subst time_loop_end) (use s i in \<open>simp_all add: algebra_simps\<close>)
  finally show ?thesis .
qed

definition clock_layout :: "nat \<Rightarrow> nat \<Rightarrow> nat \<Rightarrow> string" where
  "clock_layout h m sec =
     (if h = 2 then ''15'' else ''3'') @ '':'' @ (if m = 2 then ''04'' else ''4'') @ '':'' @
     (if sec = 2 then ''05'' else ''5'')"

lemma set_at_middle:
  "p_format p = a @ b @ c \<Longrightarrow> start = int (length a) \<Longrightarrow> length b = length v \<Longrightarrow>
     set_at start v p = p\<lparr>p_format := a @ v @ c\<rparr>"
  by (simp add: set_at_def set_bytes_middle)

lemma coalesceTime_clock:
  assumes f: "p_format p = a @ h @ '':'' @ m @ '':'' @ sec" and i: "i = int (length a)" "a \<noteq> []"
    and w: "part h" "part m" "part sec" and p: "msi p = 0" "seclen p = 0"
    and fin: "fin = i + int (length h) + int (length m) + int (length sec) + 2"
  shows "coalesceTime fin (clock_parser p i (length h) (length m)) =
    Ok ((clock_parser p i (length h) (length m))
          \<lparr>seclen := int (length sec), p_format := a @ clock_layout (length h) (length m) (length sec)\<rparr>)"
proof -
  let ?q = "clock_parser p i (length h) (length m)"
  let ?hh = "if length h = 2 then ''15'' else ''3''" and ?mm = "if length m = 2 then ''04'' else ''4''"
    and ?ss = "if length sec = 2 then ''05'' else ''5''"
  have i0: "0 < i" using i by simp
  have l: "length h = 1 \<or> length h = 2" "length m = 1 \<or> length m = 2" "length sec = 1 \<or> length sec = 2"
    using w by (simp_all add: part_def)
  have 1: "set_bytes (a @ h @ '':'' @ m @ '':'' @ sec) i ?hh = a @ ?hh @ '':'' @ m @ '':'' @ sec"
    using set_bytes_middle [of i a h ?hh "'':'' @ m @ '':'' @ sec"] l(1) i(1) by auto
  have 2: "set_bytes (a @ ?hh @ '':'' @ m @ '':'' @ sec) (i + int (length h) + 1) ?mm =
      a @ ?hh @ '':'' @ ?mm @ '':'' @ sec"
    using set_bytes_middle [of "i + int (length h) + 1" "a @ ?hh @ '':''" m ?mm "'':'' @ sec"] l(1,2) i(1) by auto
  have 3: "set_bytes (a @ ?hh @ '':'' @ ?mm @ '':'' @ sec) (i + int (length h) + int (length m) + 2) ?ss =
      a @ ?hh @ '':'' @ ?mm @ '':'' @ ?ss"
    using set_bytes_middle [of "i + int (length h) + int (length m) + 2" "a @ ?hh @ '':'' @ ?mm @ '':''" sec ?ss "[]"] l i(1)
    by auto
  have "coalesce_hour ?q = ?q\<lparr>p_format := a @ ?hh @ '':'' @ m @ '':'' @ sec\<rparr>"
    using l(1)
    by (elim disjE) (use i0 f 1 in \<open>simp_all add: coalesce_hour_def clock_parser_def set_at_def\<close>)
  moreover have "coalesce_min fin (?q\<lparr>p_format := a @ ?hh @ '':'' @ m @ '':'' @ sec\<rparr>) =
      ?q\<lparr>p_format := a @ ?hh @ '':'' @ ?mm @ '':'' @ sec\<rparr>"
  proof -
    have "m \<noteq> []" "0 < i + int (length h) + 1" using l(2) i0 by auto
    moreover have "(int (length m) = 2) = (length m = 2)" by simp
    ultimately show ?thesis using 2 by (simp add: coalesce_min_def clock_parser_def set_at_def Let_def)
  qed
  moreover have "coalesce_sec fin (?q\<lparr>p_format := a @ ?hh @ '':'' @ ?mm @ '':'' @ sec\<rparr>) =
      ?q\<lparr>seclen := int (length sec), p_format := a @ ?hh @ '':'' @ ?mm @ '':'' @ ?ss\<rparr>"
  proof -
    have "fin - (i + int (length h) + int (length m) + 2) = int (length sec)"
      "0 < i + int (length h) + int (length m) + 2" using fin i0 by auto
    moreover have "(int (length sec) = 2) = (length sec = 2)" by simp
    ultimately show ?thesis using 3 p(2) by (simp add: coalesce_sec_def clock_parser_def set_at_def Let_def)
  qed
  ultimately show ?thesis
    using p(1) by (simp add: coalesceTime_def coalesce_ms_def clock_layout_def clock_parser_def)
qed

lemma skip_spaces_none:
  "byte_at s i = Ok c \<Longrightarrow> c \<noteq> CHR '' '' \<Longrightarrow> skip_spaces s i = Ok i"
  by (subst skip_spaces.simps) (auto simp: byte_at_def split: if_splits)

lemma part_nonempty: "part w \<Longrightarrow> \<exists>c v. w = c # v \<and> digit c"
  by (cases w) (auto simp: part_def all_digits_def)

text \<open>The layout of \<open>y-m-d h:m:s\<close>, and of the variant with a \<open>T\<close>.\<close>

definition stamp_layout :: "nat \<Rightarrow> nat \<Rightarrow> char \<Rightarrow> nat \<Rightarrow> nat \<Rightarrow> nat \<Rightarrow> string" where
  "stamp_layout m d c h mi sec =
     ''2006-'' @ mon_frag m @ ''-'' @ day_frag d @ [c] @ clock_layout h mi sec"

lemma detect_datetime:
  assumes s: "s = y @ ''-'' @ m @ ''-'' @ d @ [c] @ h @ '':'' @ mi @ '':'' @ sec"
    and y: "all_digits y" "length y = 4" and w: "part m" "part d" "part h" "part mi" "part sec"
    and c: "c = CHR '' '' \<or> c = CHR ''T''"
  shows "\<exists>q. detect U s loc opts = Return s (Some q) None \<and>
    p_format q = stamp_layout (length m) (length d) c (length h) (length mi) (length sec) \<and>
    p_datestr q = s \<and> p_loc q = loc \<and> p_t q = None \<and> fullMonth q = [] \<and> skip q = 0 \<and> ambiguousMD q = False"
proof -
  let ?time = "h @ '':'' @ mi @ '':'' @ sec"
  let ?rest = "d @ [c] @ ?time"
  let ?n = "newParser s loc opts"
  let ?p = "dash_parser ?n (length m) ?rest"
  let ?k = "6 + int (length m) + int (length d)"
  let ?st = "if c = CHR ''T'' then dateYearDashDashT else dateYearDashDashWs"
  let ?a = "''2006-'' @ mon_frag (length m) @ ''-'' @ day_frag (length d) @ [c]"
  let ?q = "?p\<lparr>daylen := int (length d), stateDate := ?st, stateTime := timeStart, p_format := ?a @ ?time\<rparr>"
  have l: "length m = 1 \<or> length m = 2" "length d = 1 \<or> length d = 2"
    using w by (simp_all add: part_def)
  have "date_loop U s loc opts ?n 0 = date_loop U s loc opts ?p (6 + int (length m))"
    by (rule date_loop_dashes [OF _ y w(1)]) (use s in simp)
  also have "\<dots> = date_loop U s loc opts ?p ?k"
    by (rule date_loop_run [of s "y @ ''-'' @ m @ ''-''" d "[c] @ ?time"])
      (use s y(2) w(2) in \<open>auto simp: part_def dash_parser_def on_date_def on_dateYearDashDash_def digit_simps
        dest!: all_digits_set\<close>)
  also have "\<dots> = Break (?q, ?k)"
  proof -
    have "setDay (?p\<lparr>daylen := int (length d), stateDate := ?st, stateTime := timeStart\<rparr>) = ?q"
      by (subst setDay_middle [of _ "''2006-'' @ mon_frag (length m) @ ''-''" d "[c] @ ?time"])
        (use l in \<open>simp_all add: dash_parser_def\<close>)
    then have "on_date U s loc opts ?p ?k (rune c) = Break (?q, ?k)"
      using c by (auto simp: on_date_def on_dateYearDashDash_def dash_parser_def)
    moreover have "of_char c < (128::nat)" using c by auto
    ultimately show ?thesis
      using date_loop_char [of s "y @ ''-'' @ m @ ''-'' @ d" c ?time ?k U loc opts ?p] s y(2) by simp
  qed
  finally have loop: "date_loop U s loc opts ?n 0 = Break (?q, ?k)" .
  have coal: "coalesceDate ?k ?q = ?q"
    using l by (auto simp: coalesceDate_def coalesce_year_def coalesce_month_def coalesce_day_def dash_parser_def)
  let ?pre = "y @ ''-'' @ m @ ''-'' @ d @ [c]"
  have spaces: "skip_spaces s (?k + 1) = Ok (?k + 1)"
  proof -
    obtain x v where h: "h = x # v" "digit x" using part_nonempty [OF w(3)] by blast
    have "byte_at s (?k + 1) = Ok x"
      using s h y(2) by (auto simp: byte_at_def nth_append nat_add_distrib)
    then show ?thesis using digit_chars [OF h(2)] by (intro skip_spaces_none) auto
  qed
  let ?r = "clock_parser ?q (?k + 1) (length h) (length mi)"
  have time: "time_loop U loc opts ?q s (?k + 1) = Break (?r, s, int (length s))"
    by (rule time_loop_clock [of s ?pre h mi sec]) (use s y(2) w in \<open>simp_all add: dash_parser_def\<close>)
  let ?f = "?r\<lparr>seclen := int (length sec), p_format := ?a @ clock_layout (length h) (length mi) (length sec)\<rparr>"
  have "coalesceTime (int (length s)) ?r = Ok ?f"
    by (rule coalesceTime_clock) (use s y(2) w l in \<open>simp_all add: dash_parser_def\<close>)
  moreover have "?k < int (length s)" using s y(2) by simp
  moreover have "end_time s ?r (int (length s)) = Next ?r"
    by (simp add: end_time_def clock_parser_def)
  ultimately have phase: "time_phase U loc opts ?q s ?k = Break (?f, s, int (length s))"
    using spaces time by (simp add: time_phase_def dash_parser_def)
  have fin: "end_date s loc ?f (int (length s)) = (Some ?f, None)"
    by (simp add: end_date_def clock_parser_def)
  have "detect U s loc opts = Return s (Some ?f) None"
    using phase coal fin by (simp add: detect_def loop)
  then show ?thesis
    by (intro exI [of _ ?f]) (simp add: stamp_layout_def clock_parser_def dash_parser_def)
qed

section \<open>Dates with slashes\<close>

definition slash_layout :: "bool \<Rightarrow> nat \<Rightarrow> nat \<Rightarrow> nat \<Rightarrow> string" where
  "slash_layout month_first a b y =
     (if month_first then mon_frag a @ ''/'' @ day_frag b else day_frag a @ ''/'' @ mon_frag b) @
     ''/'' @ year_frag y"

definition slash_parser :: "parser \<Rightarrow> bool \<Rightarrow> nat \<Rightarrow> string \<Rightarrow> parser" where
  "slash_parser p mf n rest =
     (if mf
      then p\<lparr>stateDate := dateDigitSlash, ambiguousMD := True, part1Len := int n, molen := int n,
             dayi := int n + 1, p_format := mon_frag n @ ''/'' @ rest\<rparr>
      else p\<lparr>stateDate := dateDigitSlash, ambiguousMD := True, part1Len := int n, daylen := int n,
             moi := int n + 1, p_format := day_frag n @ ''/'' @ rest\<rparr>)"

definition slash_parser2 :: "parser \<Rightarrow> bool \<Rightarrow> nat \<Rightarrow> nat \<Rightarrow> string \<Rightarrow> parser" where
  "slash_parser2 p mf n k rest =
     (if mf
      then (slash_parser p mf n rest)\<lparr>daylen := int k, yeari := int n + int k + 2,
             p_format := mon_frag n @ ''/'' @ day_frag k @ ''/'' @ rest\<rparr>
      else (slash_parser p mf n rest)\<lparr>molen := int k, yeari := int n + int k + 2,
             p_format := day_frag n @ ''/'' @ mon_frag k @ ''/'' @ rest\<rparr>)"

lemma first_slash:
  assumes s: "s = a @ ''/'' @ rest" and a: "part a" and rest: "rest = c # v" "v \<noteq> []" "digit c"
  shows "on_date U s loc opts ((newParser s loc opts)\<lparr>stateDate := dateDigit\<rparr>) (int (length a)) (rune CHR ''/'') =
    Next (slash_parser (newParser s loc opts) (prefers_month opts) (length a) rest, int (length a))"
proof -
  let ?n = "newParser s loc opts"
  have l: "length a = 1 \<or> length a = 2" using a by (simp add: part_def)
  have letter: "byte_at s (int (length a) + 1) = Ok c"
    using s rest(1) by (simp add: byte_at_def nth_append nat_add_distrib)
  have len: "int (length a) + 2 < int (length s)" using s rest(1,2) by (cases v) simp_all
  have mon: "setMonth (?n\<lparr>stateDate := dateDigitSlash, ambiguousMD := True, molen := int (length a)\<rparr>) =
      ?n\<lparr>stateDate := dateDigitSlash, ambiguousMD := True, molen := int (length a),
         p_format := mon_frag (length a) @ ''/'' @ rest\<rparr>"
    by (subst setMonth_middle [of _ "[]" a "''/'' @ rest"]) (use s l in simp_all)
  have day: "setDay (?n\<lparr>stateDate := dateDigitSlash, ambiguousMD := True, daylen := int (length a)\<rparr>) =
      ?n\<lparr>stateDate := dateDigitSlash, ambiguousMD := True, daylen := int (length a),
         p_format := day_frag (length a) @ ''/'' @ rest\<rparr>"
    by (subst setDay_middle [of _ "[]" a "''/'' @ rest"]) (use s l in simp_all)
  have "int (length a) \<noteq> 4" using l by auto
  then show ?thesis
    using letter len digit_not_letter [OF rest(3)]
    by (simp add: on_date_def on_dateDigit_def digit_slash_def Let_def end_part1_def mon day slash_parser_def)
qed

lemma detect_slashes:
  assumes s: "s = a @ ''/'' @ b @ ''/'' @ y"
    and w: "part a" "part b" "all_digits y" "length y = 2 \<or> length y = 4"
  shows "\<exists>q. detect U s loc opts = Return s (Some q) None \<and>
    p_format q = slash_layout (prefers_month opts) (length a) (length b) (length y) \<and>
    p_datestr q = s \<and> p_loc q = loc \<and> p_t q = None \<and> fullMonth q = [] \<and> skip q = 0 \<and> ambiguousMD q \<and>
    preferMonthFirst q = prefers_month opts"
proof -
  let ?n = "newParser s loc opts" and ?mf = "prefers_month opts"
  let ?rest = "b @ ''/'' @ y"
  let ?p = "slash_parser ?n ?mf (length a) ?rest"
  let ?q = "slash_parser2 ?n ?mf (length a) (length b) y"
  let ?k = "int (length a) + 1 + int (length b)"
  have l: "length a = 1 \<or> length a = 2" "length b = 1 \<or> length b = 2" using w by (simp_all add: part_def)
  have a: "all_digits a" "a \<noteq> []" using w(1) by (auto simp: part_def)
  obtain c v where b: "b = c # v" "digit c" using part_nonempty [OF w(2)] by blast
  have "date_loop U s loc opts ?n 0 = date_loop U s loc opts (?n\<lparr>stateDate := dateDigit\<rparr>) (int (length a))"
    by (rule date_loop_first_part [OF s a])
  also have "\<dots> = date_loop U s loc opts ?p (int (length a) + 1)"
    using date_loop_char [of s a "CHR ''/''" ?rest "int (length a)" U loc opts "?n\<lparr>stateDate := dateDigit\<rparr>"]
      first_slash [of s a ?rest c "v @ ''/'' @ y" U loc opts] s w(1) b by simp
  also have "\<dots> = date_loop U s loc opts ?p ?k"
    by (rule date_loop_run [of s "a @ ''/''" b "''/'' @ y"])
      (use s w(2) in \<open>auto simp: part_def slash_parser_def on_date_def on_dateDigitSlash_def digit_simps
        dest!: all_digits_set\<close>)
  also have "\<dots> = date_loop U s loc opts ?q (?k + 1)"
  proof -
    have day: "setDay (?p\<lparr>daylen := int (length b)\<rparr>) =
        ?p\<lparr>daylen := int (length b), p_format := (mon_frag (length a) @ ''/'') @ day_frag (length b) @ ''/'' @ y\<rparr>" if ?mf
      by (subst setDay_middle [of _ "mon_frag (length a) @ ''/''" b "''/'' @ y"])
        (use l that in \<open>simp_all add: slash_parser_def\<close>)
    have mon: "setMonth (?p\<lparr>molen := int (length b)\<rparr>) =
        ?p\<lparr>molen := int (length b), p_format := (day_frag (length a) @ ''/'') @ mon_frag (length b) @ ''/'' @ y\<rparr>" if "\<not> ?mf"
      by (subst setMonth_middle [of _ "day_frag (length a) @ ''/''" b "''/'' @ y"])
        (use l that in \<open>simp_all add: slash_parser_def\<close>)
    have "on_date U s loc opts ?p ?k (rune CHR ''/'') = Next (?q, ?k)"
    proof (cases ?mf)
      case True
      with day show ?thesis
        by (simp add: on_date_def on_dateDigitSlash_def slash_parser_def slash_parser2_def)
    next
      case False
      with mon show ?thesis
        by (simp add: on_date_def on_dateDigitSlash_def slash_parser_def slash_parser2_def)
    qed
    then show ?thesis
      using date_loop_char [of s "a @ ''/'' @ b" "CHR ''/''" y ?k U loc opts ?p] s by simp
  qed
  also have "\<dots> = date_loop U s loc opts ?q (?k + 1 + int (length y))"
    by (rule date_loop_run [of s "a @ ''/'' @ b @ ''/''" y "[]"])
      (use s w(3) in \<open>auto simp: slash_parser2_def slash_parser_def on_date_def on_dateDigitSlash_def digit_simps
        dest!: all_digits_set\<close>)
  also have "\<dots> = Break (?q, int (length s))"
    by (subst date_loop_end) (use s in simp_all)
  finally have loop: "date_loop U s loc opts ?n 0 = Break (?q, int (length s))" .
  let ?f = "?q\<lparr>yearlen := int (length y), p_format := slash_layout ?mf (length a) (length b) (length y)\<rparr>"
  have year: "setYear (?q\<lparr>yearlen := int (length y)\<rparr>) = ?f"
    by (subst setYear_middle [of _ "if ?mf then mon_frag (length a) @ ''/'' @ day_frag (length b) @ ''/''
          else day_frag (length a) @ ''/'' @ mon_frag (length b) @ ''/''" y "[]"])
      (use l w(4) in \<open>simp_all add: slash_parser2_def slash_parser_def slash_layout_def\<close>)
  have "int (length s) - yeari ?q = int (length y)" "0 < yeari ?q" "yearlen ?q = 0"
    using s by (simp_all add: slash_parser2_def slash_parser_def)
  then have "coalesce_year (int (length s)) ?q = ?f" using year by (simp add: coalesce_year_def)
  then have "coalesceDate (int (length s)) ?q = ?f"
    using l by (auto simp: coalesceDate_def coalesce_month_def coalesce_day_def slash_parser2_def slash_parser_def)
  then have "detect U s loc opts = Return s (Some ?f) None"
    by (simp add: detect_def loop) (simp add: time_phase_def end_date_def slash_parser2_def slash_parser_def)
  then show ?thesis
    by (intro exI [of _ ?f]) (simp add: slash_parser2_def slash_parser_def)
qed

end
