(* ===== verification/GoTime.thy ===== *)
theory GoTime
  imports DateFormats
begin

text \<open>
  \<open>time.Parse\<close>, \<open>time.ParseInLocation\<close> and \<open>time.Date\<close> of the standard library: the layout is cut
  into literal text and elements, and the value is read element by element. The code calls them
  through the parameter \<open>time_lib\<close>; \<open>go_time\<close> at the end is the library. The rules of the time
  zones of the machine are data outside the repository: the parameter \<open>zone_db\<close>.
\<close>

section \<open>Layout elements\<close>

datatype std =
    stdLongMonth | stdMonth | stdNumMonth | stdZeroMonth | stdLongWeekDay | stdWeekDay
  | stdDay | stdUnderDay | stdZeroDay | stdUnderYearDay | stdZeroYearDay
  | stdHour | stdHour12 | stdZeroHour12 | stdMinute | stdZeroMinute | stdSecond | stdZeroSecond
  | stdLongYear | stdYear | stdPM | stdpm | stdTZ
  | stdISO8601TZ | stdISO8601SecondsTZ | stdISO8601ShortTZ | stdISO8601ColonTZ | stdISO8601ColonSecondsTZ
  | stdNumTZ | stdNumSecondsTz | stdNumShortTZ | stdNumColonTZ | stdNumColonSecondsTZ
  | stdFracSecond0 nat | stdFracSecond9 nat

definition is_digit :: "char \<Rightarrow> bool" where
  "is_digit c \<longleftrightarrow> (48::nat) \<le> of_char c \<and> of_char c \<le> (57::nat)"

definition starts_lower :: "string \<Rightarrow> bool" where
  "starts_lower s \<longleftrightarrow> s \<noteq> [] \<and> (97::nat) \<le> of_char (hd s) \<and> of_char (hd s) \<le> (122::nat)"

text \<open>The first of the literal names that a string starts with.\<close>

fun first_prefix :: "(string \<times> 'a) list \<Rightarrow> string \<Rightarrow> ('a \<times> string) option" where
  "first_prefix [] s = None"
| "first_prefix ((w, x) # ws) s = (if HasPrefix s w then Some (x, drop (length w) s) else first_prefix ws s)"

definition std_zone :: "string \<Rightarrow> (std \<times> string) option" where
  "std_zone s =
     first_prefix
       [(''-070000'', stdNumSecondsTz), (''-07:00:00'', stdNumColonSecondsTZ), (''-0700'', stdNumTZ),
        (''-07:00'', stdNumColonTZ), (''-07'', stdNumShortTZ), (''Z070000'', stdISO8601SecondsTZ),
        (''Z07:00:00'', stdISO8601ColonSecondsTZ), (''Z0700'', stdISO8601TZ), (''Z07:00'', stdISO8601ColonTZ),
        (''Z07'', stdISO8601ShortTZ)] s"

definition std_number :: "string \<Rightarrow> (std \<times> string) option" where
  "std_number s =
     first_prefix
       [(''01'', stdZeroMonth), (''02'', stdZeroDay), (''03'', stdZeroHour12), (''04'', stdZeroMinute),
        (''05'', stdZeroSecond), (''06'', stdYear), (''002'', stdZeroYearDay), (''15'', stdHour),
        (''1'', stdNumMonth), (''2006'', stdLongYear), (''2'', stdDay), (''3'', stdHour12),
        (''4'', stdMinute), (''5'', stdSecond)] s"

definition std_name :: "string \<Rightarrow> (std \<times> string) option" where
  "std_name s =
     (if HasPrefix s ''January'' then Some (stdLongMonth, drop 7 s)
      else if HasPrefix s ''Jan'' \<and> \<not> starts_lower (drop 3 s) then Some (stdMonth, drop 3 s)
      else if HasPrefix s ''Monday'' then Some (stdLongWeekDay, drop 6 s)
      else if HasPrefix s ''Mon'' \<and> \<not> starts_lower (drop 3 s) then Some (stdWeekDay, drop 3 s)
      else first_prefix [(''MST'', stdTZ), (''PM'', stdPM), (''pm'', stdpm)] s)"

text \<open>A fraction: a full stop or comma and a run of zeros or nines that no other digit follows.\<close>

definition std_frac :: "string \<Rightarrow> (std \<times> string) option" where
  "std_frac s =
     (case s of
        c # d # rest \<Rightarrow>
          if (c = CHR ''.'' \<or> c = CHR '','') \<and> (d = CHR ''0'' \<or> d = CHR ''9'')
          then
            let tail = dropWhile (\<lambda>x. x = d) rest; n = length rest + 1 - length tail in
            if tail \<noteq> [] \<and> is_digit (hd tail) then None
            else Some (if d = CHR ''9'' then stdFracSecond9 n else stdFracSecond0 n, tail)
          else None
      | _ \<Rightarrow> None)"

text \<open>The element a string starts with; a literal underscore may come before a long year.\<close>

definition std_head :: "string \<Rightarrow> (string \<times> std \<times> string) option" where
  "std_head s =
     (case s of
        [] \<Rightarrow> None
      | c # cs \<Rightarrow>
          if c = CHR ''_''
          then
            if HasPrefix cs ''2006'' then Some (''_'', stdLongYear, drop 4 cs)
            else map_option (Pair []) (first_prefix [(''_2'', stdUnderDay), (''__2'', stdUnderYearDay)] s)
          else if c = CHR ''-'' \<or> c = CHR ''Z'' then map_option (Pair []) (std_zone s)
          else if is_digit c then map_option (Pair []) (std_number s)
          else if c = CHR ''.'' \<or> c = CHR '','' then map_option (Pair []) (std_frac s)
          else map_option (Pair []) (std_name s))"

fun nextStdChunk :: "string \<Rightarrow> string \<times> std option \<times> string" where
  "nextStdChunk [] = ([], None, [])"
| "nextStdChunk (c # cs) =
     (case std_head (c # cs) of
        Some (lit, std, rest) \<Rightarrow> (lit, Some std, rest)
      | None \<Rightarrow> (case nextStdChunk cs of (p, std, rest) \<Rightarrow> (c # p, std, rest)))"

section \<open>Reading the value\<close>

abbreviation cutspace :: "string \<Rightarrow> string" where
  "cutspace \<equiv> dropWhile (\<lambda>c. c = CHR '' '')"

text \<open>
  \<open>skip\<close>: the literal text of the layout; a run of spaces matches any run of spaces. \<open>Inl\<close> is the
  value where it failed.
\<close>

function skip_literal :: "string \<Rightarrow> string \<Rightarrow> string + string" where
  "skip_literal val [] = Inr val"
| "skip_literal val (c # prefix) =
     (if c = CHR '' ''
      then if val \<noteq> [] \<and> hd val \<noteq> CHR '' '' then Inl val
           else skip_literal (cutspace val) (dropWhile (\<lambda>c. c = CHR '' '') prefix)
      else if val = [] \<or> hd val \<noteq> c then Inl val
      else skip_literal (tl val) prefix)"
  by pat_completeness auto
termination
  by (relation "measure (\<lambda>(val, prefix). length prefix)") (auto simp: le_imp_less_Suc length_dropWhile_le)

definition digit_at :: "string \<Rightarrow> nat \<Rightarrow> bool" where
  "digit_at s i \<longleftrightarrow> i < length s \<and> is_digit (s ! i)"

text \<open>\<open>atoi\<close> of the short strings that occur: no overflow.\<close>

definition atoi :: "string \<Rightarrow> int option" where
  "atoi s =
     (let neg = (s \<noteq> [] \<and> hd s = CHR ''-'');
          t = (if s \<noteq> [] \<and> (hd s = CHR ''-'' \<or> hd s = CHR ''+'') then tl s else s)
      in if all_digits t then Some (if neg then - int (decimal t) else int (decimal t)) else None)"

definition getnum :: "string \<Rightarrow> bool \<Rightarrow> (int \<times> string) option" where
  "getnum s fixed =
     (if \<not> digit_at s 0 then None
      else if \<not> digit_at s 1 then if fixed then None else Some (int (decimal (take 1 s)), drop 1 s)
      else Some (int (decimal (take 2 s)), drop 2 s))"

definition getnum3 :: "string \<Rightarrow> bool \<Rightarrow> (int \<times> string) option" where
  "getnum3 s fixed =
     (let n = length (takeWhile is_digit (take 3 s)) in
      if n = 0 \<or> fixed \<and> n \<noteq> 3 then None else Some (int (decimal (take n s)), drop n s))"

text \<open>Names are compared without regard to the case of ASCII letters.\<close>

definition lower_ascii :: "char \<Rightarrow> nat" where
  "lower_ascii c = (let n = of_char c in if 65 \<le> n \<and> n \<le> 90 then n + 32 else n)"

definition match_name :: "string \<Rightarrow> string \<Rightarrow> bool" where
  "match_name v w \<longleftrightarrow> length v = length w \<and>
     list_all2 (\<lambda>a b. a = b \<or> lower_ascii a = lower_ascii b \<and> 97 \<le> lower_ascii a \<and> lower_ascii a \<le> 122) v w"

fun lookup_name :: "int \<Rightarrow> string list \<Rightarrow> string \<Rightarrow> (int \<times> string) option" where
  "lookup_name i [] val = None"
| "lookup_name i (w # ws) val =
     (if length w \<le> length val \<and> match_name (take (length w) val) w then Some (i, drop (length w) val)
      else lookup_name (i + 1) ws val)"

definition longMonthNames :: "string list" where
  "longMonthNames =
     [''January'', ''February'', ''March'', ''April'', ''May'', ''June'', ''July'', ''August'',
      ''September'', ''October'', ''November'', ''December'']"

definition longDayNames :: "string list" where
  "longDayNames =
     [''Sunday'', ''Monday'', ''Tuesday'', ''Wednesday'', ''Thursday'', ''Friday'', ''Saturday'']"

abbreviation comma_or_period :: "char \<Rightarrow> bool" where
  "comma_or_period c \<equiv> c = CHR ''.'' \<or> c = CHR '',''"

section \<open>Elements of a time\<close>

record tfields =
  f_year :: int
  f_month :: int
  f_day :: int
  f_yday :: int
  f_hour :: int
  f_min :: int
  f_sec :: int
  f_nsec :: int
  f_loc :: "location option"
  f_offset :: int
  f_zone :: string
  f_am :: bool
  f_pm :: bool

definition no_fields :: tfields where
  "no_fields =
     \<lparr>f_year = 0, f_month = - 1, f_day = - 1, f_yday = - 1, f_hour = 0, f_min = 0, f_sec = 0, f_nsec = 0,
      f_loc = None, f_offset = - 1, f_zone = [], f_am = False, f_pm = False\<rparr>"

text \<open>An element is read (the rest of the value, the fields), is out of range, or is not there.\<close>

datatype chunk = Got string tfields | OutOfRange string | BadChunk

definition num_chunk ::
  "(int \<times> string) option \<Rightarrow> (int \<Rightarrow> bool) \<Rightarrow> string \<Rightarrow> (int \<Rightarrow> tfields) \<Rightarrow> chunk" where
  "num_chunk r ok what upd =
     (case r of
        None \<Rightarrow> BadChunk
      | Some (n, rest) \<Rightarrow> if ok n then Got rest (upd n) else OutOfRange what)"

definition parse_nanos :: "string \<Rightarrow> nat \<Rightarrow> (int \<Rightarrow> tfields) \<Rightarrow> chunk" where
  "parse_nanos val nbytes upd =
     (let n = min nbytes 10 in
      if val = [] \<or> \<not> comma_or_period (hd val) then BadChunk
      else
        case atoi (take (n - 1) (drop 1 val)) of
          None \<Rightarrow> BadChunk
        | Some ns \<Rightarrow>
            if ns < 0 then OutOfRange ''fractional second'' else Got (drop nbytes val) (upd (ns * 10 ^ (10 - n))))"

text \<open>A second; a fraction that the layout does not name may follow.\<close>

definition second_chunk :: "bool \<Rightarrow> string \<Rightarrow> string \<Rightarrow> tfields \<Rightarrow> chunk" where
  "second_chunk fixed layout val t =
     (case getnum val fixed of
        None \<Rightarrow> BadChunk
      | Some (n, rest) \<Rightarrow>
          if 60 \<le> n then OutOfRange ''second''
          else if rest \<noteq> [] \<and> comma_or_period (hd rest) \<and> digit_at rest 1 \<and>
                  \<not> (case fst (snd (nextStdChunk layout)) of
                       Some (stdFracSecond0 _) \<Rightarrow> True | Some (stdFracSecond9 _) \<Rightarrow> True | _ \<Rightarrow> False)
          then parse_nanos rest (1 + length (takeWhile is_digit (drop 1 rest))) (\<lambda>ns. t\<lparr>f_sec := n, f_nsec := ns\<rparr>)
          else Got rest (t\<lparr>f_sec := n\<rparr>))"

definition year_chunk :: "string \<Rightarrow> tfields \<Rightarrow> chunk" where
  "year_chunk val t =
     (if length val < 2 then BadChunk
      else
        case atoi (take 2 val) of
          None \<Rightarrow> BadChunk
        | Some y \<Rightarrow> Got (drop 2 val) (t\<lparr>f_year := (if 69 \<le> y then y + 1900 else y + 2000)\<rparr>))"

definition long_year_chunk :: "string \<Rightarrow> tfields \<Rightarrow> chunk" where
  "long_year_chunk val t =
     (if length val < 4 \<or> \<not> digit_at val 0 then BadChunk
      else
        case atoi (take 4 val) of
          None \<Rightarrow> BadChunk
        | Some y \<Rightarrow> Got (drop 4 val) (t\<lparr>f_year := y\<rparr>))"

definition ampm_chunk :: "string \<Rightarrow> string \<Rightarrow> string \<Rightarrow> tfields \<Rightarrow> chunk" where
  "ampm_chunk am pm val t =
     (if length val < 2 then BadChunk
      else if take 2 val = pm then Got (drop 2 val) (t\<lparr>f_pm := True\<rparr>)
      else if take 2 val = am then Got (drop 2 val) (t\<lparr>f_am := True\<rparr>)
      else BadChunk)"

text \<open>A numeric zone: the positions of hour, minute and second depend on the element.\<close>

definition offset_chunk :: "nat \<Rightarrow> (nat \<times> char) list \<Rightarrow> nat option \<Rightarrow> nat option \<Rightarrow> string \<Rightarrow> tfields \<Rightarrow> chunk" where
  "offset_chunk len marks min_at sec_at val t =
     (if length val < len \<or> (\<exists>(i, c) \<in> set marks. val ! i \<noteq> c) then BadChunk
      else
        let two = (\<lambda>k. case k of None \<Rightarrow> Some 0 | Some i \<Rightarrow> map_option fst (getnum (take 2 (drop i val)) True));
            hr = two (Some 1);
            mm = (if hr = None then None else two min_at);
            ss = (if mm = None then None else two sec_at);
            num = (\<lambda>n. case n of None \<Rightarrow> 0 | Some n \<Rightarrow> n);
            offset = (num hr * 60 + num mm) * 60 + num ss
        in
          if 60 < num ss then OutOfRange ''time zone offset second''
          else if 60 < num mm then OutOfRange ''time zone offset minute''
          else if 24 < num hr then OutOfRange ''time zone offset hour''
          else if ss = None then BadChunk
          else if hd val = CHR ''+'' then Got (drop len val) (t\<lparr>f_offset := offset\<rparr>)
          else if hd val = CHR ''-'' then Got (drop len val) (t\<lparr>f_offset := - offset\<rparr>)
          else BadChunk)"

definition colon :: char where
  "colon = CHR '':''"

fun numeric_zone :: "std \<Rightarrow> string \<Rightarrow> tfields \<Rightarrow> chunk" where
  "numeric_zone stdISO8601ColonTZ val t = offset_chunk 6 [(3, colon)] (Some 4) None val t"
| "numeric_zone stdNumColonTZ val t = offset_chunk 6 [(3, colon)] (Some 4) None val t"
| "numeric_zone stdNumShortTZ val t = offset_chunk 3 [] None None val t"
| "numeric_zone stdISO8601ShortTZ val t = offset_chunk 3 [] None None val t"
| "numeric_zone stdISO8601ColonSecondsTZ val t = offset_chunk 9 [(3, colon), (6, colon)] (Some 4) (Some 7) val t"
| "numeric_zone stdNumColonSecondsTZ val t = offset_chunk 9 [(3, colon), (6, colon)] (Some 4) (Some 7) val t"
| "numeric_zone stdISO8601SecondsTZ val t = offset_chunk 7 [] (Some 3) (Some 5) val t"
| "numeric_zone stdNumSecondsTz val t = offset_chunk 7 [] (Some 3) (Some 5) val t"
| "numeric_zone std val t = offset_chunk 5 [] (Some 3) None val t"

text \<open>Names of zones.\<close>

definition parse_signed_offset :: "string \<Rightarrow> nat" where
  "parse_signed_offset val =
     (if val = [] \<or> hd val \<noteq> CHR ''-'' \<and> hd val \<noteq> CHR ''+'' then 0
      else
        let ds = takeWhile is_digit (tl val) in
        if ds = [] \<or> 23 < decimal ds then 0 else 1 + length ds)"

definition parseTimeZone :: "string \<Rightarrow> nat option" where
  "parseTimeZone val =
     (if length val < 3 then None
      else if HasPrefix val ''ChST'' \<or> HasPrefix val ''MeST'' then Some 4
      else if HasPrefix val ''GMT'' then Some (3 + parse_signed_offset (drop 3 val))
      else if hd val = CHR ''+'' \<or> hd val = CHR ''-''
      then (let n = parse_signed_offset val in if n = 0 then None else Some n)
      else
        let n = length (takeWhile (\<lambda>c. (65::nat) \<le> of_char c \<and> of_char c \<le> (90::nat)) (take 6 val)) in
        if n = 5 then if val ! 4 = CHR ''T'' then Some 5 else None
        else if n = 4 then if val ! 3 = CHR ''T'' \<or> HasPrefix val ''WITA'' then Some 4 else None
        else if n = 3 then Some 3
        else None)"

definition zone_chunk :: "string \<Rightarrow> tfields \<Rightarrow> chunk" where
  "zone_chunk val t =
     (if HasPrefix val ''UTC'' then Got (drop 3 val) (t\<lparr>f_loc := Some UTC\<rparr>)
      else
        case parseTimeZone val of
          None \<Rightarrow> BadChunk
        | Some n \<Rightarrow> Got (drop n val) (t\<lparr>f_zone := take n val\<rparr>))"

section \<open>Reading by the layout\<close>

text \<open>\<open>quote\<close> of package \<open>time\<close>: bytes that are not printable ASCII are escaped one by one.\<close>

definition hex_char :: "nat \<Rightarrow> char" where
  "hex_char d = char_of (if d < 10 then 48 + d else 87 + d)"

definition quote :: "string \<Rightarrow> string" where
  "quote s =
     [CHR 0x22] @
     concat (map (\<lambda>c.
       let n = of_char c :: nat in
       if 128 \<le> n \<or> n < 32 then [CHR 0x5C, CHR ''x'', hex_char (n div 16), hex_char (n mod 16)]
       else if n = 34 \<or> n = 92 then [CHR 0x5C, c]
       else [c]) s) @
     [CHR 0x22]"

definition month_range :: "int \<Rightarrow> bool" where
  "month_range n \<longleftrightarrow> 0 < n \<and> n \<le> 12"

definition take_names :: "(int \<times> string) option \<Rightarrow> (int \<Rightarrow> tfields) \<Rightarrow> chunk" where
  "take_names r upd = num_chunk r (\<lambda>_. True) [] upd"

fun parse_chunk :: "std \<Rightarrow> string \<Rightarrow> string \<Rightarrow> tfields \<Rightarrow> chunk" where
  "parse_chunk stdYear layout val t = year_chunk val t"
| "parse_chunk stdLongYear layout val t = long_year_chunk val t"
| "parse_chunk stdMonth layout val t =
     take_names (lookup_name 0 (map (take 3) longMonthNames) val) (\<lambda>n. t\<lparr>f_month := n + 1\<rparr>)"
| "parse_chunk stdLongMonth layout val t =
     take_names (lookup_name 0 longMonthNames val) (\<lambda>n. t\<lparr>f_month := n + 1\<rparr>)"
| "parse_chunk stdNumMonth layout val t =
     num_chunk (getnum val False) month_range ''month'' (\<lambda>n. t\<lparr>f_month := n\<rparr>)"
| "parse_chunk stdZeroMonth layout val t =
     num_chunk (getnum val True) month_range ''month'' (\<lambda>n. t\<lparr>f_month := n\<rparr>)"
| "parse_chunk stdWeekDay layout val t = take_names (lookup_name 0 (map (take 3) longDayNames) val) (\<lambda>_. t)"
| "parse_chunk stdLongWeekDay layout val t = take_names (lookup_name 0 longDayNames val) (\<lambda>_. t)"
| "parse_chunk stdDay layout val t = take_names (getnum val False) (\<lambda>n. t\<lparr>f_day := n\<rparr>)"
| "parse_chunk stdUnderDay layout val t =
     take_names (getnum (if val \<noteq> [] \<and> hd val = CHR '' '' then tl val else val) False) (\<lambda>n. t\<lparr>f_day := n\<rparr>)"
| "parse_chunk stdZeroDay layout val t = take_names (getnum val True) (\<lambda>n. t\<lparr>f_day := n\<rparr>)"
| "parse_chunk stdUnderYearDay layout val t =
     take_names
       (getnum3 (if HasPrefix val ''  '' then drop 2 val else if HasPrefix val '' '' then drop 1 val else val) False)
       (\<lambda>n. t\<lparr>f_yday := n\<rparr>)"
| "parse_chunk stdZeroYearDay layout val t = take_names (getnum3 val True) (\<lambda>n. t\<lparr>f_yday := n\<rparr>)"
| "parse_chunk stdHour layout val t =
     num_chunk (getnum val False) (\<lambda>n. n < 24) ''hour'' (\<lambda>n. t\<lparr>f_hour := n\<rparr>)"
| "parse_chunk stdHour12 layout val t =
     num_chunk (getnum val False) (\<lambda>n. n \<le> 12) ''hour'' (\<lambda>n. t\<lparr>f_hour := n\<rparr>)"
| "parse_chunk stdZeroHour12 layout val t =
     num_chunk (getnum val True) (\<lambda>n. n \<le> 12) ''hour'' (\<lambda>n. t\<lparr>f_hour := n\<rparr>)"
| "parse_chunk stdMinute layout val t =
     num_chunk (getnum val False) (\<lambda>n. n < 60) ''minute'' (\<lambda>n. t\<lparr>f_min := n\<rparr>)"
| "parse_chunk stdZeroMinute layout val t =
     num_chunk (getnum val True) (\<lambda>n. n < 60) ''minute'' (\<lambda>n. t\<lparr>f_min := n\<rparr>)"
| "parse_chunk stdSecond layout val t = second_chunk False layout val t"
| "parse_chunk stdZeroSecond layout val t = second_chunk True layout val t"
| "parse_chunk stdPM layout val t = ampm_chunk ''AM'' ''PM'' val t"
| "parse_chunk stdpm layout val t = ampm_chunk ''am'' ''pm'' val t"
| "parse_chunk stdTZ layout val t = zone_chunk val t"
| "parse_chunk (stdFracSecond0 n) layout val t =
     (if length val < 1 + n then BadChunk else parse_nanos val (1 + n) (\<lambda>ns. t\<lparr>f_nsec := ns\<rparr>))"
| "parse_chunk (stdFracSecond9 n) layout val t =
     (if length val < 2 \<or> \<not> comma_or_period (hd val) \<or> \<not> digit_at val 1 then Got val t
      else parse_nanos val (1 + length (takeWhile is_digit (drop 1 val))) (\<lambda>ns. t\<lparr>f_nsec := ns\<rparr>))"
| "parse_chunk std layout val t =
     (if std \<in> {stdISO8601TZ, stdISO8601ShortTZ, stdISO8601ColonTZ} \<and> val \<noteq> [] \<and> hd val = CHR ''Z''
      then Got (drop 1 val) (t\<lparr>f_loc := Some UTC\<rparr>)
      else numeric_zone std val t)"

lemma first_prefix_less:
  "first_prefix ws s = Some (x, rest) \<Longrightarrow> \<forall>(w, x) \<in> set ws. w \<noteq> [] \<Longrightarrow> s \<noteq> [] \<Longrightarrow> length rest < length s"
  by (induction ws s rule: first_prefix.induct) (auto split: if_splits)

lemma std_frac_less:
  assumes "std_frac s = Some (x, rest)"
  shows "length rest < length s"
proof -
  obtain c d r where s: "s = c # d # r"
    using assms by (auto simp: std_frac_def split: list.splits)
  with assms have "rest = dropWhile (\<lambda>x. x = d) r"
    by (simp add: std_frac_def Let_def split: if_splits)
  with length_dropWhile_le [of "\<lambda>x. x = d" r] show ?thesis by (simp add: s)
qed

lemma std_zone_less: "std_zone s = Some (x, rest) \<Longrightarrow> s \<noteq> [] \<Longrightarrow> length rest < length s"
  unfolding std_zone_def by (erule first_prefix_less) simp_all

lemma std_number_less: "std_number s = Some (x, rest) \<Longrightarrow> s \<noteq> [] \<Longrightarrow> length rest < length s"
  unfolding std_number_def by (erule first_prefix_less) simp_all

lemma std_name_less:
  assumes "std_name s = Some (x, rest)" "s \<noteq> []"
  shows "length rest < length s"
proof -
  have "length r < length s" if "first_prefix [(''MST'', stdTZ), (''PM'', stdPM), (''pm'', stdpm)] s = Some (y, r)" for y r
    by (rule first_prefix_less [OF that]) (use assms(2) in simp_all)
  moreover have "length (drop 7 s) < length s" "length (drop 6 s) < length s" "length (drop 3 s) < length s"
    using assms(2) by simp_all
  ultimately show ?thesis
    using assms(1) by (auto simp: std_name_def simp del: first_prefix.simps split: if_splits)
qed

lemma std_head_less:
  assumes "std_head s = Some (lit, x, rest)"
  shows "length rest < length s"
proof (cases s)
  case Nil
  with assms show ?thesis by (simp add: std_head_def)
next
  case (Cons c cs)
  have under: "length r < length s"
    if "first_prefix [(''_2'', stdUnderDay), (''__2'', stdUnderYearDay)] s = Some (y, r)" for y r
    by (rule first_prefix_less [OF that]) (simp_all add: Cons)
  from assms show ?thesis
    using under std_zone_less [of s x rest] std_number_less [of s x rest] std_frac_less [of s x rest]
      std_name_less [of s x rest]
    by (auto simp: std_head_def Cons simp del: first_prefix.simps split: if_splits)
qed

lemma nextStdChunk_less: "nextStdChunk s = (p, Some x, rest) \<Longrightarrow> length rest < length s"
proof (induction s arbitrary: p)
  case (Cons c cs)
  then show ?case
    by (fastforce split: option.splits prod.splits dest: std_head_less)
qed simp

text \<open>The loop; \<open>alayout\<close> and \<open>avalue\<close> are the arguments of the call, for the errors.\<close>

function parse_loop :: "string \<Rightarrow> string \<Rightarrow> string \<Rightarrow> string \<Rightarrow> tfields \<Rightarrow> tfields res" where
  "parse_loop alayout avalue layout val t =
     (case nextStdChunk layout of
        (prefix, std, suffix) \<Rightarrow>
          (case skip_literal val prefix of
             Inl val \<Rightarrow> Err (TimeParseError alayout avalue prefix val [])
           | Inr val \<Rightarrow>
               (case std of
                  None \<Rightarrow>
                    if val \<noteq> [] then Err (TimeParseError alayout avalue [] val ('': extra text: '' @ quote val)) else Ok t
                | Some std \<Rightarrow>
                    let stdstr = take (length layout - length suffix - length prefix) (drop (length prefix) layout) in
                    (case parse_chunk std suffix val t of
                       Got val t \<Rightarrow> parse_loop alayout avalue suffix val t
                     | OutOfRange what \<Rightarrow>
                         Err (TimeParseError alayout avalue stdstr val ('': '' @ what @ '' out of range''))
                     | BadChunk \<Rightarrow> Err (TimeParseError alayout avalue stdstr val [])))))"
  by pat_completeness auto
termination
  by (relation "measure (\<lambda>(alayout, avalue, layout, val, t). length layout)") (auto dest: nextStdChunk_less [OF sym])

declare parse_loop.simps [simp del]

section \<open>Dates\<close>

definition isLeap :: "int \<Rightarrow> bool" where
  "isLeap y \<longleftrightarrow> 4 dvd y \<and> (\<not> 100 dvd y \<or> 400 dvd y)"

definition daysBefore :: "int list" where
  "daysBefore = [0, 31, 59, 90, 120, 151, 181, 212, 243, 273, 304, 334, 365]"

definition daysIn :: "int \<Rightarrow> int \<Rightarrow> int" where
  "daysIn m y = (if m = 2 \<and> isLeap y then 29 else daysBefore ! nat m - daysBefore ! nat (m - 1))"

text \<open>The days from 1970-01-01 to a day of the proleptic Gregorian calendar.\<close>

definition days_since_epoch :: "int \<Rightarrow> int \<Rightarrow> int \<Rightarrow> int" where
  "days_since_epoch y m d =
     (let p = y - 1 in
      365 * p + p div 4 - p div 100 + p div 400 - 719162 + daysBefore ! nat (m - 1) +
      (if isLeap y \<and> 3 \<le> m then 1 else 0) + (d - 1))"

definition unix_seconds :: "int \<Rightarrow> int \<Rightarrow> int \<Rightarrow> int \<Rightarrow> int \<Rightarrow> int \<Rightarrow> int" where
  "unix_seconds y m d h mi s = days_since_epoch y m d * 86400 + h * 3600 + mi * 60 + s"

section \<open>Locations\<close>

text \<open>
  \<open>zlookup l t\<close> is the name and the offset of the zone in use at \<open>t\<close>, and the interval in which it
  is in use; \<open>zlookupName l n t\<close> is the offset of a named zone. \<open>UTC\<close> and fixed zones are known.
\<close>

record zone_db =
  zlookup :: "location \<Rightarrow> int \<Rightarrow> string \<times> int \<times> int \<times> int"
  zlookupName :: "location \<Rightarrow> string \<Rightarrow> int \<Rightarrow> int option"

definition lookup_zone :: "zone_db \<Rightarrow> location \<Rightarrow> int \<Rightarrow> string \<times> int \<times> int \<times> int" where
  "lookup_zone Z l t =
     (case l of
        UTC \<Rightarrow> (''UTC'', 0, - (2 ^ 63), 2 ^ 63 - 1)
      | FixedZone n off \<Rightarrow> (n, off, - (2 ^ 63), 2 ^ 63 - 1)
      | _ \<Rightarrow> zlookup Z l t)"

definition lookup_zone_name :: "zone_db \<Rightarrow> location \<Rightarrow> string \<Rightarrow> int \<Rightarrow> int option" where
  "lookup_zone_name Z l name t =
     (case l of
        UTC \<Rightarrow> None
      | FixedZone n off \<Rightarrow> if n = name then Some off else None
      | _ \<Rightarrow> zlookupName Z l name t)"

text \<open>\<open>time.Date\<close> of a valid date: the wall clock is shifted by the offset in use at that time.\<close>

definition date_in :: "zone_db \<Rightarrow> int \<Rightarrow> int \<Rightarrow> location \<Rightarrow> gotime" where
  "date_in Z unix ns l =
     (case lookup_zone Z l unix of
        (_, offset, start, stop) \<Rightarrow>
          let utc = unix - offset;
              offset' =
                (if offset = 0 then 0
                 else if utc < start \<or> stop \<le> utc then fst (snd (lookup_zone Z l utc))
                 else offset)
          in \<lparr>unix_sec = unix - offset', nsec = ns, zone = l\<rparr>)"

section \<open>The result\<close>

definition fix_hour :: "tfields \<Rightarrow> int" where
  "fix_hour t =
     (if f_pm t \<and> f_hour t < 12 then f_hour t + 12
      else if \<not> (f_pm t \<and> f_hour t < 12) \<and> f_am t \<and> f_hour t = 12 then 0
      else f_hour t)"

text \<open>Month and day of a day of the year, and the check against a month and day already read.\<close>

definition year_day :: "int \<Rightarrow> int \<Rightarrow> (int \<times> int) option" where
  "year_day y yday =
     (if isLeap y \<and> yday = 60 then Some (2, 29)
      else
        let n = (if isLeap y \<and> 60 < yday then yday - 1 else yday) in
        if n < 1 \<or> 365 < n then None
        else
          let m0 = (n - 1) div 31 + 1;
              m = (if daysBefore ! nat m0 < n then m0 + 1 else m0)
          in Some (m, n - daysBefore ! nat (m - 1)))"

definition month_day :: "tfields \<Rightarrow> string + int \<times> int" where
  "month_day t =
     (if 0 \<le> f_yday t
      then
        (case year_day (f_year t) (f_yday t) of
           None \<Rightarrow> Inl '': day-of-year out of range''
         | Some (m, d) \<Rightarrow>
             if 0 \<le> f_month t \<and> f_month t \<noteq> m then Inl '': day-of-year does not match month''
             else if 0 \<le> f_day t \<and> f_day t \<noteq> d then Inl '': day-of-year does not match day''
             else Inr (m, d))
      else Inr (if f_month t < 0 then 1 else f_month t, if f_day t < 0 then 1 else f_day t))"

text \<open>The location of the result: given, by offset, by name, or the default.\<close>

definition locate :: "zone_db \<Rightarrow> location \<Rightarrow> location \<Rightarrow> tfields \<Rightarrow> int \<Rightarrow> gotime" where
  "locate Z dflt local t unix =
     (let at = (\<lambda>s l. \<lparr>unix_sec = s, nsec = f_nsec t, zone = l\<rparr>) in
      case f_loc t of
        Some l \<Rightarrow> date_in Z unix (f_nsec t) l
      | None \<Rightarrow>
          if f_offset t \<noteq> - 1
          then
            let s = unix - f_offset t in
            (case lookup_zone Z local s of
               (name, offset, _) \<Rightarrow>
                 if offset = f_offset t \<and> (f_zone t = [] \<or> name = f_zone t) then at s local
                 else at s (FixedZone (f_zone t) (f_offset t)))
          else if f_zone t \<noteq> []
          then
            (case lookup_zone_name Z local (f_zone t) unix of
               Some offset \<Rightarrow> at (unix - offset) local
             | None \<Rightarrow>
                 let offset =
                   (if 3 < length (f_zone t) \<and> HasPrefix (f_zone t) ''GMT''
                    then 3600 * (case atoi (drop 3 (f_zone t)) of Some n \<Rightarrow> n | None \<Rightarrow> 0) else 0)
                 in at unix (FixedZone (f_zone t) offset))
          else date_in Z unix (f_nsec t) dflt)"

definition parse_in ::
  "zone_db \<Rightarrow> location \<Rightarrow> location \<Rightarrow> string \<Rightarrow> string \<Rightarrow> gotime res" where
  "parse_in Z dflt local layout val =
     res_bind (parse_loop layout val layout val no_fields) (\<lambda>t.
     case month_day t of
       Inl msg \<Rightarrow> Err (TimeParseError layout val [] [] msg)
     | Inr (m, d) \<Rightarrow>
         if d < 1 \<or> daysIn m (f_year t) < d
         then Err (TimeParseError layout val [] [] '': day out of range'')
         else Ok (locate Z dflt local t
               (unix_seconds (f_year t) m d (fix_hour t) (f_min t) (f_sec t))))"

definition time_parse :: "zone_db \<Rightarrow> string \<Rightarrow> string \<Rightarrow> location option \<Rightarrow> gotime res" where
  "time_parse Z layout val loc =
     (case loc of
        None \<Rightarrow> parse_in Z UTC Local layout val
      | Some l \<Rightarrow> parse_in Z l l layout val)"

text \<open>\<open>ParseError.Error\<close>; other errors do not come out of the library.\<close>

fun error_text :: "gerr \<Rightarrow> string" where
  "error_text (TimeParseError layout val layoutElem valueElem msg) =
     (if msg = []
      then ''parsing time '' @ quote val @ '' as '' @ quote layout @ '': cannot parse '' @
           quote valueElem @ '' as '' @ quote layoutElem
      else ''parsing time '' @ quote val @ msg)"
| "error_text _ = []"

definition go_time :: "zone_db \<Rightarrow> time_lib" where
  "go_time Z = \<lparr>Parse = time_parse Z, ErrorText = error_text\<rparr>"

section \<open>The library never panics\<close>

lemma parse_loop_not_Panic: "parse_loop al av la v t \<noteq> Panic"
proof (induction al av la v t rule: parse_loop.induct)
  case (1 al av la v t)
  show ?case
    by (subst parse_loop.simps) (auto simp: Let_def "1.IH" split: prod.splits sum.splits option.splits chunk.splits)
qed

definition lib_total :: "time_lib \<Rightarrow> bool" where
  "lib_total L \<longleftrightarrow> (\<forall>layout val loc. Parse L layout val loc \<noteq> Panic)"

lemma go_time_total: "lib_total (go_time Z)"
proof -
  have "parse_in Z d l la v \<noteq> Panic" for d l la v
    using parse_loop_not_Panic [of la v la v no_fields]
    by (auto simp: parse_in_def res_bind_Panic_iff split: sum.splits prod.splits if_splits)
  then show ?thesis by (simp add: lib_total_def go_time_def time_parse_def split: option.splits)
qed

end
