(* ===== verification/DateSafety.thy ===== *)
theory DateSafety
  imports GoTime
begin

text \<open>
  \<open>parseTime\<close> as a whole: it never indexes a string out of range, its recursion is on smaller
  strings, and what the options and the retry do to the result.
\<close>

section \<open>No panic\<close>

lemma parse_ready_parse:
  assumes "lib_total L" "parse_ready p"
  shows "fst (parse L p) \<noteq> Panic"
proof (cases "p_t p")
  case None
  obtain p1 where p1: "(if fullMonth p \<noteq> [] then setFullMonth (fullMonth p) p else Ok p) = Ok p1"
    and s1: "skip p1 = 0 \<or> length (p_format p1) = length (p_datestr p1)"
  proof (cases "fullMonth p = [] \<or> moi p \<noteq> 0")
    case True
    show ?thesis by (rule that [of p]) (use True assms(2) in \<open>auto simp: parse_ready_def setFullMonth_def\<close>)
  next
    case False
    show ?thesis
      by (rule that [of "p\<lparr>p_format := ''January'' @ drop (length (fullMonth p)) (p_format p)\<rparr>"])
        (use False assms(2) in \<open>auto simp: parse_ready_def setFullMonth_def substr_def\<close>)
  qed
  from s1 have "\<exists>p2. skip_prefix p1 = Ok p2" by (auto simp: skip_prefix_def substr_def)
  with None p1 assms(1) show ?thesis by (auto simp: parse_def lib_total_def)
qed (simp add: parse_def)

definition ready :: "parsed res \<Rightarrow> bool" where
  "ready r \<longleftrightarrow> (\<exists>p e. r = Ok (p, e) \<and> (e = None \<longrightarrow> (\<exists>q. p = Some q \<and> parse_ready q)))"

lemma parseTime_ready:
  "\<not> wants_retry opts \<Longrightarrow> ready (parseTime L U datestr loc opts)"
proof (induction L U datestr loc opts rule: parseTime.induct)
  case (1 L U datestr loc opts)
  have ok: "detect_sat datestr opts (detect U datestr loc opts)" by (rule detect_ok)
  show ?case
  proof (cases "detect U datestr loc opts")
    case (Return d p e)
    with ok "1.prems" show ?thesis
      by (subst parseTime.simps) (simp add: ready_def detect_sat_def)
  next
    case (Restart d s l os)
    with ok have "os = opts \<or> os = []" by (simp add: detect_sat_def smaller_def)
    then have "\<not> wants_retry os" using "1.prems" by auto
    with Restart have "ready (parseTime L U s l os)" by (rule "1.IH"(1))
    with Restart "1.prems" show ?thesis by (subst parseTime.simps) simp
  qed (use ok in \<open>simp_all add: detect_sat_def\<close>)
qed

text \<open>Without the retry option: the last option of its kind decides.\<close>

lemma no_retry: "RetryAmbiguousDateWithSwap True \<notin> set opts \<Longrightarrow> \<not> wants_retry opts"
proof -
  have "RetryAmbiguousDateWithSwap True \<notin> set opts \<Longrightarrow> \<not> retryAmbiguousDateWithSwap p \<Longrightarrow>
      \<not> retryAmbiguousDateWithSwap (fold apply_option opts p)" for p
  proof (induction opts arbitrary: p)
    case (Cons opt opts)
    then show ?case by (cases opt) auto
  qed simp
  then show "RetryAmbiguousDateWithSwap True \<notin> set opts \<Longrightarrow> \<not> wants_retry opts"
    by (simp add: wants_retry_def newParser_def)
qed

lemma ready_cases:
  assumes "ready r"
  shows "(\<exists>p. r = Ok (Some p, None) \<and> parse_ready p) \<or> (\<exists>p e. r = Ok (p, Some e))"
proof -
  obtain p e where r: "r = Ok (p, e)" "e = None \<longrightarrow> (\<exists>q. p = Some q \<and> parse_ready q)"
    using assms by (auto simp: ready_def)
  then show ?thesis by (cases e) auto
qed

text \<open>What the exported functions do with the result of \<open>parseTime\<close>.\<close>

lemma parsed_no_panic:
  assumes "lib_total L" "ready (parseTime L U s loc opts)"
  shows "parse_any L U loc s opts \<noteq> Panic"
    and "loc = None \<Longrightarrow> ParseDateFormat L U s opts \<noteq> Panic"
    and "loc = None \<Longrightarrow> ParseDataStrict L U s opts \<noteq> Panic"
proof -
  consider p where "parseTime L U s loc opts = Ok (Some p, None)" "parse_ready p"
    | p e where "parseTime L U s loc opts = Ok (p, Some e)"
    using ready_cases [OF assms(2)] by auto
  then have "parse_any L U loc s opts \<noteq> Panic \<and>
    (loc = None \<longrightarrow> ParseDateFormat L U s opts \<noteq> Panic \<and> ParseDataStrict L U s opts \<noteq> Panic)"
  proof cases
    case 1
    obtain r q where run: "parse L p = (r, q)" by (cases "parse L p")
    with parse_ready_parse [OF assms(1) 1(2)] have "r \<noteq> Panic" by simp
    with 1 run show ?thesis
      by (auto simp: parse_any_def parse_ptr_def ParseDateFormat_def ParseDataStrict_def res_bind_Panic_iff
          split: if_splits)
  next
    case 2
    then show ?thesis by (auto simp: parse_any_def ParseDateFormat_def ParseDataStrict_def)
  qed
  then show "parse_any L U loc s opts \<noteq> Panic" "loc = None \<Longrightarrow> ParseDateFormat L U s opts \<noteq> Panic"
    "loc = None \<Longrightarrow> ParseDataStrict L U s opts \<noteq> Panic" by blast+
qed

text \<open>
  C6: on every string, with any options but the retry, none of the functions that parse a date
  panics: no index or slice of the two loops, of \<open>coalesceTime\<close>, of \<open>trimExtra\<close> and of \<open>parse\<close> is
  out of range, whatever the letters and digits of the Unicode tables are.
\<close>

theorem ParseDate_no_panic:
  assumes "lib_total L" "RetryAmbiguousDateWithSwap True \<notin> set opts"
  shows "ParseDateAny L U s opts \<noteq> Panic \<and> ParseDateIn L U s loc opts \<noteq> Panic \<and>
    ParseDateLocal L U s opts \<noteq> Panic \<and> ParseDateFormat L U s opts \<noteq> Panic \<and>
    ParseDataStrict L U s opts \<noteq> Panic"
proof -
  note ready = parseTime_ready [OF no_retry [OF assms(2)], of L U s]
  note none = parsed_no_panic [OF assms(1) ready]
  show ?thesis
    using none(1) none(2,3) [OF refl]
    by (simp add: ParseDateAny_def ParseDateIn_def ParseDateLocal_def)
qed

theorem ParseDate_no_panic_witness:
  "\<forall>Z U s. ParseDateAny (go_time Z) U s [PreferMonthFirst False] \<noteq> Panic"
  using ParseDate_no_panic [OF go_time_total, of "[PreferMonthFirst False]"] by simp

text \<open>
  C10: whenever \<open>parseTime\<close> calls itself from one of its loops, it does so on a string of smaller
  weight (bytes plus commas), with its own options or with none; the recursion is at most as deep
  as the weight of the first string.
\<close>

theorem parseTime_restarts_smaller:
  assumes "detect U datestr loc opts = Restart d s l os"
  shows "weight s < weight datestr \<and> (os = opts \<or> os = [])"
  using detect_ok [of datestr opts U loc] assms by (simp add: detect_sat_def smaller_def)

section \<open>A weekday in front\<close>

lemma letters_run:
  assumes "s = c # w @ post" "\<forall>x \<in> set (c # w). of_char x < (128::nat) \<and> IsLetter U (rune x)"
  shows "date_loop U s loc opts (newParser s loc opts) 0 =
    date_loop U s loc opts ((newParser s loc opts)\<lparr>stateDate := dateAlpha\<rparr>) (1 + int (length w))"
proof -
  let ?p = "(newParser s loc opts)\<lparr>stateDate := dateAlpha\<rparr>"
  have c: "of_char c < (128::nat)" "IsLetter U (rune c)" using assms(2) by simp_all
  then have "\<not> IsDigit U (rune c)" by (auto simp: IsLetter_def IsDigit_def split: if_splits)
  then have "date_loop U s loc opts (newParser s loc opts) 0 = date_loop U s loc opts ?p 1"
    using date_loop_char [of s "[]" c "w @ post" 0] c assms(1) by (simp add: on_date_def on_dateStart_def)
  also have "\<dots> = date_loop U s loc opts ?p (1 + int (length w))"
  proof (rule date_loop_run [of s "[c]" w post])
    fix x k assume "x \<in> set w"
    then have x: "of_char x < (128::nat)" "IsLetter U (rune x)" using assms(2) by auto
    then have "rune x \<noteq> (32::nat)" "rune x \<noteq> (44::nat)" "rune x \<noteq> (46::nat)"
      by (auto simp: IsLetter_def split: if_splits)
    with x(1) show "of_char x < (128::nat) \<and> on_date U s loc opts ?p k (rune x) = Next (?p, k)"
      by (simp add: on_date_def on_dateAlpha_def)
  qed (use assms(1) in simp_all)
  finally show ?thesis .
qed

lemma detect_weekday:
  assumes w: "length w = 3" "\<forall>x \<in> set w. of_char x < (128::nat) \<and> IsLetter U (rune x)" "isDay (ToLower U w)"
  shows "detect U (w @ '' '' @ rest) loc opts = Restart (w @ '' '' @ rest) rest loc []"
proof -
  let ?s = "w @ '' '' @ rest"
  obtain c v where cv: "w = c # v" using w(1) by (cases w) auto
  let ?p = "(newParser ?s loc opts)\<lparr>stateDate := dateAlpha\<rparr>"
  have "date_loop U ?s loc opts (newParser ?s loc opts) 0 = date_loop U ?s loc opts ?p 3"
    using letters_run [of ?s c v "'' '' @ rest" U loc opts] w(1,2) cv by simp
  also have "\<dots> = Restart ?s rest loc []"
  proof -
    have "substr ?s 0 3 = Ok w" "substr ?s 4 (int (length ?s)) = Ok rest"
      using w(1) by (simp_all add: substr_def)
    then have "on_date U ?s loc opts ?p 3 (rune CHR '' '') = Restart ?s rest loc []"
      using w(3) by (simp add: on_date_def on_dateAlpha_def alpha_space_def)
    then show ?thesis
      using date_loop_char [of ?s w "CHR '' ''" rest 3 U loc opts ?p] w(1) by simp
  qed
  finally show ?thesis by (simp add: detect_def)
qed

text \<open>
  C36: a date behind an abbreviated weekday is parsed as if no option had been given: the recursive
  call drops the options, so \<open>PreferMonthFirst(false)\<close> has no effect there.
\<close>

theorem weekday_drops_options:
  assumes "length w = 3" "\<forall>x \<in> set w. of_char x < (128::nat) \<and> IsLetter U (rune x)"
    and "isDay (ToLower U w)" "RetryAmbiguousDateWithSwap True \<notin> set opts"
  shows "ParseDateAny L U (w @ '' '' @ rest) opts = ParseDateAny L U rest []"
proof -
  have "parseTime L U (w @ '' '' @ rest) None opts = parseTime L U rest None []"
    by (subst parseTime.simps, subst detect_weekday [OF assms(1-3)]) (simp add: no_retry [OF assms(4)])
  then show ?thesis by (simp add: ParseDateAny_def parse_any_def)
qed

theorem weekday_drops_options_witness:
  "\<forall>L U. ParseDateAny L U (''Mon'' @ '' '' @ ''03/04/2014'') [PreferMonthFirst False] =
     ParseDateAny L U ''03/04/2014'' []"
proof (intro allI)
  fix L U
  have "isDay (ToLower U ''Mon'')" by (simp add: ToLower_def to_lower_def isDay_def days_def char_of_eq_iff)
  then show "ParseDateAny L U (''Mon'' @ '' '' @ ''03/04/2014'') [PreferMonthFirst False] =
      ParseDateAny L U ''03/04/2014'' []"
    by (intro weekday_drops_options) (simp_all add: IsLetter_def)
qed

theorem parseTime_restarts_smaller_witness:
  "\<forall>U loc. detect U ''Mon 2014'' loc [] = Restart ''Mon 2014'' ''2014'' loc [] \<and> weight ''2014'' < weight ''Mon 2014''"
proof (intro allI)
  fix U loc
  have "isDay (ToLower U ''Mon'')" by (simp add: ToLower_def to_lower_def isDay_def days_def char_of_eq_iff)
  then have d: "detect U ''Mon 2014'' loc [] = Restart ''Mon 2014'' ''2014'' loc []"
    using detect_weekday [of "''Mon''" U "''2014''" loc "[]"] by (simp add: IsLetter_def)
  with parseTime_restarts_smaller [OF d]
  show "detect U ''Mon 2014'' loc [] = Restart ''Mon 2014'' ''2014'' loc [] \<and> weight ''2014'' < weight ''Mon 2014''"
    by simp
qed

end
