(* ===== verification/DateOffset.thy ===== *)
theory DateOffset
  imports DateFormats
begin

text \<open>
  \<open>date_offset.go\<close>: the offset of a fake time. A \<open>time.Duration\<close> is its number of nanoseconds, in
  the range of an \<open>int64\<close>.
\<close>

section \<open>time.Duration and Time.Sub\<close>

definition min_duration :: int where
  "min_duration = - (2 ^ 63)"

definition max_duration :: int where
  "max_duration = 2 ^ 63 - 1"

text \<open>\<open>t.Sub(u)\<close> saturates.\<close>

definition Sub :: "gotime \<Rightarrow> gotime \<Rightarrow> int" where
  "Sub t u =
     (let d = (unix_sec t - unix_sec u) * 1000000000 + (nsec t - nsec u) in
      if d < min_duration then min_duration
      else if max_duration < d then max_duration
      else d)"

abbreviation Second :: int where "Second \<equiv> 1000000000"
abbreviation Minute :: int where "Minute \<equiv> 60000000000"
abbreviation Hour :: int where "Hour \<equiv> 3600000000000"

section \<open>CalculateOffset\<close>

text \<open>The products are taken in the order of the code, each with the wrap-around of \<open>int64\<close>.\<close>

definition unit_offset :: "char \<Rightarrow> int \<Rightarrow> int" where
  "unit_offset unit amount =
     (if unit = CHR ''s'' then int64 (amount * Second)
      else if unit = CHR ''m'' then int64 (amount * Minute)
      else if unit = CHR ''h'' then int64 (amount * Hour)
      else if unit = CHR ''d'' then int64 (int64 (amount * 24) * Hour)
      else if unit = CHR ''y'' then int64 (int64 (int64 (amount * 365) * 24) * Hour)
      else int64 (amount * Second))"

text \<open>The message has a full-width colon (U+FF1A).\<close>

definition offset_message :: string where
  "offset_message = ''unable to parse offset'' @ [CHR 0xEF, CHR 0xBC, CHR 0x9A] @ ''%v''"

definition parse_value :: "string \<Rightarrow> int res" where
  "parse_value offsetStr =
     (case Atoi offsetStr of
        Err _ \<Rightarrow>
          res_bind (substr offsetStr 0 (int (length offsetStr) - 1)) (\<lambda>s.
            map_err (\<lambda>e. Errorf offset_message [e]) (Atoi s))
      | r \<Rightarrow> r)"

definition relative_offset :: "unicode_tables \<Rightarrow> string \<Rightarrow> int res" where
  "relative_offset U offsetStr =
     (let offsetStr = ToLower U offsetStr in
      res_bind (byte_at offsetStr (int (length offsetStr) - 1)) (\<lambda>unit.
      res_bind (parse_value offsetStr) (\<lambda>amount. Ok (unit_offset unit amount))))"

text \<open>\<open>now1\<close> and \<open>now2\<close> are the results of the two calls of \<open>time.Now\<close>.\<close>

definition CalculateOffset ::
  "time_lib \<Rightarrow> unicode_tables \<Rightarrow> gotime \<Rightarrow> gotime \<Rightarrow> string \<Rightarrow> int res" where
  "CalculateOffset L U now1 now2 offsetStr =
     (if offsetStr = [] \<or> offsetStr = ''0'' \<or> offsetStr = ''null'' then Ok 0
      else
        case ParseDateAny L U offsetStr [] of
          Ok t \<Rightarrow> if nsec now1 < nsec t then Ok (Sub now2 t) else Ok (Sub t now2)
        | Err _ \<Rightarrow> relative_offset U offsetStr
        | Panic \<Rightarrow> Panic)"

section \<open>Relative offsets\<close>

text \<open>A string that starts with neither a digit nor a letter is not a date.\<close>

lemma parse_any_no_date:
  assumes "s = c # cs" "of_char c < (128::nat)" "\<not> IsDigit U (rune c)" "\<not> IsLetter U (rune c)"
    and "\<not> wants_retry opts"
  shows "parse_any L U loc s opts = Err (unknownErr s)"
proof -
  have st: "stateDate (newParser s loc opts) = dateStart"
  proof -
    have "stateDate (fold apply_option opts p) = stateDate p" for p
    proof (induction opts arbitrary: p)
      case (Cons opt opts)
      then show ?case by (cases opt) simp_all
    qed simp
    then show ?thesis by (simp add: newParser_def)
  qed
  have "date_loop U s loc opts (newParser s loc opts) 0 = fail s"
    using assms st
    by (subst date_loop.simps) (simp add: substr_def DecodeRune_ascii last_byte_def on_date_def on_dateStart_def)
  then have "detect U s loc opts = fail s" by (simp add: detect_def)
  with assms(5) show ?thesis
    by (simp add: parse_any_def parseTime.simps [of L U s loc opts])
qed

lemma ParseInt_signed:
  assumes "c = CHR ''+'' \<or> c = CHR ''-''" "ds \<noteq> []" "all_digits ds" "decimal ds < 2 ^ 63"
  shows "Atoi (c # ds) = Ok (if c = CHR ''-'' then - int (decimal ds) else int (decimal ds))"
proof -
  have "ParseUint ds 10 64 = Ok (decimal ds)"
    using assms(2,3,4) by (simp add: ParseUint_def parse_digits_decimal)
  with assms(1,4) show ?thesis
    by (auto simp: Atoi_def ParseInt_def drop_sign_def sign_value_def)
qed

lemma ParseInt_signed_unit:
  assumes "c = CHR ''+'' \<or> c = CHR ''-''" "all_digits ds" "digit_val u = Some k" "10 \<le> k"
  shows "\<exists>e. Atoi (c # ds @ [u]) = Err e"
proof -
  obtain e where "parse_digits 10 (2 ^ 64 - 1) 0 (ds @ [u]) = Err e"
    using parse_digits_unit [OF assms(2-4)] by blast
  with assms(1) show ?thesis by (auto simp: Atoi_def ParseInt_def drop_sign_def ParseUint_def)
qed

text \<open>The nanoseconds of a unit; without a unit the value counts seconds.\<close>

definition unit_ns :: "string \<Rightarrow> int" where
  "unit_ns u =
     (if u = ''m'' then Minute else if u = ''h'' then Hour else if u = ''d'' then 24 * Hour
      else if u = ''y'' then 365 * 24 * Hour else Second)"

lemma relative_value:
  assumes c: "c = CHR ''+'' \<or> c = CHR ''-''" and ds: "ds \<noteq> []" "all_digits ds" "decimal ds < 2 ^ 63"
    and u: "u \<in> {'''', ''s'', ''m'', ''h'', ''d'', ''y''}"
  shows "relative_offset U (c # ds @ u) =
    Ok (int64 ((if c = CHR ''-'' then - int (decimal ds) else int (decimal ds)) * unit_ns u))"
proof -
  let ?v = "if c = CHR ''-'' then - int (decimal ds) else int (decimal ds)"
  have "\<forall>d \<in> set ds. of_char d < (128::nat) \<and> \<not> (65 \<le> rune d \<and> rune d \<le> (90::nat))"
    using ds(2) by (auto simp: all_digits_def)
  then have lower: "ToLower U (c # ds @ u) = c # ds @ u"
    using c u by (intro ToLower_id) auto
  note whole = ParseInt_signed [OF c ds]
  show ?thesis
  proof (cases "u = ''''")
    case True
    have l: "rune (last ds) \<le> (57::nat)"
      using ds(1,2) by (auto simp: all_digits_def)
    have "byte_at (c # ds) (int (length ds)) = Ok (last ds)"
      using ds(1) by (simp add: byte_at_def last_conv_nth nth_Cons')
    moreover have "unit_offset (last ds) ?v = int64 (?v * Second)"
      using l unfolding unit_offset_def by (auto simp del: of_char_eq_iff)
    ultimately show ?thesis
      using lower whole True by (simp add: relative_offset_def parse_value_def unit_ns_def)
  next
    case False
    then obtain x where x: "u = [x]" "x \<in> set ''smhdy''" using u by auto
    have "\<exists>k \<ge> 10. digit_val x = Some k" using x(2) by (auto simp: digit_val_def)
    then obtain e where e: "Atoi (c # ds @ [x]) = Err e"
      using ParseInt_signed_unit [OF c ds(2)] by blast
    have "byte_at (c # ds @ [x]) (int (length ds) + 1) = Ok x"
      by (simp add: byte_at_def nth_append nat_add_distrib)
    moreover have "substr (c # ds @ [x]) 0 (int (length ds) + 1) = Ok (c # ds)"
      by (simp add: substr_def nat_add_distrib)
    moreover have "unit_offset x ?v = int64 (?v * unit_ns u)"
      using x by (auto simp: unit_offset_def unit_ns_def int64_mult mult.assoc)
    ultimately show ?thesis
      using lower whole e x(1) by (simp add: relative_offset_def parse_value_def add.commute)
  qed
qed

lemma CalculateOffset_signed:
  assumes "c = CHR ''+'' \<or> c = CHR ''-''" "ds \<noteq> []" "all_digits ds" "decimal ds < 2 ^ 63"
    and "u \<in> {'''', ''s'', ''m'', ''h'', ''d'', ''y''}"
  shows "CalculateOffset L U now1 now2 (c # ds @ u) =
    Ok (int64 ((if c = CHR ''-'' then - int (decimal ds) else int (decimal ds)) * unit_ns u))"
proof -
  have "ParseDateAny L U (c # ds @ u) [] = Err (unknownErr (c # ds @ u))"
    unfolding ParseDateAny_def
    by (rule parse_any_no_date) (use assms(1) in \<open>auto simp: IsDigit_def IsLetter_def\<close>)
  then show ?thesis
    using assms(1) relative_value [OF assms] by (auto simp: CalculateOffset_def)
qed

text \<open>
  C9: a sign, digits and a unit (or none, for seconds) give the duration that they say, in
  nanoseconds and with the wrap-around of \<open>int64\<close>, whatever the clock shows; \<open>-90m\<close> is minus
  ninety minutes.
\<close>

theorem CalculateOffset_relative:
  assumes "c = CHR ''+'' \<or> c = CHR ''-''" "ds \<noteq> []" "all_digits ds" "decimal ds < 2 ^ 63"
    and "u \<in> {'''', ''s'', ''m'', ''h'', ''d'', ''y''}"
  shows "CalculateOffset L U now1 now2 (c # ds @ u) =
    Ok (int64 ((if c = CHR ''-'' then - int (decimal ds) else int (decimal ds)) * unit_ns u))"
  by (rule CalculateOffset_signed [OF assms])

theorem CalculateOffset_relative_witness:
  "\<forall>L U now1 now2. CalculateOffset L U now1 now2 ''-90m'' = Ok (- 5400000000000)"
proof (intro allI)
  fix L U now1 now2
  have "decimal ''90'' = 90" by (simp add: char_of_eq_iff)
  moreover have "int64 (- 5400000000000) = - 5400000000000" by (rule int64_id) simp_all
  ultimately show "CalculateOffset L U now1 now2 ''-90m'' = Ok (- 5400000000000)"
    using CalculateOffset_relative [of "CHR ''-''" "''90''" "''m''" L U now1 now2]
    by (simp add: all_digits_def unit_ns_def)
qed

lemma int64_above: "2 ^ 63 \<le> x \<Longrightarrow> x < 2 ^ 64 \<Longrightarrow> int64 x = x - 2 ^ 64"
proof -
  assume x: "2 ^ 63 \<le> x" "x < 2 ^ 64"
  have "(word_of_int x :: 64 word) = word_of_int (x - 2 ^ 64)"
    by (simp add: word_of_int_eq_iff take_bit_eq_mod)
  then have "int64 x = int64 (x - 2 ^ 64)" by (simp only: int64_def)
  also have "\<dots> = x - 2 ^ 64" by (rule int64_id) (use x in simp_all)
  finally show ?thesis .
qed

text \<open>
  C37: from 293 to 584 years the product of the code overflows: the offset that was asked to be
  in the future is returned as one in the past, without an error.
\<close>

theorem CalculateOffset_years_wrap:
  assumes "all_digits ds" "293 \<le> decimal ds" "decimal ds \<le> 584"
  shows "CalculateOffset L U now1 now2 (CHR ''+'' # ds @ ''y'') =
      Ok (int (decimal ds) * 31536000000000000 - 2 ^ 64) \<and>
    int (decimal ds) * 31536000000000000 - 2 ^ 64 < 0"
proof -
  have "ParseDateAny L U (CHR ''+'' # ds @ ''y'') [] = Err (unknownErr (CHR ''+'' # ds @ ''y''))"
    unfolding ParseDateAny_def by (rule parse_any_no_date) (auto simp: IsDigit_def IsLetter_def)
  moreover have "ds \<noteq> []" using assms(2) by auto
  moreover have "int64 (int (decimal ds) * 31536000000000000) = int (decimal ds) * 31536000000000000 - 2 ^ 64"
    by (rule int64_above) (use assms(2,3) in simp_all)
  ultimately show ?thesis
    using relative_value [of "CHR ''+''" ds "''y''" U] assms
    by (simp add: CalculateOffset_def unit_ns_def)
qed

theorem CalculateOffset_years_wrap_witness:
  "\<forall>L U now1 now2. CalculateOffset L U now1 now2 ''+300y'' = Ok (- 8985944073709551616)"
proof (intro allI)
  fix L U now1 now2
  have "decimal ''300'' = 300" by (simp add: char_of_eq_iff)
  then show "CalculateOffset L U now1 now2 ''+300y'' = Ok (- 8985944073709551616)"
    using CalculateOffset_years_wrap [of "''300''" L U now1 now2] by (simp add: all_digits_def)
qed

end
