(* ===== verification/DateValues.thy ===== *)
theory DateValues
  imports DateSafety DateOffset
begin

text \<open>
  The times that the documented formats stand for: the layouts of \<open>DateFormats\<close> are read by the
  library of \<open>GoTime\<close>, for all digits.
\<close>

section \<open>Reading one element\<close>

definition ends_part :: "string \<Rightarrow> bool" where
  "ends_part s \<longleftrightarrow> s = [] \<or> \<not> is_digit (hd s)"

lemma is_digit_iff: "is_digit c \<longleftrightarrow> digit c"
  by (simp add: is_digit_def)

lemma getnum_part:
  assumes "part w" "ends_part rest" "length w = 2 \<or> \<not> fixed"
  shows "getnum (w @ rest) fixed = Some (int (decimal w), rest)"
proof -
  consider a where "w = [a]" "is_digit a" | a b where "w = [a, b]" "is_digit a" "is_digit b"
    using assms(1) by (auto simp: part_def all_digits_def length_Suc_conv numeral_2_eq_2 is_digit_iff)
  then show ?thesis
    by cases (use assms(2,3) in \<open>auto simp: getnum_def digit_at_def ends_part_def hd_conv_nth\<close>)
qed

lemma HasPrefix_simps [simp]:
  "HasPrefix s []" "\<not> HasPrefix [] (d # p)" "HasPrefix (c # s) (d # p) \<longleftrightarrow> c = d \<and> HasPrefix s p"
  by (auto simp: HasPrefix_def)

text \<open>The text of the element that an error names.\<close>

definition element :: "string \<Rightarrow> string \<Rightarrow> string \<Rightarrow> string" where
  "element layout prefix suffix =
     take (length layout - length suffix - length prefix) (drop (length prefix) layout)"

lemma parse_loop_chunk:
  assumes "nextStdChunk layout = (prefix, Some x, suffix)" "skip_literal v prefix = Inr v'"
  shows "parse_loop al av layout v t =
    (case parse_chunk x suffix v' t of
       Got v'' t' \<Rightarrow> parse_loop al av suffix v'' t'
     | OutOfRange what \<Rightarrow>
         Err (TimeParseError al av (element layout prefix suffix) v' ('': '' @ what @ '' out of range''))
     | BadChunk \<Rightarrow> Err (TimeParseError al av (element layout prefix suffix) v' []))"
  using assms by (subst parse_loop.simps) (simp add: element_def Let_def split: chunk.split)

text \<open>The separators of the layouts are literal text.\<close>

definition separator :: "char \<Rightarrow> bool" where
  "separator c \<longleftrightarrow> c \<in> {CHR ''/'', CHR '':'', CHR '' '', CHR ''T''}"

lemma std_head_separator: "separator c \<Longrightarrow> std_head (c # L) = None"
  unfolding separator_def
  by (elim insertE emptyE; hypsubst) (simp_all add: std_head_def std_name_def is_digit_def)

lemma std_head_dash: "\<not> HasPrefix L ''07'' \<Longrightarrow> std_head (CHR ''-'' # L) = None"
  by (cases L; cases "tl L") (auto simp: std_head_def std_zone_def)

lemma nextStdChunk_literal:
  "std_head (c # L) = None \<Longrightarrow> nextStdChunk L = (p, x, r) \<Longrightarrow> nextStdChunk (c # L) = (c # p, x, r)"
  by simp

lemma skip_one:
  assumes "c \<noteq> CHR '' '' \<or> v = [] \<or> hd v \<noteq> CHR '' ''"
  shows "skip_literal (c # v) [c] = Inr v"
  using assms by (cases v) auto

lemma chunk_of_month:
  assumes "n = 1 \<or> n = 2" "ends_part L"
  shows "nextStdChunk (mon_frag n @ L) = ([], Some (if n = 2 then stdZeroMonth else stdNumMonth), L)"
  using assms by (cases L) (auto simp: mon_frag_def std_head_def std_number_def is_digit_def ends_part_def)

lemma chunk_of_day:
  assumes "n = 1 \<or> n = 2" "ends_part L"
  shows "nextStdChunk (day_frag n @ L) = ([], Some (if n = 2 then stdZeroDay else stdDay), L)"
  using assms by (cases L) (auto simp: day_frag_def std_head_def std_number_def is_digit_def ends_part_def)

lemma ends_part_simps [simp]:
  "ends_part []" "ends_part (CHR ''-'' # s)" "ends_part (CHR ''/'' # s)" "ends_part (CHR '':'' # s)"
  "ends_part (CHR '' '' # s)" "ends_part (CHR ''T'' # s)"
  by (simp_all add: ends_part_def is_digit_def)

lemma chunk_of_year:
  assumes "n = 4 \<or> n = 2"
  shows "nextStdChunk (year_frag n @ L) = ([], Some (if n = 4 then stdLongYear else stdYear), L)"
  using assms by (auto simp: year_frag_def std_head_def std_number_def is_digit_def)

lemma chunk_of_hour:
  assumes "n = 1 \<or> n = 2"
  shows "nextStdChunk ((if n = 2 then ''15'' else ''3'') @ L) = ([], Some (if n = 2 then stdHour else stdHour12), L)"
  using assms by (auto simp: std_head_def std_number_def is_digit_def)

lemma chunk_of_minute:
  assumes "n = 1 \<or> n = 2"
  shows "nextStdChunk ((if n = 2 then ''04'' else ''4'') @ L) = ([], Some (if n = 2 then stdZeroMinute else stdMinute), L)"
  using assms by (auto simp: std_head_def std_number_def is_digit_def)

lemma chunk_of_second:
  assumes "n = 1 \<or> n = 2"
  shows "nextStdChunk ((if n = 2 then ''05'' else ''5'') @ L) = ([], Some (if n = 2 then stdZeroSecond else stdSecond), L)"
  using assms by (auto simp: std_head_def std_number_def is_digit_def)

section \<open>The loop, an element at a time\<close>

lemma read_first:
  assumes "nextStdChunk L = ([], Some x, R)" "parse_chunk x R v t = Got v' t'"
  shows "parse_loop al av L v t = parse_loop al av R v' t'"
  using parse_loop_chunk [of L "[]" x R v v] assms by simp

lemma read_first_range:
  assumes "nextStdChunk L = ([], Some x, R)" "parse_chunk x R v t = OutOfRange what"
  shows "parse_loop al av L v t = Err (TimeParseError al av (element L [] R) v ('': '' @ what @ '' out of range''))"
  using parse_loop_chunk [of L "[]" x R v v] assms by simp

lemma read_next:
  assumes "std_head (c # L) = None" "c \<noteq> CHR '' '' \<or> v = [] \<or> hd v \<noteq> CHR '' ''"
    and "nextStdChunk L = ([], Some x, R)" "parse_chunk x R v t = Got v' t'"
  shows "parse_loop al av (c # L) (c # v) t = parse_loop al av R v' t'"
  using parse_loop_chunk [OF nextStdChunk_literal [OF assms(1,3)] skip_one [OF assms(2)]] assms(4) by simp

lemma read_next_range:
  assumes "std_head (c # L) = None" "c \<noteq> CHR '' '' \<or> v = [] \<or> hd v \<noteq> CHR '' ''"
    and "nextStdChunk L = ([], Some x, R)" "parse_chunk x R v t = OutOfRange what"
  shows "parse_loop al av (c # L) (c # v) t =
    Err (TimeParseError al av (element (c # L) [c] R) v ('': '' @ what @ '' out of range''))"
  using parse_loop_chunk [OF nextStdChunk_literal [OF assms(1,3)] skip_one [OF assms(2)]] assms(4) by simp

lemma read_end: "parse_loop al av [] [] t = Ok t"
  by (subst parse_loop.simps) simp

section \<open>What an element reads\<close>

lemma part_ne: "part w \<Longrightarrow> w @ s = [] \<or> hd (w @ s) \<noteq> CHR '' ''"
  using part_nonempty [of w] digit_chars by auto

lemma month_value:
  assumes "part w" "ends_part rest"
  shows "parse_chunk (if length w = 2 then stdZeroMonth else stdNumMonth) R (w @ rest) t =
    (if month_range (int (decimal w)) then Got rest (t\<lparr>f_month := int (decimal w)\<rparr>) else OutOfRange ''month'')"
proof (cases "length w = 2")
  case True
  with getnum_part [OF assms, of True] show ?thesis by (simp add: num_chunk_def)
next
  case False
  with getnum_part [OF assms, of False] assms(1) show ?thesis by (auto simp: num_chunk_def)
qed

lemma day_value:
  assumes "part w" "ends_part rest"
  shows "parse_chunk (if length w = 2 then stdZeroDay else stdDay) R (w @ rest) t =
    Got rest (t\<lparr>f_day := int (decimal w)\<rparr>)"
proof (cases "length w = 2")
  case True
  with getnum_part [OF assms, of True] show ?thesis by (simp add: take_names_def num_chunk_def)
next
  case False
  with getnum_part [OF assms, of False] assms(1) show ?thesis by (auto simp: take_names_def num_chunk_def)
qed

lemma minute_value:
  assumes "part w" "ends_part rest" "decimal w < 60"
  shows "parse_chunk (if length w = 2 then stdZeroMinute else stdMinute) R (w @ rest) t =
    Got rest (t\<lparr>f_min := int (decimal w)\<rparr>)"
proof (cases "length w = 2")
  case True
  with getnum_part [OF assms(1,2), of True] assms(3) show ?thesis by (simp add: num_chunk_def)
next
  case False
  with getnum_part [OF assms(1,2), of False] assms(1,3) show ?thesis by (auto simp: num_chunk_def)
qed

lemma hour_value:
  assumes "part w" "ends_part rest" "decimal w < 24"
  shows "parse_chunk (if length w = 2 then stdHour else stdHour12) R (w @ rest) t =
    Got rest (t\<lparr>f_hour := int (decimal w)\<rparr>)"
proof (cases "length w = 2")
  case True
  with getnum_part [OF assms(1,2), of False] assms(3) show ?thesis by (simp add: num_chunk_def)
next
  case False
  then have "length w = 1" using assms(1) by (simp add: part_def)
  with decimal_less [of w] assms(1) have "decimal w < 10" by (simp add: part_def)
  with False getnum_part [OF assms(1,2), of False] show ?thesis by (simp add: num_chunk_def)
qed

lemma second_value:
  assumes "part w" "decimal w < 60"
  shows "parse_chunk (if length w = 2 then stdZeroSecond else stdSecond) R w t =
    Got [] (t\<lparr>f_sec := int (decimal w)\<rparr>)"
proof (cases "length w = 2")
  case True
  with getnum_part [OF assms(1), of "[]" True] assms(2) show ?thesis by (simp add: second_chunk_def)
next
  case False
  with getnum_part [OF assms(1), of "[]" False] assms show ?thesis by (auto simp: second_chunk_def)
qed

lemma atoi_digits:
  assumes "all_digits w" "w \<noteq> []"
  shows "atoi w = Some (int (decimal w))"
proof -
  obtain c v where w: "w = c # v" using assms(2) by (cases w) auto
  then have "digit c" using assms(1) by (simp add: all_digits_def)
  with w digit_chars [OF this] assms(1) show ?thesis by (simp add: atoi_def Let_def)
qed

definition full_year :: "string \<Rightarrow> int" where
  "full_year w =
     (if length w = 4 then int (decimal w)
      else if 69 \<le> decimal w then int (decimal w) + 1900 else int (decimal w) + 2000)"

lemma year_value:
  assumes "all_digits w" "length w = 2 \<or> length w = 4"
  shows "parse_chunk (if length w = 4 then stdLongYear else stdYear) R (w @ rest) t =
    Got rest (t\<lparr>f_year := full_year w\<rparr>)"
proof -
  have ne: "w \<noteq> []" using assms(2) by auto
  then obtain c v where w: "w = c # v" by (cases w) auto
  then have "is_digit c" using assms(1) by (simp add: all_digits_def is_digit_iff)
  with w have "digit_at (w @ rest) 0" by (simp add: digit_at_def)
  with assms(2) atoi_digits [OF assms(1) ne] show ?thesis
    by (auto simp: year_chunk_def long_year_chunk_def full_year_def)
qed

section \<open>A field behind a literal\<close>

lemma leading_year:
  assumes "all_digits y" "length y = 4"
  shows "parse_loop al av (''2006'' @ L) (y @ rest) t = parse_loop al av L rest (t\<lparr>f_year := int (decimal y)\<rparr>)"
proof -
  have l: "length y = 2 \<or> length y = 4" "length y = 4 \<or> length y = 2" using assms(2) by simp_all
  from read_first [OF chunk_of_year [OF l(2)] year_value [OF assms(1) l(1)], of al av L rest t]
  show ?thesis using assms(2) by (simp add: year_frag_def full_year_def)
qed

lemma next_year:
  assumes "c \<noteq> CHR '' ''" "std_head (c # year_frag (length y) @ L) = None"
    and "all_digits y" "length y = 2 \<or> length y = 4"
  shows "parse_loop al av (c # year_frag (length y) @ L) (c # y @ rest) t =
    parse_loop al av L rest (t\<lparr>f_year := full_year y\<rparr>)"
proof -
  have l: "length y = 4 \<or> length y = 2" using assms(4) by auto
  show ?thesis
    by (rule read_next [OF assms(2) _ chunk_of_year [OF l] year_value [OF assms(3,4)]]) (use assms(1) in simp)
qed

lemma part_length: "part w \<Longrightarrow> length w = 1 \<or> length w = 2"
  by (simp add: part_def)

lemma next_day:
  assumes "std_head (c # day_frag (length d) @ L) = None" "part d" "ends_part rest" "ends_part L"
  shows "parse_loop al av (c # day_frag (length d) @ L) (c # d @ rest) t =
    parse_loop al av L rest (t\<lparr>f_day := int (decimal d)\<rparr>)"
  by (rule read_next [OF assms(1) _ chunk_of_day [OF part_length [OF assms(2)] assms(4)] day_value [OF assms(2,3)]])
    (use part_ne [OF assms(2)] in blast)

lemma next_month:
  assumes "std_head (c # mon_frag (length m) @ L) = None" "part m" "ends_part rest" "ends_part L"
  shows "parse_loop al av (c # mon_frag (length m) @ L) (c # m @ rest) t =
    (if month_range (int (decimal m)) then parse_loop al av L rest (t\<lparr>f_month := int (decimal m)\<rparr>)
     else Err (TimeParseError al av (mon_frag (length m)) (m @ rest) '': month out of range''))"
proof (cases "month_range (int (decimal m))")
  case True
  with month_value [OF assms(2,3), of L t] show ?thesis
    using read_next [OF assms(1) _ chunk_of_month [OF part_length [OF assms(2)] assms(4)], of "m @ rest"]
      part_ne [OF assms(2), of rest] by simp
next
  case False
  with month_value [OF assms(2,3), of L t] show ?thesis
    using read_next_range [OF assms(1) _ chunk_of_month [OF part_length [OF assms(2)] assms(4)], of "m @ rest"]
      part_ne [OF assms(2), of rest] by (simp add: element_def)
qed

text \<open>The time of day at the end of the value.\<close>

definition clock_ok :: "string \<Rightarrow> string \<Rightarrow> string \<Rightarrow> bool" where
  "clock_ok h mi s \<longleftrightarrow> part h \<and> part mi \<and> part s \<and> decimal h < 24 \<and> decimal mi < 60 \<and> decimal s < 60"

lemma next_clock:
  assumes "separator c" "clock_ok h mi s"
  shows "parse_loop al av (c # clock_layout (length h) (length mi) (length s)) (c # h @ '':'' @ mi @ '':'' @ s) t =
    Ok (t\<lparr>f_hour := int (decimal h), f_min := int (decimal mi), f_sec := int (decimal s)\<rparr>)"
proof -
  let ?hh = "if length h = 2 then ''15'' else ''3''" and ?mm = "if length mi = 2 then ''04'' else ''4''"
    and ?ss = "if length s = 2 then ''05'' else ''5''"
  let ?t1 = "t\<lparr>f_hour := int (decimal h)\<rparr>" and ?t2 = "t\<lparr>f_hour := int (decimal h), f_min := int (decimal mi)\<rparr>"
  have w: "part h" "part mi" "part s" "decimal h < 24" "decimal mi < 60" "decimal s < 60"
    using assms(2) by (simp_all add: clock_ok_def)
  have colon: "separator CHR '':''" by (simp add: separator_def)
  have "parse_loop al av (c # ?hh @ CHR '':'' # ?mm @ CHR '':'' # ?ss) (c # h @ CHR '':'' # mi @ CHR '':'' # s) t =
      parse_loop al av (CHR '':'' # ?mm @ CHR '':'' # ?ss) (CHR '':'' # mi @ CHR '':'' # s) ?t1"
    by (rule read_next [OF std_head_separator [OF assms(1)] _ chunk_of_hour [OF part_length [OF w(1)]]
          hour_value [OF w(1) _ w(4)]]) (use part_ne [OF w(1)] in auto)
  also have "\<dots> = parse_loop al av (CHR '':'' # ?ss) (CHR '':'' # s) ?t2"
    by (rule read_next [OF std_head_separator [OF colon] _ chunk_of_minute [OF part_length [OF w(2)]]])
      (use minute_value [OF w(2) _ w(5)] in auto)
  also have "\<dots> = parse_loop al av [] [] (?t2\<lparr>f_sec := int (decimal s)\<rparr>)"
    using read_next [OF std_head_separator [OF colon] _ chunk_of_second [OF part_length [OF w(3)], of "[]"], of s]
      second_value [OF w(3,6), of "[]" ?t2] by simp
  finally show ?thesis by (simp add: clock_layout_def read_end)
qed

section \<open>The library on the detected layouts\<close>

definition valid_date :: "int \<Rightarrow> int \<Rightarrow> int \<Rightarrow> bool" where
  "valid_date y m d \<longleftrightarrow> 1 \<le> m \<and> m \<le> 12 \<and> 1 \<le> d \<and> d \<le> daysIn m y"

text \<open>The time that a wall clock of a location shows; without a location the one of UTC.\<close>

definition wall :: "zone_db \<Rightarrow> location option \<Rightarrow> int \<Rightarrow> int \<Rightarrow> int \<Rightarrow> int \<Rightarrow> int \<Rightarrow> int \<Rightarrow> gotime" where
  "wall Z loc y m d h mi s =
     date_in Z (unix_seconds y m d h mi s) 0 (case loc of None \<Rightarrow> UTC | Some l \<Rightarrow> l)"

lemma wall_utc [simp]:
  "wall Z None y m d h mi s = \<lparr>unix_sec = unix_seconds y m d h mi s, nsec = 0, zone = UTC\<rparr>"
  by (simp add: wall_def date_in_def lookup_zone_def)

definition date_fields_of :: "int \<Rightarrow> int \<Rightarrow> int \<Rightarrow> int \<Rightarrow> int \<Rightarrow> int \<Rightarrow> tfields" where
  "date_fields_of y m d h mi s =
     no_fields\<lparr>f_year := y, f_month := m, f_day := d, f_hour := h, f_min := mi, f_sec := s\<rparr>"

lemma time_parse_fields:
  assumes "parse_loop la v la v no_fields = Ok (date_fields_of y m d h mi s)" "valid_date y m d"
  shows "time_parse Z la v loc = Ok (wall Z loc y m d h mi s)"
proof -
  have md: "month_day (date_fields_of y m d h mi s) = Inr (m, d)"
    using assms(2) by (simp add: month_day_def date_fields_of_def no_fields_def valid_date_def)
  have f: "fix_hour (date_fields_of y m d h mi s) = h" "f_year (date_fields_of y m d h mi s) = y"
    "f_min (date_fields_of y m d h mi s) = mi" "f_sec (date_fields_of y m d h mi s) = s"
    by (simp_all add: fix_hour_def date_fields_of_def no_fields_def)
  have "locate Z l l' (date_fields_of y m d h mi s) u = date_in Z u 0 l" for l l' u
    by (simp add: locate_def date_fields_of_def no_fields_def)
  then have "parse_in Z l l' la v = Ok (date_in Z (unix_seconds y m d h mi s) 0 l)" for l l'
    using assms(2) by (simp add: parse_in_def assms(1) md f valid_date_def)
  then show ?thesis by (simp add: time_parse_def wall_def split: option.split)
qed

lemma time_parse_month_range:
  assumes "parse_loop la v la v no_fields = Err e"
  shows "time_parse Z la v loc = Err e"
  using assms by (simp add: time_parse_def parse_in_def split: option.split)

lemma month_range_valid: "valid_date y m d \<Longrightarrow> month_range m"
  by (simp add: valid_date_def month_range_def)

lemma frag_dash:
  assumes "n = 1 \<or> n = 2"
  shows "std_head (CHR ''-'' # mon_frag n @ L) = None" "std_head (CHR ''-'' # day_frag n @ L) = None"
  using assms by (auto intro!: std_head_dash simp: mon_frag_def day_frag_def)

lemma time_parse_dashes:
  assumes "all_digits y" "length y = 4" "part m" "part d"
    and "valid_date (int (decimal y)) (int (decimal m)) (int (decimal d))"
  shows "time_parse Z (''2006-'' @ mon_frag (length m) @ ''-'' @ day_frag (length d)) (y @ ''-'' @ m @ ''-'' @ d) loc =
    Ok (wall Z loc (int (decimal y)) (int (decimal m)) (int (decimal d)) 0 0 0)"
proof (rule time_parse_fields [OF _ assms(5)])
  let ?la = "''2006-'' @ mon_frag (length m) @ ''-'' @ day_frag (length d)" and ?v = "y @ ''-'' @ m @ ''-'' @ d"
  let ?t = "no_fields\<lparr>f_year := int (decimal y)\<rparr>"
  note dash = frag_dash [OF part_length [OF assms(3)]] frag_dash [OF part_length [OF assms(4)]]
  have "parse_loop ?la ?v ?la ?v no_fields =
      parse_loop ?la ?v (CHR ''-'' # mon_frag (length m) @ ''-'' @ day_frag (length d))
        (CHR ''-'' # m @ ''-'' @ d) ?t"
    using leading_year [OF assms(1,2), of ?la ?v] by simp
  also have "\<dots> = parse_loop ?la ?v (CHR ''-'' # day_frag (length d) @ []) (CHR ''-'' # d @ [])
      (?t\<lparr>f_month := int (decimal m)\<rparr>)"
    using next_month [OF dash(1) assms(3), of "''-'' @ d" "''-'' @ day_frag (length d)" ?la ?v] month_range_valid [OF assms(5)]
    by simp
  also have "\<dots> = Ok (?t\<lparr>f_month := int (decimal m), f_day := int (decimal d)\<rparr>)"
    using next_day [OF dash(4) assms(4), of "[]" "[]" ?la ?v] by (simp add: read_end)
  finally show "parse_loop ?la ?v ?la ?v no_fields =
      Ok (date_fields_of (int (decimal y)) (int (decimal m)) (int (decimal d)) 0 0 0)"
    by (simp add: date_fields_of_def no_fields_def)
qed

lemma time_parse_stamp:
  assumes "all_digits y" "length y = 4" "part m" "part d" "separator c" "c = CHR '' '' \<or> c = CHR ''T''"
    and "clock_ok h mi s"
    and "valid_date (int (decimal y)) (int (decimal m)) (int (decimal d))"
  shows "time_parse Z (stamp_layout (length m) (length d) c (length h) (length mi) (length s))
      (y @ ''-'' @ m @ ''-'' @ d @ [c] @ h @ '':'' @ mi @ '':'' @ s) loc =
    Ok (wall Z loc (int (decimal y)) (int (decimal m)) (int (decimal d))
      (int (decimal h)) (int (decimal mi)) (int (decimal s)))"
proof (rule time_parse_fields [OF _ assms(8)])
  let ?la = "stamp_layout (length m) (length d) c (length h) (length mi) (length s)"
  let ?v = "y @ ''-'' @ m @ ''-'' @ d @ [c] @ h @ '':'' @ mi @ '':'' @ s"
  let ?cl = "c # clock_layout (length h) (length mi) (length s)" and ?cv = "c # h @ '':'' @ mi @ '':'' @ s"
  let ?t = "no_fields\<lparr>f_year := int (decimal y)\<rparr>"
  note dash = frag_dash [OF part_length [OF assms(3)]] frag_dash [OF part_length [OF assms(4)]]
  have c: "ends_part (c # x)" for x using assms(6) by auto
  have "parse_loop ?la ?v ?la ?v no_fields =
      parse_loop ?la ?v (CHR ''-'' # mon_frag (length m) @ ''-'' @ day_frag (length d) @ ?cl)
        (CHR ''-'' # m @ ''-'' @ d @ ?cv) ?t"
    using leading_year [OF assms(1,2), of ?la ?v] by (simp add: stamp_layout_def)
  also have "\<dots> = parse_loop ?la ?v (CHR ''-'' # day_frag (length d) @ ?cl) (CHR ''-'' # d @ ?cv)
      (?t\<lparr>f_month := int (decimal m)\<rparr>)"
    using next_month [OF dash(1) assms(3), of "''-'' @ d @ ?cv" "''-'' @ day_frag (length d) @ ?cl" ?la ?v]
      month_range_valid [OF assms(8)] by simp
  also have "\<dots> = parse_loop ?la ?v ?cl ?cv (?t\<lparr>f_month := int (decimal m), f_day := int (decimal d)\<rparr>)"
    using next_day [OF dash(4) assms(4) c c] by simp
  also have "\<dots> = Ok (?t\<lparr>f_month := int (decimal m), f_day := int (decimal d), f_hour := int (decimal h),
      f_min := int (decimal mi), f_sec := int (decimal s)\<rparr>)"
    by (rule next_clock [OF assms(5,7)])
  finally show "parse_loop ?la ?v ?la ?v no_fields =
      Ok (date_fields_of (int (decimal y)) (int (decimal m)) (int (decimal d))
        (int (decimal h)) (int (decimal mi)) (int (decimal s)))"
    by (simp add: date_fields_of_def)
qed

lemma full_year_nonneg: "0 \<le> full_year w"
  by (simp add: full_year_def)

text \<open>Dates with slashes, in both orders of month and day.\<close>

lemma frag_slash:
  "std_head (CHR ''/'' # L) = None"
  by (rule std_head_separator) (simp add: separator_def)


lemma read_month:
  assumes "part m" "ends_part rest" "ends_part L"
  shows "parse_loop al av (mon_frag (length m) @ L) (m @ rest) t =
    (if month_range (int (decimal m)) then parse_loop al av L rest (t\<lparr>f_month := int (decimal m)\<rparr>)
     else Err (TimeParseError al av (mon_frag (length m)) (m @ rest) '': month out of range''))"
  using month_value [OF assms(1,2), of L t] read_first [OF chunk_of_month [OF part_length [OF assms(1)] assms(3)], of "m @ rest"]
    read_first_range [OF chunk_of_month [OF part_length [OF assms(1)] assms(3)], of "m @ rest"]
  by (simp add: element_def)

lemma read_day:
  assumes "part d" "ends_part rest" "ends_part L"
  shows "parse_loop al av (day_frag (length d) @ L) (d @ rest) t =
    parse_loop al av L rest (t\<lparr>f_day := int (decimal d)\<rparr>)"
  by (rule read_first [OF chunk_of_day [OF part_length [OF assms(1)] assms(3)] day_value [OF assms(1,2)]])

text \<open>The values of a date with slashes: month, day and year.\<close>

definition slash_parts :: "bool \<Rightarrow> string \<Rightarrow> string \<Rightarrow> int \<times> int" where
  "slash_parts month_first a b =
     (if month_first then (int (decimal a), int (decimal b)) else (int (decimal b), int (decimal a)))"

lemma parse_loop_slashes:
  assumes "part a" "part b" "all_digits y" "length y = 2 \<or> length y = 4" "slash_parts mf a b = (m, d)"
  shows "month_range m \<Longrightarrow>
      parse_loop la v (slash_layout mf (length a) (length b) (length y)) (a @ ''/'' @ b @ ''/'' @ y) no_fields =
      Ok (date_fields_of (full_year y) m d 0 0 0)"
    and "\<not> month_range m \<Longrightarrow> \<exists>l w.
      parse_loop la v (slash_layout mf (length a) (length b) (length y)) (a @ ''/'' @ b @ ''/'' @ y) no_fields =
      Err (TimeParseError la v l w '': month out of range'')"
proof -
  have y: "parse_loop la v (CHR ''/'' # year_frag (length y)) (CHR ''/'' # y) t = Ok (t\<lparr>f_year := full_year y\<rparr>)" for t
    using next_year [OF _ frag_slash assms(3,4), of la v "[]" "[]" t] by (simp add: read_end)
  let ?L = "''/'' @ year_frag (length y)" and ?r = "''/'' @ y"
  have m1: "parse_loop la v (mon_frag (length a) @ ''/'' @ L) (a @ ''/'' @ rest) t =
      (if month_range (int (decimal a)) then parse_loop la v (''/'' @ L) (''/'' @ rest) (t\<lparr>f_month := int (decimal a)\<rparr>)
       else Err (TimeParseError la v (mon_frag (length a)) (a @ ''/'' @ rest) '': month out of range''))" for L rest t
    by (rule read_month [OF assms(1)]) simp_all
  have d1: "parse_loop la v (day_frag (length a) @ ''/'' @ L) (a @ ''/'' @ rest) t =
      parse_loop la v (''/'' @ L) (''/'' @ rest) (t\<lparr>f_day := int (decimal a)\<rparr>)" for L rest t
    by (rule read_day [OF assms(1)]) simp_all
  have m2: "parse_loop la v (''/'' @ mon_frag (length b) @ ?L) (''/'' @ b @ ?r) t =
      (if month_range (int (decimal b)) then parse_loop la v ?L ?r (t\<lparr>f_month := int (decimal b)\<rparr>)
       else Err (TimeParseError la v (mon_frag (length b)) (b @ ?r) '': month out of range''))" for t
    using next_month [OF frag_slash assms(2), of ?r ?L] by simp
  have d2: "parse_loop la v (''/'' @ day_frag (length b) @ ?L) (''/'' @ b @ ?r) t =
      parse_loop la v ?L ?r (t\<lparr>f_day := int (decimal b)\<rparr>)" for t
    using next_day [OF frag_slash assms(2), of ?r ?L] by simp
  let ?p = "parse_loop la v (slash_layout mf (length a) (length b) (length y)) (a @ ''/'' @ b @ ''/'' @ y) no_fields"
  have "?p = (if month_range m then Ok (date_fields_of (full_year y) m d 0 0 0)
      else Err (TimeParseError la v (mon_frag (length (if mf then a else b)))
        ((if mf then a @ ''/'' @ b else b) @ ?r) '': month out of range''))"
  proof (cases mf)
    case True
    with assms(5) have "m = int (decimal a)" "d = int (decimal b)" by (simp_all add: slash_parts_def)
    with True show ?thesis
      using m1 [of "day_frag (length b) @ ?L" "b @ ?r" no_fields] d2 y
      by (simp add: slash_layout_def date_fields_of_def no_fields_def)
  next
    case False
    with assms(5) have "m = int (decimal b)" "d = int (decimal a)" by (simp_all add: slash_parts_def)
    with False show ?thesis
      using d1 [of "mon_frag (length b) @ ?L" "b @ ?r" no_fields] m2 y
      by (simp add: slash_layout_def date_fields_of_def no_fields_def)
  qed
  then show "month_range m \<Longrightarrow> ?p = Ok (date_fields_of (full_year y) m d 0 0 0)"
    and "\<not> month_range m \<Longrightarrow> \<exists>l w. ?p = Err (TimeParseError la v l w '': month out of range'')"
    by auto
qed

end
