(* ===== verification/DateResults.thy ===== *)
theory DateResults
  imports DateValues
begin

text \<open>
  What the exported functions return for the formats of the documentation: the time of the wall
  clock that the string shows, the layout, the errors, and the effect of the options.
\<close>

section \<open>From the detected layout to the result\<close>

text \<open>A parser that only holds a layout for its whole string.\<close>

definition plain_parser :: "parser \<Rightarrow> string \<Rightarrow> string \<Rightarrow> location option \<Rightarrow> bool" where
  "plain_parser q f s loc \<longleftrightarrow>
     p_format q = f \<and> p_datestr q = s \<and> p_loc q = loc \<and> p_t q = None \<and> fullMonth q = [] \<and> skip q = 0"

lemma parse_plain:
  assumes "plain_parser q f s loc"
  shows "parse L q = (Parse L f s loc, q)"
  using assms by (simp add: plain_parser_def parse_def skip_prefix_def)

lemma parseTime_clear:
  assumes "detect U s loc opts = Return d (Some q) None" "\<not> ambiguousMD q \<or> \<not> wants_retry opts"
  shows "parseTime L U s loc opts = Ok (Some q, None)"
  using assms by (auto simp: parseTime.simps [of L U s loc opts])

lemma parse_any_plain:
  assumes "detect U s loc opts = Return d (Some q) None" "plain_parser q f s loc"
    and "\<not> ambiguousMD q \<or> \<not> wants_retry opts"
  shows "parse_any L U loc s opts = Parse L f s loc"
  by (simp add: parse_any_def parseTime_clear [OF assms(1,3)] parse_ptr_def parse_plain [OF assms(2)])

lemma ParseDateFormat_plain:
  assumes "detect U s None opts = Return d (Some q) None" "plain_parser q f s None"
    and "\<not> ambiguousMD q \<or> \<not> wants_retry opts" "Parse L f s None = Ok t"
  shows "ParseDateFormat L U s opts = Ok f"
proof -
  have "p_format q = f" using assms(2) by (simp add: plain_parser_def)
  then show ?thesis
    by (simp add: ParseDateFormat_def parseTime_clear [OF assms(1,3)] parse_ptr_def parse_plain [OF assms(2)] assms(4))
qed

lemma ParseDataStrict_plain:
  assumes "detect U s None opts = Return d (Some q) None" "plain_parser q f s None"
    and "\<not> ambiguousMD q \<or> \<not> wants_retry opts"
  shows "ParseDataStrict L U s opts = (if ambiguousMD q then Err ErrAmbiguousMMDD else Parse L f s None)"
  by (simp add: ParseDataStrict_def parseTime_clear [OF assms(1,3)] parse_ptr_def parse_plain [OF assms(2)])

lemma Parse_go [simp]: "Parse (go_time Z) = time_parse Z"
  by (simp add: go_time_def)

section \<open>Dates with dashes and a time\<close>

text \<open>A documented date and time: the parts of \<open>y-m-d h:mi:s\<close> or \<open>y-m-dTh:mi:s\<close>.\<close>

definition datetime_ok :: "string \<Rightarrow> string \<Rightarrow> string \<Rightarrow> char \<Rightarrow> string \<Rightarrow> string \<Rightarrow> string \<Rightarrow> bool" where
  "datetime_ok y m d c h mi s \<longleftrightarrow>
     all_digits y \<and> length y = 4 \<and> part m \<and> part d \<and> (c = CHR '' '' \<or> c = CHR ''T'') \<and> clock_ok h mi s \<and>
     valid_date (int (decimal y)) (int (decimal m)) (int (decimal d))"

definition datetime :: "string \<Rightarrow> string \<Rightarrow> string \<Rightarrow> char \<Rightarrow> string \<Rightarrow> string \<Rightarrow> string \<Rightarrow> string" where
  "datetime y m d c h mi s = y @ ''-'' @ m @ ''-'' @ d @ [c] @ h @ '':'' @ mi @ '':'' @ s"

definition datetime_layout :: "string \<Rightarrow> string \<Rightarrow> string \<Rightarrow> char \<Rightarrow> string \<Rightarrow> string \<Rightarrow> string \<Rightarrow> string" where
  "datetime_layout y m d c h mi s = stamp_layout (length m) (length d) c (length h) (length mi) (length s)"

definition datetime_wall ::
  "zone_db \<Rightarrow> location option \<Rightarrow> string \<Rightarrow> string \<Rightarrow> string \<Rightarrow> string \<Rightarrow> string \<Rightarrow> string \<Rightarrow> gotime" where
  "datetime_wall Z loc y m d h mi s =
     wall Z loc (int (decimal y)) (int (decimal m)) (int (decimal d))
       (int (decimal h)) (int (decimal mi)) (int (decimal s))"

lemma datetime_detected:
  assumes "datetime_ok y m d c h mi s"
  shows "\<exists>q. detect U (datetime y m d c h mi s) loc opts = Return (datetime y m d c h mi s) (Some q) None \<and>
    plain_parser q (datetime_layout y m d c h mi s) (datetime y m d c h mi s) loc \<and> \<not> ambiguousMD q"
proof -
  have w: "all_digits y" "length y = 4" "part m" "part d" "c = CHR '' '' \<or> c = CHR ''T''" "clock_ok h mi s"
    using assms by (simp_all add: datetime_ok_def)
  from w(6) have "part h" "part mi" "part s" by (simp_all add: clock_ok_def)
  from detect_datetime [OF datetime_def w(1-4) this w(5), of U loc opts] show ?thesis
    by (auto simp: plain_parser_def datetime_layout_def)
qed

lemma datetime_parsed:
  assumes "datetime_ok y m d c h mi s"
  shows "time_parse Z (datetime_layout y m d c h mi s) (datetime y m d c h mi s) loc =
    Ok (datetime_wall Z loc y m d h mi s)"
proof -
  have w: "all_digits y" "length y = 4" "part m" "part d" "c = CHR '' '' \<or> c = CHR ''T''" "clock_ok h mi s"
    "valid_date (int (decimal y)) (int (decimal m)) (int (decimal d))"
    using assms by (simp_all add: datetime_ok_def)
  have sep: "separator c" using w(5) by (auto simp: separator_def)
  show ?thesis
    unfolding datetime_layout_def datetime_def datetime_wall_def
    by (rule time_parse_stamp [OF w(1-4) sep w(5-7)])
qed

text \<open>
  C7: for every valid date and time of the form \<open>yyyy-mm-dd hh:mm:ss\<close> (a year of four digits, one or
  two digits for each other part, a blank or a T in the middle) all the exported functions agree,
  whatever the options are: the time is the one that a clock of the given location shows, of the
  local zone for \<open>ParseDateLocal\<close> and UTC without a location; the strict parser does not object, and
  the layout is the one with the digits of the string.
\<close>

theorem ParseDate_datetime:
  assumes "datetime_ok y m d c h mi s"
  shows "ParseDateIn (go_time Z) U (datetime y m d c h mi s) loc opts = Ok (datetime_wall Z loc y m d h mi s) \<and>
    ParseDateLocal (go_time Z) U (datetime y m d c h mi s) opts = Ok (datetime_wall Z (Some Local) y m d h mi s) \<and>
    ParseDateAny (go_time Z) U (datetime y m d c h mi s) opts = Ok (datetime_wall Z None y m d h mi s) \<and>
    MustParse (go_time Z) U (datetime y m d c h mi s) opts = Ok (datetime_wall Z None y m d h mi s) \<and>
    ParseDataStrict (go_time Z) U (datetime y m d c h mi s) opts = Ok (datetime_wall Z None y m d h mi s) \<and>
    ParseDateFormat (go_time Z) U (datetime y m d c h mi s) opts = Ok (datetime_layout y m d c h mi s)"
proof -
  have any: "parse_any (go_time Z) U loc (datetime y m d c h mi s) opts = Ok (datetime_wall Z loc y m d h mi s)" for loc
  proof -
    obtain q where q: "detect U (datetime y m d c h mi s) loc opts = Return (datetime y m d c h mi s) (Some q) None"
      "plain_parser q (datetime_layout y m d c h mi s) (datetime y m d c h mi s) loc" "\<not> ambiguousMD q"
      using datetime_detected [OF assms, of U loc opts] by blast
    from parse_any_plain [OF q(1,2)] q(3) datetime_parsed [OF assms, of Z loc] show ?thesis by simp
  qed
  obtain q where q: "detect U (datetime y m d c h mi s) None opts = Return (datetime y m d c h mi s) (Some q) None"
    "plain_parser q (datetime_layout y m d c h mi s) (datetime y m d c h mi s) None" "\<not> ambiguousMD q"
    using datetime_detected [OF assms, of U None opts] by blast
  note parsed = datetime_parsed [OF assms, of Z None]
  have "ParseDataStrict (go_time Z) U (datetime y m d c h mi s) opts = Ok (datetime_wall Z None y m d h mi s)"
    using ParseDataStrict_plain [OF q(1,2)] q(3) parsed by simp
  moreover have "ParseDateFormat (go_time Z) U (datetime y m d c h mi s) opts = Ok (datetime_layout y m d c h mi s)"
    by (rule ParseDateFormat_plain [OF q(1,2)]) (use q(3) parsed in simp_all)
  ultimately show ?thesis
    by (simp add: ParseDateIn_def ParseDateLocal_def ParseDateAny_def MustParse_def any)
qed

theorem ParseDate_datetime_witness:
  "\<forall>Z U. ParseDateAny (go_time Z) U ''2014-04-26 17:24:37'' [] =
     Ok \<lparr>unix_sec = 1398533077, nsec = 0, zone = UTC\<rparr>"
proof (intro allI)
  fix Z U
  have "decimal ''2014'' = 2014" "decimal ''04'' = 4" "decimal ''26'' = 26" "decimal ''17'' = 17" "decimal ''24'' = 24"
    "decimal ''37'' = 37"
    by (simp_all add: char_of_eq_iff)
  moreover from this have "datetime_ok ''2014'' ''04'' ''26'' CHR '' '' ''17'' ''24'' ''37''"
    by (simp add: datetime_ok_def all_digits_def part_def clock_ok_def valid_date_def daysIn_def isLeap_def daysBefore_def)
  ultimately show "ParseDateAny (go_time Z) U ''2014-04-26 17:24:37'' [] =
      Ok \<lparr>unix_sec = 1398533077, nsec = 0, zone = UTC\<rparr>"
    using ParseDate_datetime [of "''2014''" "''04''" "''26''" "CHR '' ''" "''17''" "''24''" "''37''" Z U None "[]"]
    by (simp add: datetime_def datetime_wall_def unix_seconds_def days_since_epoch_def isLeap_def daysBefore_def)
qed

text \<open>
  C18: the layout that \<open>ParseDateFormat\<close> returns for such a string is a layout of \<open>time.Parse\<close> that
  reads the string back, to the same time as \<open>ParseDateAny\<close>; for two-digit parts it is
  \<open>2006-01-02 15:04:05\<close>.
\<close>

theorem ParseDateFormat_roundtrip:
  assumes "datetime_ok y m d c h mi s"
  shows "\<exists>layout. ParseDateFormat (go_time Z) U (datetime y m d c h mi s) opts = Ok layout \<and>
    time_parse Z layout (datetime y m d c h mi s) None = ParseDateAny (go_time Z) U (datetime y m d c h mi s) opts \<and>
    (length m = 2 \<longrightarrow> length d = 2 \<longrightarrow> length h = 2 \<longrightarrow> length mi = 2 \<longrightarrow> length s = 2 \<longrightarrow>
      layout = ''2006-01-02'' @ [c] @ ''15:04:05'')"
proof -
  obtain q where q: "detect U (datetime y m d c h mi s) None opts = Return (datetime y m d c h mi s) (Some q) None"
    "plain_parser q (datetime_layout y m d c h mi s) (datetime y m d c h mi s) None" "\<not> ambiguousMD q"
    using datetime_detected [OF assms, of U None opts] by blast
  note parsed = datetime_parsed [OF assms, of Z None]
  have "ParseDateFormat (go_time Z) U (datetime y m d c h mi s) opts = Ok (datetime_layout y m d c h mi s)"
    by (rule ParseDateFormat_plain [OF q(1,2)]) (use q(3) parsed in simp_all)
  moreover have "ParseDateAny (go_time Z) U (datetime y m d c h mi s) opts =
      time_parse Z (datetime_layout y m d c h mi s) (datetime y m d c h mi s) None"
    using parse_any_plain [OF q(1,2)] q(3) by (simp add: ParseDateAny_def)
  ultimately show ?thesis
    by (intro exI [of _ "datetime_layout y m d c h mi s"])
      (simp add: datetime_layout_def stamp_layout_def clock_layout_def mon_frag_def day_frag_def)
qed

theorem ParseDateFormat_roundtrip_witness:
  "\<forall>Z U. ParseDateFormat (go_time Z) U ''2013-02-01 00:00:00'' [] = Ok ''2006-01-02 15:04:05''"
proof (intro allI)
  fix Z U
  have "decimal ''2013'' = 2013" "decimal ''02'' = 2" "decimal ''01'' = 1" "decimal ''00'' = 0"
    by (simp_all add: char_of_eq_iff)
  then have "datetime_ok ''2013'' ''02'' ''01'' CHR '' '' ''00'' ''00'' ''00''"
    by (simp add: datetime_ok_def all_digits_def part_def clock_ok_def valid_date_def daysIn_def isLeap_def daysBefore_def)
  from ParseDateFormat_roundtrip [OF this, of Z U "[]"]
  show "ParseDateFormat (go_time Z) U ''2013-02-01 00:00:00'' [] = Ok ''2006-01-02 15:04:05''"
    by (auto simp: datetime_def)
qed

section \<open>Dates with slashes\<close>

text \<open>The strings \<open>a/b/y\<close>; \<open>slash_parts\<close> says which part is the month.\<close>

definition slashed :: "string \<Rightarrow> string \<Rightarrow> string \<Rightarrow> string" where
  "slashed a b y = a @ ''/'' @ b @ ''/'' @ y"

definition slash_ok :: "string \<Rightarrow> string \<Rightarrow> string \<Rightarrow> bool" where
  "slash_ok a b y \<longleftrightarrow> part a \<and> part b \<and> all_digits y \<and> (length y = 2 \<or> length y = 4)"

definition slashed_layout :: "bool \<Rightarrow> string \<Rightarrow> string \<Rightarrow> string \<Rightarrow> string" where
  "slashed_layout mf a b y = slash_layout mf (length a) (length b) (length y)"

text \<open>The time of the date, when it exists.\<close>

definition slash_wall :: "zone_db \<Rightarrow> location option \<Rightarrow> bool \<Rightarrow> string \<Rightarrow> string \<Rightarrow> string \<Rightarrow> gotime" where
  "slash_wall Z loc mf a b y =
     (case slash_parts mf a b of (m, d) \<Rightarrow> wall Z loc (full_year y) m d 0 0 0)"

definition slash_valid :: "bool \<Rightarrow> string \<Rightarrow> string \<Rightarrow> string \<Rightarrow> bool" where
  "slash_valid mf a b y = (case slash_parts mf a b of (m, d) \<Rightarrow> valid_date (full_year y) m d)"

lemma slash_detected:
  assumes "slash_ok a b y"
  shows "\<exists>q. detect U (slashed a b y) loc opts = Return (slashed a b y) (Some q) None \<and>
    plain_parser q (slashed_layout (prefers_month opts) a b y) (slashed a b y) loc \<and> ambiguousMD q \<and>
    preferMonthFirst q = prefers_month opts"
proof -
  have w: "part a" "part b" "all_digits y" "length y = 2 \<or> length y = 4"
    using assms by (simp_all add: slash_ok_def)
  from detect_slashes [OF slashed_def w, of U loc opts] show ?thesis
    by (auto simp: plain_parser_def slashed_layout_def)
qed

lemma slash_parsed:
  assumes "slash_ok a b y" "slash_valid mf a b y"
  shows "time_parse Z (slashed_layout mf a b y) (slashed a b y) loc = Ok (slash_wall Z loc mf a b y)"
proof -
  obtain m d where md: "slash_parts mf a b = (m, d)" by (cases "slash_parts mf a b")
  have w: "part a" "part b" "all_digits y" "length y = 2 \<or> length y = 4"
    using assms(1) by (simp_all add: slash_ok_def)
  have v: "valid_date (full_year y) m d" using assms(2) md by (simp add: slash_valid_def)
  show ?thesis
    unfolding slashed_layout_def slashed_def
    using time_parse_fields [OF parse_loop_slashes(1) [OF w md month_range_valid [OF v]] v]
    by (simp add: slash_wall_def md)
qed

lemma Contains_append: "Contains s w \<Longrightarrow> Contains (a @ s) w"
  by (induction a) simp_all

lemma slash_month_range:
  assumes "slash_ok a b y" "\<not> month_range (fst (slash_parts mf a b))"
  shows "\<exists>e. time_parse Z (slashed_layout mf a b y) (slashed a b y) loc = Err e \<and>
    Contains (error_text e) ''month out of range''"
proof -
  obtain m d where md: "slash_parts mf a b = (m, d)" by (cases "slash_parts mf a b")
  have w: "part a" "part b" "all_digits y" "length y = 2 \<or> length y = 4"
    using assms(1) by (simp_all add: slash_ok_def)
  let ?f = "slash_layout mf (length a) (length b) (length y)" and ?s = "a @ ''/'' @ b @ ''/'' @ y"
  have "\<not> month_range m" using assms(2) md by simp
  from parse_loop_slashes(2) [OF w md this, of ?f ?s] obtain l x where
    "parse_loop ?f ?s ?f ?s no_fields = Err (TimeParseError ?f ?s l x '': month out of range'')" by blast
  from time_parse_month_range [OF this, of Z loc]
  have err: "time_parse Z (slashed_layout mf a b y) (slashed a b y) loc = Err (TimeParseError ?f ?s l x '': month out of range'')"
    by (simp add: slashed_layout_def slashed_def)
  have "Contains ((''parsing time '' @ quote ?s) @ '': month out of range'') ''month out of range''"
    by (rule Contains_append) simp
  then have "Contains (error_text (TimeParseError ?f ?s l x '': month out of range'')) ''month out of range''"
    by simp
  with err show ?thesis by blast
qed

text \<open>
  C19: a date with slashes is read with the month first, or with the day first under
  \<open>PreferMonthFirst(false)\<close>; when it exists in that order the result is its midnight in UTC. The
  strict parser refuses every such date, also one that only one order can read.
\<close>

theorem ParseDate_slashes:
  assumes "slash_ok a b y" "slash_valid (prefers_month opts) a b y"
    and "RetryAmbiguousDateWithSwap True \<notin> set opts"
  shows "ParseDateAny (go_time Z) U (slashed a b y) opts = Ok (slash_wall Z None (prefers_month opts) a b y) \<and>
    ParseDataStrict (go_time Z) U (slashed a b y) opts = Err ErrAmbiguousMMDD"
proof -
  obtain q where q: "detect U (slashed a b y) None opts = Return (slashed a b y) (Some q) None"
    "plain_parser q (slashed_layout (prefers_month opts) a b y) (slashed a b y) None" "ambiguousMD q"
    using slash_detected [OF assms(1), of U None opts] by blast
  note no = disjI2 [OF no_retry [OF assms(3)]]
  show ?thesis
    using parse_any_plain [OF q(1,2) no, of "go_time Z"] ParseDataStrict_plain [OF q(1,2) no, of "go_time Z"] q(3)
      slash_parsed [OF assms(1,2), of Z None]
    by (simp add: ParseDateAny_def)
qed

theorem ParseDate_slashes_witness:
  "\<forall>Z U. ParseDateAny (go_time Z) U ''3/1/2014'' [] = Ok \<lparr>unix_sec = 1393632000, nsec = 0, zone = UTC\<rparr> \<and>
     ParseDateAny (go_time Z) U ''3/1/2014'' [PreferMonthFirst False] =
       Ok \<lparr>unix_sec = 1388707200, nsec = 0, zone = UTC\<rparr>"
proof (intro allI)
  fix Z U
  have n: "decimal ''3'' = 3" "decimal ''1'' = 1" "decimal ''2014'' = 2014" by (simp_all add: char_of_eq_iff)
  have ok: "slash_ok ''3'' ''1'' ''2014''" by (simp add: slash_ok_def part_def all_digits_def)
  have d: "\<not> prefers_month [PreferMonthFirst False]" by (simp add: prefers_month_def newParser_def)
  note defs = slash_valid_def slash_wall_def slash_parts_def full_year_def valid_date_def daysIn_def isLeap_def
    daysBefore_def unix_seconds_def days_since_epoch_def slashed_def
  show "ParseDateAny (go_time Z) U ''3/1/2014'' [] = Ok \<lparr>unix_sec = 1393632000, nsec = 0, zone = UTC\<rparr> \<and>
     ParseDateAny (go_time Z) U ''3/1/2014'' [PreferMonthFirst False] =
       Ok \<lparr>unix_sec = 1388707200, nsec = 0, zone = UTC\<rparr>"
    using ParseDate_slashes [OF ok, of "[]" Z U] ParseDate_slashes [OF ok, of "[PreferMonthFirst False]" Z U] d
    by (simp add: defs n)
qed

text \<open>
  C25: with the retry option a date whose month is out of range is read with month and day
  swapped, but in the local time zone: the deferred closure passes \<open>time.Local\<close>, whereas the
  same date with the right preference is read in UTC.
\<close>

theorem retry_swaps_in_local:
  assumes "slash_ok a b y" "\<not> month_range (fst (slash_parts (prefers_month opts) a b))"
    and "slash_valid (\<not> prefers_month opts) a b y" "wants_retry opts"
  shows "ParseDateAny (go_time Z) U (slashed a b y) opts =
      Ok (slash_wall Z (Some Local) (\<not> prefers_month opts) a b y) \<and>
    ParseDateAny (go_time Z) U (slashed a b y) [PreferMonthFirst (\<not> prefers_month opts)] =
      Ok (slash_wall Z None (\<not> prefers_month opts) a b y)"
proof
  let ?s = "slashed a b y" and ?mf = "prefers_month opts"
  obtain q where q: "detect U ?s None opts = Return ?s (Some q) None"
    "plain_parser q (slashed_layout ?mf a b y) ?s None" "ambiguousMD q" "preferMonthFirst q = ?mf"
    using slash_detected [OF assms(1), of U None opts] by blast
  have pref: "prefers_month (retry_opts opts q) \<longleftrightarrow> \<not> ?mf"
    by (simp add: prefers_month_def retry_opts_def newParser_def q(4))
  obtain q' where q': "detect U ?s (Some Local) (retry_opts opts q) = Return ?s (Some q') None"
    "plain_parser q' (slashed_layout (\<not> ?mf) a b y) ?s (Some Local)"
    using slash_detected [OF assms(1), of U "Some Local" "retry_opts opts q"] pref by auto
  obtain e where e: "time_parse Z (slashed_layout ?mf a b y) ?s None = Err e"
    "Contains (error_text e) ''month out of range''"
    using slash_month_range [OF assms(1,2)] by blast
  have again: "parseTime (go_time Z) U ?s (Some Local) (retry_opts opts q) = Ok (Some q', None)"
    by (rule parseTime_clear [OF q'(1)]) simp
  have "parseTime (go_time Z) U ?s None opts = Ok (Some q', None)"
    by (subst parseTime.simps)
      (simp add: q(1,3) assms(4) parse_plain [OF q(2)] e(1) again, simp add: go_time_def e(2))
  then show "ParseDateAny (go_time Z) U ?s opts = Ok (slash_wall Z (Some Local) (\<not> ?mf) a b y)"
    by (simp add: ParseDateAny_def parse_any_def parse_ptr_def parse_plain [OF q'(2)] slash_parsed [OF assms(1,3)])
  obtain r where r: "detect U ?s None [PreferMonthFirst (\<not> ?mf)] = Return ?s (Some r) None"
    "plain_parser r (slashed_layout (prefers_month [PreferMonthFirst (\<not> ?mf)]) a b y) ?s None"
    using slash_detected [OF assms(1), of U None "[PreferMonthFirst (\<not> ?mf)]"] by blast
  have "prefers_month [PreferMonthFirst (\<not> ?mf)] \<longleftrightarrow> \<not> ?mf" by (simp add: prefers_month_def newParser_def)
  with parse_any_plain [OF r disjI2 [OF no_retry], of "go_time Z"] slash_parsed [OF assms(1,3), of Z None]
  show "ParseDateAny (go_time Z) U ?s [PreferMonthFirst (\<not> ?mf)] = Ok (slash_wall Z None (\<not> ?mf) a b y)"
    by (simp add: ParseDateAny_def)
qed

theorem retry_swaps_in_local_witness:
  "\<forall>Z U. ParseDateAny (go_time Z) U ''31/12/2014'' [RetryAmbiguousDateWithSwap True] =
     Ok (date_in Z 1419984000 0 Local)"
proof (intro allI)
  fix Z U
  have n: "decimal ''31'' = 31" "decimal ''12'' = 12" "decimal ''2014'' = 2014" by (simp_all add: char_of_eq_iff)
  have ok: "slash_ok ''31'' ''12'' ''2014''" by (simp add: slash_ok_def part_def all_digits_def)
  have o: "prefers_month [RetryAmbiguousDateWithSwap True]" "wants_retry [RetryAmbiguousDateWithSwap True]"
    by (simp_all add: prefers_month_def wants_retry_def newParser_def)
  show "ParseDateAny (go_time Z) U ''31/12/2014'' [RetryAmbiguousDateWithSwap True] =
     Ok (date_in Z 1419984000 0 Local)"
    using retry_swaps_in_local [OF ok, of "[RetryAmbiguousDateWithSwap True]" Z U] o
    by (simp add: slash_valid_def slash_wall_def slash_parts_def full_year_def valid_date_def daysIn_def isLeap_def
        daysBefore_def unix_seconds_def days_since_epoch_def slashed_def wall_def month_range_def n)
qed

end
