(* ===== verification/OffsetResults.thy ===== *)
theory OffsetResults
  imports DateResults
begin

text \<open>
  What \<open>CalculateOffset\<close> returns for the absolute forms of a fake time: a date and time, a Unix
  timestamp, a plain number; and that it never panics.
\<close>

section \<open>Instants\<close>

text \<open>The nanoseconds since 1970.\<close>

definition unix_ns :: "gotime \<Rightarrow> int" where
  "unix_ns t = unix_sec t * 1000000000 + nsec t"

lemma Sub_unix_ns:
  "Sub t u =
     (if unix_ns t - unix_ns u < min_duration then min_duration
      else if max_duration < unix_ns t - unix_ns u then max_duration
      else unix_ns t - unix_ns u)"
  by (simp add: Sub_def unix_ns_def Let_def algebra_simps)

lemma Sub_exact:
  "min_duration \<le> unix_ns t - unix_ns u \<Longrightarrow> unix_ns t - unix_ns u \<le> max_duration \<Longrightarrow>
     Sub t u = unix_ns t - unix_ns u"
  by (simp add: Sub_unix_ns)

section \<open>Timestamps\<close>

lemma unix_ns_Unix: "unix_ns (Unix sec ns) = sec * 1000000000 + ns" "nsec (Unix sec ns) = ns mod 1000000000"
  using mult_div_mod_eq [of 1000000000 ns] by (simp_all add: unix_ns_def Unix_def algebra_simps)

text \<open>The nanoseconds a string of digits stands for.\<close>

definition stamp_ns :: "string \<Rightarrow> int" where
  "stamp_ns s =
     (if length s = 10 then int (decimal s) * 1000000000 else int (decimal s) * 10 ^ (19 - length s))"

lemma unix_ns_stamp:
  assumes "length s \<in> {10, 13, 16, 19}" "decimal s < 2 ^ 63"
  shows "unix_ns (stamp_time s) = (if length s = 10 then stamp_ns s else int64 (stamp_ns s))"
proof -
  have "int64 (int (decimal s)) = int (decimal s)" by (rule int64_id) (use assms(2) in simp_all)
  then show ?thesis
    using assms(1) by (auto simp: stamp_time_def stamp_ns_def unix_ns_Unix)
qed

text \<open>
  C20: a number of 10, 13, 16 or 19 digits is a timestamp in seconds, milliseconds, microseconds or
  nanoseconds since 1970; the nanoseconds are computed in an \<open>int64\<close>, so from the year 2262 on
  a timestamp in milliseconds or microseconds lands before 1970.
\<close>

theorem ParseDate_timestamp:
  assumes "all_digits s" "decimal s < 2 ^ 63" "length s \<in> {10, 13, 16, 19}"
    and "RetryAmbiguousDateWithSwap True \<notin> set opts"
  shows "\<exists>t. ParseDateAny L U s opts = Ok t \<and>
    (length s = 10 \<or> stamp_ns s < 2 ^ 63 \<longrightarrow> unix_ns t = stamp_ns s) \<and>
    (length s \<noteq> 10 \<and> 2 ^ 63 \<le> stamp_ns s \<longrightarrow> unix_ns t = stamp_ns s - 2 ^ 64 \<and> unix_ns t < 0)"
proof (intro exI conjI impI)
  show "ParseDateAny L U s opts = Ok (stamp_time s)"
    using parse_any_stamp [OF assms(1-3) no_retry [OF assms(4)], of L U None] by (simp add: ParseDateAny_def)
  have "0 \<le> stamp_ns s" by (simp add: stamp_ns_def)
  then have id: "int64 (stamp_ns s) = stamp_ns s" if "stamp_ns s < 2 ^ 63"
    by (intro int64_id) (use that in simp_all)
  show "unix_ns (stamp_time s) = stamp_ns s" if "length s = 10 \<or> stamp_ns s < 2 ^ 63"
    using that unix_ns_stamp [OF assms(3,2)] id by auto
  assume over: "length s \<noteq> 10 \<and> 2 ^ 63 \<le> stamp_ns s"
  have "decimal s < 10 ^ length s" using decimal_less [OF assms(1)] .
  then have "int (decimal s) < 10 ^ length s" by (metis of_nat_less_iff of_nat_numeral of_nat_power)
  then have "stamp_ns s < 10 ^ 19" using over assms(3) by (auto simp: stamp_ns_def)
  then have w: "int64 (stamp_ns s) = stamp_ns s - 2 ^ 64"
    using over by (intro int64_above) simp_all
  show "unix_ns (stamp_time s) = stamp_ns s - 2 ^ 64" using unix_ns_stamp [OF assms(3,2)] over w by simp
  then show "unix_ns (stamp_time s) < 0" using \<open>stamp_ns s < 10 ^ 19\<close> by simp
qed

theorem ParseDate_timestamp_witness:
  "\<forall>L U. (\<exists>t. ParseDateAny L U ''1332151919'' [] = Ok t \<and> unix_ns t = 1332151919000000000) \<and>
     (\<exists>t. ParseDateAny L U ''9999999999999'' [] = Ok t \<and> unix_ns t = - 8446744073710551616)"
proof (intro allI conjI)
  fix L U
  have n: "decimal ''1332151919'' = 1332151919" "decimal ''9999999999999'' = 9999999999999"
    by (simp_all add: char_of_eq_iff)
  show "\<exists>t. ParseDateAny L U ''1332151919'' [] = Ok t \<and> unix_ns t = 1332151919000000000"
    using ParseDate_timestamp [of "''1332151919''" "[]" L U] n by (simp add: all_digits_def stamp_ns_def)
  have "\<exists>t. ParseDateAny L U ''9999999999999'' [] = Ok t \<and>
      unix_ns t = stamp_ns ''9999999999999'' - 2 ^ 64"
    using ParseDate_timestamp [of "''9999999999999''" "[]" L U] n by (auto simp: all_digits_def stamp_ns_def)
  then show "\<exists>t. ParseDateAny L U ''9999999999999'' [] = Ok t \<and> unix_ns t = - 8446744073710551616"
    by (simp add: stamp_ns_def n)
qed

section \<open>Absolute fake times\<close>

lemma not_special:
  "2 \<le> length s \<Longrightarrow> s \<noteq> ''null'' \<Longrightarrow> \<not> (s = [] \<or> s = ''0'' \<or> s = ''null'')"
  by auto

lemma CalculateOffset_date:
  assumes "ParseDateAny L U s [] = Ok t" "2 \<le> length s" "s \<noteq> ''null''"
  shows "CalculateOffset L U now1 now2 s = Ok (if nsec now1 < nsec t then Sub now2 t else Sub t now2)"
  using assms not_special [OF assms(2,3)] by (simp add: CalculateOffset_def)

lemma datetime_head:
  assumes "datetime_ok y m d c h mi s"
  shows "2 \<le> length (datetime y m d c h mi s)" "datetime y m d c h mi s \<noteq> ''null''"
proof -
  obtain x z where y: "y = x # z" "digit x"
    using assms by (cases y) (auto simp: datetime_ok_def all_digits_def)
  then have "x \<noteq> CHR ''n''" by auto
  then show "datetime y m d c h mi s \<noteq> ''null''" by (simp add: datetime_def y(1))
  show "2 \<le> length (datetime y m d c h mi s)" by (simp add: datetime_def)
qed

text \<open>
  C8: for a documented date and time the offset is exactly what has to be added to the clock for
  it to show that time, as long as the two are less than 292 years apart.
\<close>

theorem CalculateOffset_datetime:
  assumes "datetime_ok y m d c h mi s" "0 \<le> nsec now1"
    and "\<bar>unix_ns (datetime_wall Z None y m d h mi s) - unix_ns now2\<bar> < 2 ^ 63"
  shows "\<exists>offset. CalculateOffset (go_time Z) U now1 now2 (datetime y m d c h mi s) = Ok offset \<and>
    unix_ns now2 + offset = unix_ns (datetime_wall Z None y m d h mi s)"
proof -
  let ?t = "datetime_wall Z None y m d h mi s" and ?s = "datetime y m d c h mi s"
  obtain q where q: "detect U ?s None [] = Return ?s (Some q) None"
    "plain_parser q (datetime_layout y m d c h mi s) ?s None" "\<not> ambiguousMD q"
    using datetime_detected [OF assms(1), of U None "[]"] by blast
  have "ParseDateAny (go_time Z) U ?s [] = Ok ?t"
    using parse_any_plain [OF q(1,2), of "go_time Z"] q(3) datetime_parsed [OF assms(1), of Z None]
    by (simp add: ParseDateAny_def)
  moreover have "\<not> nsec now1 < nsec ?t" using assms(2) by (simp add: datetime_wall_def)
  moreover have "Sub ?t now2 = unix_ns ?t - unix_ns now2"
    by (rule Sub_exact) (use assms(3) in \<open>auto simp: min_duration_def max_duration_def\<close>)
  ultimately show ?thesis
    using CalculateOffset_date [OF _ datetime_head [OF assms(1)], of "go_time Z" U ?t now1 now2] by simp
qed

theorem CalculateOffset_datetime_witness:
  "\<forall>Z U. \<exists>offset. CalculateOffset (go_time Z) U (Unix 1398533000 5) (Unix 1398533000 5) ''2014-04-26 17:24:37'' =
     Ok offset \<and> offset = 76999999995"
proof (intro allI)
  fix Z U
  have n: "decimal ''2014'' = 2014" "decimal ''04'' = 4" "decimal ''26'' = 26" "decimal ''17'' = 17" "decimal ''24'' = 24"
    "decimal ''37'' = 37"
    by (simp_all add: char_of_eq_iff)
  then have ok: "datetime_ok ''2014'' ''04'' ''26'' CHR '' '' ''17'' ''24'' ''37''"
    by (simp add: datetime_ok_def all_digits_def part_def clock_ok_def valid_date_def daysIn_def isLeap_def daysBefore_def)
  have t: "unix_ns (datetime_wall Z None ''2014'' ''04'' ''26'' ''17'' ''24'' ''37'') = 1398533077000000000"
    by (simp add: unix_ns_def datetime_wall_def unix_seconds_def days_since_epoch_def isLeap_def daysBefore_def n)
  show "\<exists>offset. CalculateOffset (go_time Z) U (Unix 1398533000 5) (Unix 1398533000 5) ''2014-04-26 17:24:37'' =
     Ok offset \<and> offset = 76999999995"
    using CalculateOffset_datetime [OF ok, of "Unix 1398533000 5" Z "Unix 1398533000 5" U]
    by (simp add: t unix_ns_Unix datetime_def)
qed

lemma special_digits: "all_digits s \<Longrightarrow> s \<noteq> ''null''"
  by (auto simp: all_digits_def)

text \<open>
  C24: the sign is taken from the nanosecond parts of the two times alone. A timestamp in
  nanoseconds whose last nine digits exceed those of the clock gives the offset with the wrong
  sign: a time in the future moves the clock into the past by the same amount.
\<close>

theorem CalculateOffset_nanoseconds_sign:
  assumes "all_digits s" "length s = 19" "decimal s < 2 ^ 63"
    and "nsec now1 < int (decimal s) mod 1000000000"
    and "unix_ns now2 < int (decimal s)" "int (decimal s) - unix_ns now2 < 2 ^ 63"
  shows "\<exists>offset. CalculateOffset L U now1 now2 s = Ok offset \<and> offset < 0 \<and>
    unix_ns now2 - offset = int (decimal s)"
proof -
  let ?t = "Unix 0 (int (decimal s))"
  have t: "stamp_time s = ?t" using assms(2) by (simp add: stamp_time_def)
  have "ParseDateAny L U s [] = Ok ?t"
    using parse_any_stamp [OF assms(1,3), of "[]" L U None] assms(2) t by (simp add: ParseDateAny_def)
  moreover have "Sub now2 ?t = unix_ns now2 - int (decimal s)"
    using Sub_exact [of now2 ?t] assms(5,6) by (simp add: unix_ns_Unix min_duration_def max_duration_def)
  moreover have "nsec ?t = int (decimal s) mod 1000000000" by (simp add: unix_ns_Unix)
  ultimately show ?thesis
    using CalculateOffset_date [OF _ _ special_digits [OF assms(1)], of L U ?t now1 now2] assms(2,4,5) by simp
qed

theorem CalculateOffset_nanoseconds_sign_witness:
  "\<forall>L U. CalculateOffset L U (Unix 1499979655 0) (Unix 1499979655 0) ''1499979656583057426'' = Ok (- 1583057426)"
proof (intro allI)
  fix L U
  have n: "decimal ''1499979656583057426'' = 1499979656583057426" by (simp add: char_of_eq_iff)
  show "CalculateOffset L U (Unix 1499979655 0) (Unix 1499979655 0) ''1499979656583057426'' = Ok (- 1583057426)"
    using CalculateOffset_nanoseconds_sign [of "''1499979656583057426''" "Unix 1499979655 0" "Unix 1499979655 0" L U]
    by (simp add: n all_digits_def unix_ns_Unix) (auto simp: algebra_simps)
qed

section \<open>Plain numbers\<close>

lemma detect_plain_year:
  assumes "all_digits s" "length s = 4"
  shows "\<exists>q. detect U s loc opts = Return s (Some q) None \<and> plain_parser q ''2006'' s loc \<and> \<not> ambiguousMD q"
proof -
  have "s \<noteq> []" using assms(2) by auto
  from detect_digits [OF assms(1) this, of U loc opts] assms(2) show ?thesis
    by (simp add: end_digit_def Let_def plain_parser_def)
qed

lemma time_parse_year:
  assumes "all_digits s" "length s = 4"
  shows "time_parse Z ''2006'' s loc = Ok (wall Z loc (int (decimal s)) 1 1 0 0 0)"
proof -
  have "parse_loop ''2006'' s ''2006'' s no_fields = Ok (no_fields\<lparr>f_year := int (decimal s)\<rparr>)"
    using leading_year [OF assms, of "''2006''" s "[]" "[]" no_fields] by (simp add: read_end)
  then show ?thesis
    by (simp add: time_parse_def parse_in_def month_day_def no_fields_def daysIn_def daysBefore_def fix_hour_def
        locate_def wall_def split: option.split)
qed

text \<open>
  A number of four digits is taken for a year: \<open>3600\<close> is the offset to New Year of the year
  3600, not an hour.
\<close>

theorem CalculateOffset_four_digits:
  assumes "all_digits s" "length s = 4" "0 \<le> nsec now1"
  shows "CalculateOffset (go_time Z) U now1 now2 s =
    Ok (Sub \<lparr>unix_sec = unix_seconds (int (decimal s)) 1 1 0 0 0, nsec = 0, zone = UTC\<rparr> now2)"
proof -
  obtain q where q: "detect U s None [] = Return s (Some q) None" "plain_parser q ''2006'' s None" "\<not> ambiguousMD q"
    using detect_plain_year [OF assms(1,2), of U None "[]"] by blast
  have "ParseDateAny (go_time Z) U s [] = Ok (wall Z None (int (decimal s)) 1 1 0 0 0)"
    using parse_any_plain [OF q(1,2), of "go_time Z"] q(3) time_parse_year [OF assms(1,2), of Z None]
    by (simp add: ParseDateAny_def)
  with CalculateOffset_date [OF this, of now1 now2] special_digits [OF assms(1)] assms(2,3) show ?thesis by simp
qed

theorem CalculateOffset_four_digits_witness:
  "\<forall>Z U. CalculateOffset (go_time Z) U (Unix 1700000000 0) (Unix 1700000000 0) ''3600'' = Ok max_duration"
proof (intro allI)
  fix Z U
  have n: "decimal ''3600'' = 3600" by (simp add: char_of_eq_iff)
  show "CalculateOffset (go_time Z) U (Unix 1700000000 0) (Unix 1700000000 0) ''3600'' = Ok max_duration"
    using CalculateOffset_four_digits [of "''3600''" "Unix 1700000000 0" Z U "Unix 1700000000 0"]
    by (simp add: n all_digits_def unix_ns_Unix Sub_unix_ns unix_ns_def [of "\<lparr>unix_sec = _, nsec = _, zone = _\<rparr>"]
        unix_seconds_def days_since_epoch_def isLeap_def daysBefore_def max_duration_def min_duration_def)
qed

lemma digits_unit:
  assumes "digit c"
  shows "unit_offset c v = int64 (v * Second)"
  using assms by (auto simp: unit_offset_def)

lemma relative_digits:
  assumes "all_digits s" "s \<noteq> []" "decimal s < 2 ^ 63"
  shows "relative_offset U s = Ok (int64 (int (decimal s) * Second))"
proof -
  have "\<forall>c \<in> set s. digit c" using assms(1) by (simp add: all_digits_def)
  then have lower: "ToLower U s = s" by (intro ToLower_id) auto
  have last: "byte_at s (int (length s) - 1) = Ok (last s)"
    using assms(2) by (cases s rule: rev_cases) (simp_all add: byte_at_def nth_append)
  have "digit (last s)" using assms(1,2) by (simp add: all_digits_def)
  then show ?thesis
    using ParseInt_digits [OF assms]
    by (simp add: relative_offset_def lower last parse_value_def Atoi_def digits_unit)
qed

text \<open>
  C35: any other number of digits than those of a year, a date or a timestamp counts seconds.
\<close>

theorem CalculateOffset_number:
  assumes "all_digits s" "s \<noteq> []" "decimal s < 2 ^ 63" "length s \<notin> {4, 8, 10, 13, 14, 16, 19}"
  shows "CalculateOffset L U now1 now2 s = Ok (int64 (int (decimal s) * 1000000000))"
proof (cases "s = ''0''")
  case True
  have "decimal ''0'' = 0" by (simp add: char_of_eq_iff)
  then show ?thesis by (simp add: CalculateOffset_def True int64_def)
next
  case False
  have "unix_time s = zero_time" using assms(4) by (simp add: unix_time_def Let_def split: res.split)
  then have "IsZero (unix_time s)" by (simp add: IsZero_def zero_time_def)
  then obtain e where "detect U s None [] = Return s None (Some e)"
    using assms(4) by (cases "length s < 4") (auto simp: detect_digits [OF assms(1,2)] end_digit_def Let_def)
  then have "ParseDateAny L U s [] = Err e"
    by (simp add: ParseDateAny_def parse_any_def parseTime.simps [of L U s None "[]"])
  then show ?thesis
    using False assms(2) special_digits [OF assms(1)] relative_digits [OF assms(1-3), of U]
    by (simp add: CalculateOffset_def)
qed

theorem CalculateOffset_number_witness:
  "\<forall>L U now1 now2. CalculateOffset L U now1 now2 ''86400'' = Ok 86400000000000"
proof (intro allI)
  fix L U now1 now2
  have n: "decimal ''86400'' = 86400" by (simp add: char_of_eq_iff)
  have "int64 86400000000000 = 86400000000000" by (rule int64_id) simp_all
  then show "CalculateOffset L U now1 now2 ''86400'' = Ok 86400000000000"
    using CalculateOffset_number [of "''86400''" L U now1 now2] by (simp add: n all_digits_def)
qed

section \<open>No panic\<close>

text \<open>
  C29: \<open>CalculateOffset\<close> returns a value or an error on every string, also where it takes the last
  byte and the rest of the string apart.
\<close>

theorem CalculateOffset_no_panic:
  assumes "lib_total L"
  shows "CalculateOffset L U now1 now2 s \<noteq> Panic"
proof -
  have "ParseDateAny L U s [] \<noteq> Panic"
    using parsed_no_panic(1) [OF assms parseTime_ready [OF wants_retry_Nil]] by (simp add: ParseDateAny_def)
  moreover have "relative_offset U s \<noteq> Panic" if "s \<noteq> []"
  proof -
    have ne: "0 < length (ToLower U s)" using that by simp
    then have "parse_value (ToLower U s) \<noteq> Panic"
      by (simp add: parse_value_def substr_def map_err_Panic_iff split: res.split)
    moreover have "byte_at (ToLower U s) (int (length (ToLower U s)) - 1) \<noteq> Panic"
      using ne by (simp add: byte_at_def)
    ultimately show ?thesis by (simp add: relative_offset_def Let_def res_bind_Panic_iff)
  qed
  ultimately show ?thesis by (auto simp: CalculateOffset_def split: res.split)
qed

theorem CalculateOffset_no_panic_witness:
  "\<forall>Z U now1 now2 s. CalculateOffset (go_time Z) U now1 now2 s \<noteq> Panic"
  using CalculateOffset_no_panic [OF go_time_total] by blast

end
