(* ===== verification/ProcTree.thy ===== *)
theory ProcTree
  imports GoStrings "HOL-Library.Multiset"
begin

text \<open>
  \<open>cmd/watchmaker.go\<close>, second part: the children of a process, read from \<open>/proc\<close>. The process file
  system is a parameter; \<open>fmt.Fscanf\<close> with the format of the code is modelled.
\<close>

section \<open>fmt.Fscanf with the format \<open>%d %s %s %d\<close>\<close>

text \<open>The white space of package \<open>fmt\<close>.\<close>

definition is_space :: "nat \<Rightarrow> bool" where
  "is_space r \<longleftrightarrow>
     9 \<le> r \<and> r \<le> 13 \<or> r \<in> {0x20, 0x85, 0xA0, 0x1680, 0x2028, 0x2029, 0x202F, 0x205F, 0x3000} \<or>
     0x2000 \<le> r \<and> r \<le> 0x200A"

text \<open>\<open>SkipSpace\<close>: a newline is an error.\<close>

fun SkipSpace :: "nat list \<Rightarrow> nat list option" where
  "SkipSpace [] = Some []"
| "SkipSpace (r # rs) =
     (if r = 10 then None else if is_space r then SkipSpace rs else Some (r # rs))"

text \<open>A blank of the format: at least one white space, but no newline, or the end of the input.\<close>

definition format_blank :: "nat list \<Rightarrow> nat list option" where
  "format_blank rs =
     (case rs of
        [] \<Rightarrow> Some []
      | r # rest \<Rightarrow>
          if \<not> is_space r \<or> r = 10 then None else Some (dropWhile (\<lambda>x. is_space x \<and> x \<noteq> 10) rest))"

definition rune_digit :: "nat \<Rightarrow> bool" where
  "rune_digit r \<longleftrightarrow> 48 \<le> r \<and> r \<le> 57"

text \<open>\<open>%d\<close> into a \<open>uint64\<close>.\<close>

definition scan_uint :: "nat list \<Rightarrow> (u64 \<times> nat list) option" where
  "scan_uint rs =
     (case SkipSpace rs of
        None \<Rightarrow> None
      | Some rs \<Rightarrow>
          if takeWhile rune_digit rs = [] then None
          else
            (case ParseUint (map char_of (takeWhile rune_digit rs)) 10 64 of
               Ok n \<Rightarrow> Some (of_nat n, dropWhile rune_digit rs)
             | _ \<Rightarrow> None))"

text \<open>\<open>%s\<close>: the next word; the code does not use it.\<close>

definition scan_word :: "nat list \<Rightarrow> nat list option" where
  "scan_word rs =
     (case SkipSpace rs of
        None \<Rightarrow> None
      | Some rs \<Rightarrow> if rs = [] then None else Some (dropWhile (\<lambda>r. \<not> is_space r) rs))"

text \<open>The numbers scanned into \<open>_pid\<close> and \<open>ppid\<close>, when \<open>Fscanf\<close> returns no error.\<close>

definition scan_stat :: "string \<Rightarrow> (u64 \<times> u64) option" where
  "scan_stat content =
     Option.bind (scan_uint (runes content)) (\<lambda>(p, rs).
     Option.bind (Option.bind (format_blank rs) scan_word) (\<lambda>rs.
     Option.bind (Option.bind (format_blank rs) scan_word) (\<lambda>rs.
     Option.bind (Option.bind (format_blank rs) scan_uint) (\<lambda>(pp, _).
       Some (p, pp)))))"

section \<open>The map of children\<close>

text \<open>\<open>os.ReadDir("/proc")\<close>, and opening and reading \<open>/proc/<name>/stat\<close>.\<close>

record proc_fs =
  ReadProcDir :: "string list res"
  OpenStat :: "string \<Rightarrow> string option"

text \<open>A missing key of the map is the empty slice.\<close>

type_synonym pid_map = "u64 \<Rightarrow> u64 list"

definition processStat :: "proc_fs \<Rightarrow> string \<Rightarrow> pid_map \<Rightarrow> pid_map" where
  "processStat P name pidMap =
     (case ParseUint name 10 64 of
        Ok _ \<Rightarrow>
          (case OpenStat P name of
             None \<Rightarrow> pidMap
           | Some content \<Rightarrow>
               (case scan_stat content of
                  None \<Rightarrow> pidMap
                | Some (p, ppid) \<Rightarrow> pidMap(ppid := pidMap ppid @ [p])))
      | _ \<Rightarrow> pidMap)"

text \<open>
  Every goroutine changes the map once, with the mutex held: they act one after the other, in the
  order \<open>sched\<close> makes of the names.
\<close>

definition scan_procs :: "proc_fs \<Rightarrow> string list \<Rightarrow> pid_map" where
  "scan_procs P names = fold (processStat P) names (\<lambda>_. [])"

text \<open>
  The recursion of \<open>collectAllChildren\<close> and the loop in it are one function, on the children that
  the loop has still to visit. It may not return: \<open>None\<close>. (A Go program whose recursion does not end
  dies when its stack reaches the limit of the runtime; the limit is not modelled.)
\<close>

partial_function (option) collect_loop :: "pid_map \<Rightarrow> u64 list \<Rightarrow> u64 list option" where
  "collect_loop pidMap children =
     (case children of
        [] \<Rightarrow> Some []
      | child # rest \<Rightarrow>
          Option.bind (collect_loop pidMap (pidMap child)) (\<lambda>below.
          Option.bind (collect_loop pidMap rest) (\<lambda>others.
            Some (child # below @ others))))"

definition collectAllChildren :: "u64 \<Rightarrow> pid_map \<Rightarrow> u64 list option" where
  "collectAllChildren ppid pidMap = collect_loop pidMap (pidMap ppid)"

definition getChildProcesses :: "proc_fs \<Rightarrow> (string list \<Rightarrow> string list) \<Rightarrow> u64 \<Rightarrow> u64 list res option" where
  "getChildProcesses P sched ppid =
     (case ReadProcDir P of
        Ok procs \<Rightarrow> map_option Ok (collectAllChildren ppid (scan_procs P (sched procs)))
      | Err e \<Rightarrow> Some (Err (Errorf ''%T read /proc/pid/tasks , ppid : %d'' []))
      | Panic \<Rightarrow> Some Panic)"

section \<open>Descendants\<close>

definition child_rel :: "pid_map \<Rightarrow> (u64 \<times> u64) set" where
  "child_rel m = {(c, p). c \<in> set (m p)}"

text \<open>No process below \<open>p\<close>, or \<open>p\<close> itself, is its own descendant.\<close>

definition no_cycle_below :: "pid_map \<Rightarrow> u64 \<Rightarrow> bool" where
  "no_cycle_below m p \<longleftrightarrow> \<not> (\<exists>q. (q, p) \<in> (child_rel m)\<^sup>* \<and> (q, q) \<in> (child_rel m)\<^sup>+)"

lemma collect_loop_simps [simp]:
  "collect_loop m [] = Some []"
  "collect_loop m (c # cs) =
     Option.bind (collect_loop m (m c)) (\<lambda>below.
     Option.bind (collect_loop m cs) (\<lambda>others. Some (c # below @ others)))"
  by (subst collect_loop.simps, simp)+


lemma collect_loop_acc:
  assumes "collect_loop m cs = Some xs"
  shows "\<forall>c \<in> set cs. c \<in> Wellfounded.acc (child_rel m)"
proof (rule collect_loop.raw_induct [OF _ assms, where P = "\<lambda>m cs xs. \<forall>c \<in> set cs. c \<in> Wellfounded.acc (child_rel m)"],
    goal_cases)
  case (1 f m cs xs)
  show ?case
  proof (cases cs)
    case (Cons c rest)
    with 1(2) obtain below others where "f m (m c) = Some below" "f m rest = Some others"
      by (auto simp: bind_eq_Some_conv)
    with 1(1) have below: "\<forall>d \<in> set (m c). d \<in> Wellfounded.acc (child_rel m)" and rest: "\<forall>d \<in> set rest. d \<in> Wellfounded.acc (child_rel m)"
      by blast+
    have "c \<in> Wellfounded.acc (child_rel m)" by (rule accI) (use below in \<open>simp add: child_rel_def\<close>)
    with rest Cons show ?thesis by simp
  qed simp
qed

lemma acc_no_cycle: "p \<in> Wellfounded.acc r \<Longrightarrow> (p, p) \<notin> r\<^sup>+"
proof (induction rule: acc_induct_rule)
  case (1 p)
  show ?case
  proof
    assume "(p, p) \<in> r\<^sup>+"
    then obtain q where q: "(p, q) \<in> r\<^sup>*" "(q, p) \<in> r" by (meson tranclD2)
    then have "(q, q) \<in> r\<^sup>+" by (meson rtrancl_into_trancl2)
    with 1(2) [OF q(2)] show False by blast
  qed
qed

lemma acc_below: "(q, p) \<in> r\<^sup>* \<Longrightarrow> p \<in> Wellfounded.acc r \<Longrightarrow> q \<in> Wellfounded.acc r"
  by (induction rule: converse_rtrancl_induct) (auto dest: acc_downward)

lemma no_cycle_acc:
  assumes "no_cycle_below m p"
  shows "p \<in> Wellfounded.acc (child_rel m)"
proof -
  let ?r = "child_rel m" and ?s = "{(c, q). (c, q) \<in> child_rel m \<and> (q, p) \<in> (child_rel m)\<^sup>*}"
  have sub: "?s \<subseteq> ?r" by auto
  have "acyclic ?s"
  proof (rule acyclicI, rule allI, rule notI)
    fix x assume x: "(x, x) \<in> ?s\<^sup>+"
    then obtain y where "(x, y) \<in> ?s" by (meson tranclD)
    then have "(x, p) \<in> ?r\<^sup>*" by (auto intro: converse_rtrancl_into_rtrancl)
    moreover have "(x, x) \<in> ?r\<^sup>+" using x sub trancl_mono_subset by blast
    ultimately show False using assms by (auto simp: no_cycle_below_def)
  qed
  then have wf: "wf ?s" by (simp add: finite_acyclic_wf)
  have "(x, p) \<in> ?r\<^sup>* \<longrightarrow> x \<in> Wellfounded.acc ?r" for x
  proof (induction x rule: wf_induct_rule [OF wf])
    case (1 x)
    show ?case
    proof
      assume x: "(x, p) \<in> ?r\<^sup>*"
      show "x \<in> Wellfounded.acc ?r"
        by (rule accI) (use 1 x in \<open>auto intro: converse_rtrancl_into_rtrancl\<close>)
    qed
  qed
  then show ?thesis by blast
qed

lemma acc_iff_no_cycle: "p \<in> Wellfounded.acc (child_rel m) \<longleftrightarrow> no_cycle_below m p"
  using no_cycle_acc acc_below acc_no_cycle by (metis no_cycle_below_def)

text \<open>Below an accessible process the collection returns the processes below it.\<close>

definition below_of :: "pid_map \<Rightarrow> u64 \<Rightarrow> u64 set" where
  "below_of m p = {c. (c, p) \<in> (child_rel m)\<^sup>+}"

lemma below_of_children: "below_of m p = set (m p) \<union> (\<Union>c \<in> set (m p). below_of m c)"
  by (auto simp: below_of_def child_rel_def elim: tranclE intro: trancl_into_trancl)

lemma collect_loop_below:
  assumes "\<forall>c \<in> set cs. \<exists>xs. collect_loop m (m c) = Some xs \<and> set xs = below_of m c"
  shows "\<exists>xs. collect_loop m cs = Some xs \<and> set xs = set cs \<union> (\<Union>c \<in> set cs. below_of m c)"
  using assms
proof (induction cs)
  case (Cons c cs)
  then obtain xs ys where "collect_loop m (m c) = Some xs" "set xs = below_of m c"
      "collect_loop m cs = Some ys" "set ys = set cs \<union> (\<Union>c \<in> set cs. below_of m c)" by auto
  then show ?case by auto
qed simp

lemma collect_acc:
  "p \<in> Wellfounded.acc (child_rel m) \<Longrightarrow> \<exists>xs. collectAllChildren p m = Some xs \<and> set xs = below_of m p"
proof (induction rule: acc_induct_rule)
  case (1 p)
  have "\<forall>c \<in> set (m p). \<exists>xs. collect_loop m (m c) = Some xs \<and> set xs = below_of m c"
    using 1 by (simp add: child_rel_def collectAllChildren_def)
  from collect_loop_below [OF this] show ?case
    by (simp add: collectAllChildren_def below_of_children [of m p])
qed

lemma collect_Some_acc: "collectAllChildren p m = Some xs \<Longrightarrow> p \<in> Wellfounded.acc (child_rel m)"
  by (rule accI) (use collect_loop_acc [of m "m p" xs] in \<open>simp add: collectAllChildren_def child_rel_def\<close>)

text \<open>
  C11: \<open>collectAllChildren\<close> returns exactly when no process at or below the given one is its own
  descendant in the map; then it returns all generations of its children and nothing else.
\<close>

theorem collectAllChildren_descendants:
  "case collectAllChildren p m of
     None \<Rightarrow> \<not> no_cycle_below m p
   | Some xs \<Rightarrow> no_cycle_below m p \<and> set xs = {c. (c, p) \<in> (child_rel m)\<^sup>+}"
proof (cases "collectAllChildren p m")
  case None
  with collect_acc [of p m] show ?thesis by (cases "no_cycle_below m p") (simp_all add: acc_iff_no_cycle)
next
  case (Some xs)
  from collect_Some_acc [OF this] have p: "p \<in> Wellfounded.acc (child_rel m)" .
  with collect_acc [OF p] Some show ?thesis by (simp add: acc_iff_no_cycle below_of_def)
qed

section \<open>Each descendant once\<close>

text \<open>A map of a tree: every process has one parent and is listed once.\<close>

definition tree_map :: "pid_map \<Rightarrow> bool" where
  "tree_map m \<longleftrightarrow> single_valued (child_rel m) \<and> (\<forall>p. distinct (m p))"

lemma child_not_below:
  assumes "tree_map m" "p \<in> Wellfounded.acc (child_rel m)" "c \<in> set (m p)" "d \<in> set (m p)"
  shows "(c, d) \<notin> (child_rel m)\<^sup>+"
proof
  assume cd: "(c, d) \<in> (child_rel m)\<^sup>+"
  have cp: "(c, p) \<in> child_rel m" and dp: "(d, p) \<in> child_rel m" using assms(3,4) by (simp_all add: child_rel_def)
  obtain q where q: "(c, q) \<in> child_rel m" "(q, d) \<in> (child_rel m)\<^sup>*" using cd by (meson tranclD)
  have "q = p" using q(1) cp assms(1) by (auto simp: tree_map_def single_valued_def)
  with q(2) dp have "(p, p) \<in> (child_rel m)\<^sup>+" by (meson rtrancl_into_trancl1)
  with acc_no_cycle [OF assms(2)] show False ..
qed

lemma siblings_disjoint:
  assumes "tree_map m" "p \<in> Wellfounded.acc (child_rel m)" "c \<in> set (m p)" "d \<in> set (m p)" "c \<noteq> d"
  shows "below_of m c \<inter> below_of m d = {}"
proof -
  have "(x, d) \<notin> (child_rel m)\<^sup>+" if "(x, c) \<in> (child_rel m)\<^sup>+" for x
  proof
    assume "(x, d) \<in> (child_rel m)\<^sup>+"
    then have "(c, d) \<in> (child_rel m)\<^sup>* \<or> (d, c) \<in> (child_rel m)\<^sup>*"
      using single_valued_confluent [of "child_rel m" x c d] that assms(1)
      by (simp add: tree_map_def trancl_into_rtrancl)
    with assms(5) have "(c, d) \<in> (child_rel m)\<^sup>+ \<or> (d, c) \<in> (child_rel m)\<^sup>+"
      by (metis rtranclD)
    with child_not_below [OF assms(1,2)] assms(3,4) show False by blast
  qed
  then show ?thesis by (auto simp: below_of_def)
qed

lemma collect_loop_distinct:
  assumes "distinct cs"
    and "\<forall>c \<in> set cs. \<exists>xs. collect_loop m (m c) = Some xs \<and> set xs = below_of m c \<and> distinct xs"
    and "\<forall>c \<in> set cs. \<forall>d \<in> set cs. c \<notin> below_of m d \<and> (c \<noteq> d \<longrightarrow> below_of m c \<inter> below_of m d = {})"
  shows "\<exists>xs. collect_loop m cs = Some xs \<and> set xs = set cs \<union> (\<Union>c \<in> set cs. below_of m c) \<and> distinct xs"
  using assms
proof (induction cs)
  case (Cons c cs)
  then obtain xs where xs: "collect_loop m (m c) = Some xs" "set xs = below_of m c" "distinct xs" by auto
  have "\<exists>ys. collect_loop m cs = Some ys \<and> set ys = set cs \<union> (\<Union>c \<in> set cs. below_of m c) \<and> distinct ys"
    by (rule Cons.IH) (use Cons.prems in auto)
  then obtain ys where ys: "collect_loop m cs = Some ys" "set ys = set cs \<union> (\<Union>c \<in> set cs. below_of m c)" "distinct ys"
    by blast
  have "below_of m c \<inter> below_of m d = {}" if "d \<in> set cs" for d
    using Cons.prems(1,3) that by auto
  then have "set xs \<inter> set ys = {}" "c \<notin> set xs" "c \<notin> set ys"
    using Cons.prems(1,3) xs(2) ys(2) by auto
  then show ?case using xs ys by auto
qed simp

lemma collect_distinct:
  "p \<in> Wellfounded.acc (child_rel m) \<Longrightarrow> tree_map m \<Longrightarrow>
     \<exists>xs. collectAllChildren p m = Some xs \<and> set xs = below_of m p \<and> distinct xs"
proof (induction rule: acc_induct_rule)
  case (1 p)
  have "\<exists>xs. collect_loop m (m p) = Some xs \<and> set xs = set (m p) \<union> (\<Union>c \<in> set (m p). below_of m c) \<and> distinct xs"
  proof (rule collect_loop_distinct)
    show "distinct (m p)" using "1.prems" by (simp add: tree_map_def)
    show "\<forall>c \<in> set (m p). \<exists>xs. collect_loop m (m c) = Some xs \<and> set xs = below_of m c \<and> distinct xs"
      using 1 by (simp add: child_rel_def collectAllChildren_def)
    have p: "p \<in> Wellfounded.acc (child_rel m)" by (rule 1(1))
    show "\<forall>c \<in> set (m p). \<forall>d \<in> set (m p). c \<notin> below_of m d \<and> (c \<noteq> d \<longrightarrow> below_of m c \<inter> below_of m d = {})"
      using child_not_below [OF "1.prems" p] siblings_disjoint [OF "1.prems" p] by (auto simp: below_of_def)
  qed
  then show ?case by (simp add: collectAllChildren_def below_of_children [of m p])
qed

text \<open>
  C30: when every process has one parent in the map and is listed once, no process is collected
  twice, and the given process is not collected itself.
\<close>

theorem collectAllChildren_once:
  assumes "tree_map m" "collectAllChildren p m = Some xs"
  shows "distinct xs \<and> p \<notin> set xs"
proof -
  have "p \<in> Wellfounded.acc (child_rel m)" by (rule collect_Some_acc [OF assms(2)])
  from collect_distinct [OF this assms(1)] acc_no_cycle [OF this] assms(2) show ?thesis
    by (auto simp: below_of_def)
qed

definition demo_map :: pid_map where
  "demo_map = (\<lambda>_. [])(1 := [2, 5], 2 := [3])"

lemma demo_collect: "collectAllChildren 1 demo_map = Some [2, 3, 5]"
  by (simp add: collectAllChildren_def demo_map_def)

theorem collectAllChildren_once_witness:
  "collectAllChildren 1 demo_map = Some [2, 3, 5] \<and> distinct [2, 3, 5 :: u64] \<and> 1 \<notin> set [2, 3, 5 :: u64]"
proof -
  have "child_rel demo_map = {(2, 1), (5, 1), (3, 2)}"
  proof (rule set_eqI, clarify)
    fix a b
    show "(a, b) \<in> child_rel demo_map \<longleftrightarrow> (a, b) \<in> {(2, 1), (5, 1), (3, 2)}"
      by (cases "b = 2"; cases "b = 1") (simp_all add: child_rel_def demo_map_def)
  qed
  then have "tree_map demo_map" by (simp add: tree_map_def single_valued_def) (simp add: demo_map_def)
  from collectAllChildren_once [OF this demo_collect] demo_collect show ?thesis by blast
qed

section \<open>The goroutines\<close>

text \<open>The entry a name adds to the map.\<close>

definition stat_entry :: "proc_fs \<Rightarrow> string \<Rightarrow> (u64 \<times> u64) option" where
  "stat_entry P name =
     (case ParseUint name 10 64 of
        Ok _ \<Rightarrow> Option.bind (OpenStat P name) scan_stat
      | _ \<Rightarrow> None)"

lemma processStat_entry:
  "processStat P name m =
     (case stat_entry P name of None \<Rightarrow> m | Some (p, ppid) \<Rightarrow> m(ppid := m ppid @ [p]))"
  by (simp add: processStat_def stat_entry_def split: res.split option.split)

definition children_in :: "proc_fs \<Rightarrow> u64 \<Rightarrow> string list \<Rightarrow> u64 list" where
  "children_in P q names =
     map fst (filter (\<lambda>(p, ppid). ppid = q) (List.map_filter (stat_entry P) names))"

lemma scan_procs_children: "scan_procs P names q = children_in P q names"
proof -
  have "fold (processStat P) names m q = m q @ children_in P q names" for m
    by (induction names arbitrary: m)
      (auto simp: children_in_def processStat_entry map_filter_simps split: option.split)
  then show ?thesis by (simp add: scan_procs_def)
qed

lemma scan_procs_perm:
  assumes "mset names = mset names'"
  shows "set (scan_procs P names q) = set (scan_procs P names' q)"
proof -
  have "set names = set names'" using assms by (rule mset_eq_setD)
  then show ?thesis by (simp add: scan_procs_children children_in_def map_filter_def)
qed

lemma child_rel_scan:
  "child_rel (scan_procs P names) = {(c, p). \<exists>name \<in> set names. stat_entry P name = Some (c, p)}"
  by (auto simp: child_rel_def scan_procs_children children_in_def map_filter_def image_iff split: option.splits)

text \<open>
  C22: the order in which the goroutines take the mutex has no influence on which processes are
  found, nor on whether the collection returns.
\<close>

theorem getChildProcesses_schedule:
  assumes "\<forall>names. mset (sched names) = mset names" "\<forall>names. mset (sched' names) = mset names"
  shows "rel_option (\<lambda>r r'. map_res set r = map_res set r')
    (getChildProcesses P sched ppid) (getChildProcesses P sched' ppid)"
proof (cases "ReadProcDir P")
  case (Ok names)
  let ?m = "scan_procs P (sched names)" and ?m' = "scan_procs P (sched' names)"
  have "mset (sched names) = mset (sched' names)" using assms by simp
  then have rel: "child_rel ?m = child_rel ?m'"
    using scan_procs_perm unfolding child_rel_def by blast
  have "rel_option (\<lambda>xs ys. set xs = set ys) (collectAllChildren ppid ?m) (collectAllChildren ppid ?m')"
  proof (cases "ppid \<in> Wellfounded.acc (child_rel ?m)")
    case True
    with collect_acc [of ppid ?m] collect_acc [of ppid ?m'] rel show ?thesis by (auto simp: below_of_def)
  next
    case False
    then have "collectAllChildren ppid ?m = None" "collectAllChildren ppid ?m' = None"
      using collect_Some_acc rel by (metis option.exhaust)+
    then show ?thesis by simp
  qed
  then show ?thesis
    by (cases "collectAllChildren ppid ?m"; cases "collectAllChildren ppid ?m'") (simp_all add: getChildProcesses_def Ok)
qed (simp_all add: getChildProcesses_def)

text \<open>The lines of \<open>/proc/<pid>/stat\<close>, up to the parent and from there on.\<close>

definition ascii :: "string \<Rightarrow> bool" where
  "ascii s \<longleftrightarrow> (\<forall>c \<in> set s. of_char c < (128::nat))"

definition word :: "string \<Rightarrow> bool" where
  "word s \<longleftrightarrow> s \<noteq> [] \<and> ascii s \<and> (\<forall>c \<in> set s. \<not> is_space (of_char c))"

lemma runes_ascii: "ascii a \<Longrightarrow> runes (a @ s) = map of_char a @ runes s"
proof (induction a)
  case (Cons c a)
  then have c: "of_char c < (128::nat)" and a: "ascii a" by (simp_all add: ascii_def)
  show ?case by (subst runes.simps) (simp add: DecodeRune_ascii [OF c] Cons.IH [OF a])
qed simp

text \<open>Reading one item in front of a known rest.\<close>

definition digits_end :: "nat list \<Rightarrow> bool" where
  "digits_end rs \<longleftrightarrow> rs = [] \<or> \<not> rune_digit (hd rs)"

lemma render_rune_digit: "c \<in> set (render_digits 10 n) \<Longrightarrow> rune_digit (of_char c)"
proof (induction "10 :: nat" n rule: render_digits.induct)
  case (1 n)
  have d: "rune_digit (of_char (digit_char k))" if "k < 10" for k :: nat
    using that by (simp add: rune_digit_def digit_char_def)
  show ?case
  proof (cases "n < 10")
    case True
    with 1(2) d show ?thesis by (simp add: render_digits.simps [of 10 n])
  next
    case False
    with 1(2) have "c \<in> set (render_digits 10 (n div 10)) \<or> c = digit_char (n mod 10)"
      by (auto simp: render_digits.simps [of 10 n])
    with False 1(1) d [of "n mod 10"] show ?thesis by auto
  qed
qed

lemma rune_digit_not_space: "rune_digit r \<Longrightarrow> r \<noteq> 10 \<and> \<not> is_space r"
  by (auto simp: rune_digit_def is_space_def)

lemma SkipSpace_id: "rs = [] \<or> hd rs \<noteq> 10 \<and> \<not> is_space (hd rs) \<Longrightarrow> SkipSpace rs = Some rs"
  by (cases rs) auto

lemma scan_uint_render:
  assumes "n < 2 ^ 64" "digits_end rs"
  shows "scan_uint (map of_char (render_digits 10 n) @ rs) = Some (of_nat n, rs)"
proof -
  let ?ds = "map of_char (render_digits 10 n) :: nat list"
  have ds: "\<forall>r \<in> set ?ds. rune_digit r" "?ds \<noteq> []" using render_rune_digit by auto
  then have "rune_digit (hd (?ds @ rs))" by (cases ?ds) simp_all
  then have skip: "SkipSpace (?ds @ rs) = Some (?ds @ rs)"
    by (intro SkipSpace_id disjI2) (rule rune_digit_not_space)
  have "takeWhile rune_digit (?ds @ rs) = ?ds @ takeWhile rune_digit rs"
    by (rule takeWhile_append2) (use ds(1) in blast)
  moreover have "dropWhile rune_digit (?ds @ rs) = dropWhile rune_digit rs"
    by (rule dropWhile_append2) (use ds(1) in blast)
  moreover have "takeWhile rune_digit rs = []" "dropWhile rune_digit rs = rs"
    using assms(2) by (cases rs; simp add: digits_end_def)+
  moreover have "map char_of ?ds = render_digits 10 n" by (simp add: comp_def)
  ultimately show ?thesis
    using ParseUint_render [of 10 n 64] assms(1) skip ds(2) by (simp add: scan_uint_def)
qed

lemma blank_word:
  assumes "word w" "rs = 32 # rest"
  shows "Option.bind (format_blank (32 # map of_char w @ rs)) scan_word = Some rs"
proof -
  obtain c v where w: "w = c # v" using assms(1) by (cases w) (auto simp: word_def)
  have ns: "\<forall>c \<in> set w. \<not> is_space (of_char c)" using assms(1) by (simp add: word_def)
  then have c: "\<not> is_space (of_char c)" "of_char c \<noteq> (10::nat)" by (auto simp: w is_space_def)
  have "format_blank (32 # map of_char w @ rs) = Some (map of_char w @ rs)"
    using c by (simp add: format_blank_def is_space_def [of 32] w)
  moreover have "scan_word (map of_char w @ rs) = Some rs"
  proof -
    have "SkipSpace (map of_char w @ rs) = Some (map of_char w @ rs)"
      by (rule SkipSpace_id) (use c in \<open>simp add: w\<close>)
    moreover have "dropWhile (\<lambda>r. \<not> is_space r) (map of_char w @ rs) = rs"
      using ns assms(2) by (subst dropWhile_append2) (auto simp: is_space_def [of 32])
    ultimately show ?thesis by (simp add: scan_word_def w)
  qed
  ultimately show ?thesis by simp
qed

lemma blank_uint:
  assumes "n < 2 ^ 64" "digits_end rs"
  shows "Option.bind (format_blank (32 # map of_char (render_digits 10 n) @ rs)) scan_uint = Some (of_nat n, rs)"
proof -
  have ds: "\<forall>c \<in> set (render_digits 10 n). rune_digit (of_char c)" using render_rune_digit by auto
  have "dropWhile (\<lambda>x. is_space x \<and> x \<noteq> 10) (map of_char (render_digits 10 n) @ rs) =
      map of_char (render_digits 10 n) @ rs"
    using ds rune_digit_not_space by (cases "render_digits 10 n") auto
  then show ?thesis
    using scan_uint_render [OF assms] by (simp add: format_blank_def is_space_def [of 32])
qed

section \<open>Reading a stat line\<close>

definition stat_line :: "nat \<Rightarrow> string \<Rightarrow> string \<Rightarrow> nat \<Rightarrow> string \<Rightarrow> string" where
  "stat_line p comm state ppid rest =
     render_digits 10 p @ '' ('' @ comm @ '') '' @ state @ '' '' @ render_digits 10 ppid @ rest"

lemma ascii_append [simp]: "ascii (a @ b) \<longleftrightarrow> ascii a \<and> ascii b"
  by (auto simp: ascii_def)

lemma ascii_render: "ascii (render_digits 10 n)"
  using render_rune_digit by (fastforce simp: ascii_def rune_digit_def)

lemma word_parens: "ascii c \<Longrightarrow> \<forall>x \<in> set c. \<not> is_space (of_char x) \<Longrightarrow> word (CHR ''('' # c)"
  "ascii c \<Longrightarrow> \<forall>x \<in> set c. \<not> is_space (of_char x) \<Longrightarrow> word (CHR ''('' # c @ '')'')"
  by (auto simp: word_def ascii_def is_space_def)

lemma runes_ascii_Cons: "of_char c < (128::nat) \<Longrightarrow> runes (c # s) = of_char c # runes s"
  using runes_ascii [of "[c]" s] by (simp add: ascii_def)

lemma runes_digits_end:
  assumes "rest = [] \<or> of_char (hd rest) < (128::nat) \<and> \<not> rune_digit (of_char (hd rest))"
  shows "digits_end (runes rest)"
  using assms by (cases rest) (auto simp: digits_end_def runes_ascii_Cons runes.simps [of "[]"])

text \<open>The scan of a pid, two words and a number.\<close>

lemma scan_stat_words:
  assumes "p < 2 ^ 64" "word a" "word b" "n < 2 ^ 64" "digits_end (runes rest)"
  shows "scan_stat (render_digits 10 p @ '' '' @ a @ '' '' @ b @ '' '' @ render_digits 10 n @ rest) =
    Some (of_nat p, of_nat n)"
proof -
  let ?d = "\<lambda>n. map of_char (render_digits 10 n) :: nat list"
  have "ascii a" "ascii b" using assms(2,3) by (simp_all add: word_def)
  then have r: "runes (render_digits 10 p @ '' '' @ a @ '' '' @ b @ '' '' @ render_digits 10 n @ rest) =
      ?d p @ 32 # map of_char a @ 32 # map of_char b @ 32 # ?d n @ runes rest"
    by (simp add: runes_ascii ascii_render runes_ascii_Cons)
  have e: "digits_end (32 # rs)" for rs by (simp add: digits_end_def rune_digit_def)
  show ?thesis
    unfolding scan_stat_def r
    by (simp only: scan_uint_render [OF assms(1) e] blank_word [OF assms(2) refl] blank_word [OF assms(3) refl]
        blank_uint [OF assms(4,5)] bind.simps prod.case)
qed

text \<open>
  C31: the parent of a process whose command name has no blank is the one its stat line names.
\<close>

theorem processStat_parent:
  assumes "p < 2 ^ 64" "ppid < 2 ^ 64" "ascii comm" "\<forall>x \<in> set comm. \<not> is_space (of_char x)" "word state"
    and "rest = [] \<or> hd rest = CHR '' ''"
    and "ParseUint name 10 64 = Ok k" "OpenStat P name = Some (stat_line p comm state ppid rest)"
  shows "processStat P name m = m(of_nat ppid := m (of_nat ppid) @ [of_nat p])"
proof -
  have "digits_end (runes rest)"
    using assms(6) by (intro runes_digits_end) (auto simp: rune_digit_def)
  from scan_stat_words [OF assms(1) word_parens(2) [OF assms(3,4)] assms(5,2) this]
  have "scan_stat (stat_line p comm state ppid rest) = Some (of_nat p, of_nat ppid)"
    by (simp add: stat_line_def)
  with assms(7,8) show ?thesis by (simp add: processStat_def)
qed

lemma render_digit: "d < 10 \<Longrightarrow> render_digits 10 d = [digit_char d]"
  by (subst render_digits.simps) simp

lemma digit_char_1_7: "digit_char (Suc 0) = CHR ''1''" "digit_char 7 = CHR ''7''"
  by (simp_all add: digit_char_def char_of_eq_iff)

definition init_stat :: proc_fs where
  "init_stat = \<lparr>ReadProcDir = Ok [''7''], OpenStat = (\<lambda>_. Some (stat_line 7 ''sh'' ''S'' 1 '' 7 7''))\<rparr>"

lemma ParseUint_7: "ParseUint ''7'' 10 64 = Ok 7"
  by (simp add: ParseUint_def digit_val_def)

theorem processStat_parent_witness:
  "processStat init_stat ''7'' (\<lambda>_. []) = (\<lambda>_. [])(1 := [7])"
proof -
  have "ascii ''sh''" "\<forall>x \<in> set ''sh''. \<not> is_space (of_char x)" "word ''S''"
    by (simp_all add: ascii_def word_def is_space_def)
  from processStat_parent [of 7 1, OF _ _ this, of "'' 7 7''" "''7''" 7 init_stat "\<lambda>_. []"]
  show ?thesis by (simp add: init_stat_def ParseUint_7)
qed

text \<open>
  C32: a process whose command name has two blanks and then a number \<open>n\<close> is recorded as a child of
  \<open>n\<close>, whatever its parent is: \<open>%s\<close> ends at the first blank, so the fourth item that is scanned
  lies inside the name.
\<close>

theorem processStat_comm_blanks:
  assumes "p < 2 ^ 64" "n < 2 ^ 64" "ascii a" "\<forall>x \<in> set a. \<not> is_space (of_char x)" "word b"
    and "comm = a @ '' '' @ b @ '' '' @ render_digits 10 n"
    and "ParseUint name 10 64 = Ok k" "OpenStat P name = Some (stat_line p comm state ppid rest)"
  shows "processStat P name m = m(of_nat n := m (of_nat n) @ [of_nat p])"
proof -
  let ?rest = "'') '' @ state @ '' '' @ render_digits 10 ppid @ rest"
  have "digits_end (runes ?rest)" by (intro runes_digits_end) (simp add: rune_digit_def)
  from scan_stat_words [OF assms(1) word_parens(1) [OF assms(3,4)] assms(5,2) this]
  have "scan_stat (stat_line p comm state ppid rest) = Some (of_nat p, of_nat n)"
    by (simp add: stat_line_def assms(6))
  with assms(7,8) show ?thesis by (simp add: processStat_def)
qed

definition odd_stat :: proc_fs where
  "odd_stat = \<lparr>ReadProcDir = Ok [''7''], OpenStat = (\<lambda>_. Some (stat_line 7 ''a b 7'' ''S'' 1 '' 7 7''))\<rparr>"

theorem processStat_comm_blanks_witness:
  "processStat odd_stat ''7'' (\<lambda>_. []) = (\<lambda>_. [])(7 := [7])"
proof -
  have w: "ascii ''a''" "\<forall>x \<in> set ''a''. \<not> is_space (of_char x)" "word ''b''"
    by (simp_all add: ascii_def word_def is_space_def)
  have "''a b 7'' = ''a'' @ '' '' @ ''b'' @ '' '' @ render_digits 10 7"
    by (simp add: render_digit digit_char_1_7)
  from processStat_comm_blanks [OF _ _ w this, of 7 "''7''" 7 odd_stat "''S''" 1 "'' 7 7''" "\<lambda>_. []"]
  show ?thesis by (simp add: odd_stat_def ParseUint_7)
qed

lemma self_child_diverges:
  assumes "ReadProcDir P = Ok names" "\<forall>names. mset (sched names) = mset names"
    and "name \<in> set names" "stat_entry P name = Some (p, p)"
  shows "getChildProcesses P sched p = None"
proof -
  let ?m = "scan_procs P (sched names)"
  have "mset (sched names) = mset names" using assms(2) by (rule spec)
  from mset_eq_setD [OF this] assms(3) have "name \<in> set (sched names)" by simp
  with assms(4) have "(p, p) \<in> child_rel ?m" by (simp only: child_rel_scan) blast
  then have "(p, p) \<in> (child_rel ?m)\<^sup>+" by (rule r_into_trancl)
  then have "p \<notin> Wellfounded.acc (child_rel ?m)" using acc_no_cycle [of p "child_rel ?m"] by argo
  then have "collectAllChildren p ?m = None" using collect_Some_acc [of p ?m] by (cases "collectAllChildren p ?m") auto
  then show ?thesis by (simp add: getChildProcesses_def assms(1))
qed

lemma odd_entry: "stat_entry odd_stat ''7'' = Some (7, 7)"
proof -
  have w: "word ''(a''" "word ''b''" by (simp_all add: ascii_def word_def is_space_def)
  have e: "digits_end (runes '') S 1 7 7'')" by (intro runes_digits_end) (simp add: rune_digit_def)
  have "scan_stat (stat_line 7 ''a b 7'' ''S'' 1 '' 7 7'') = Some (7, 7)"
    using scan_stat_words [OF _ w _ e, of 7 7] by (simp add: stat_line_def render_digit digit_char_1_7)
  then show ?thesis by (simp add: stat_entry_def odd_stat_def ParseUint_7)
qed

theorem getChildProcesses_schedule_witness:
  "rel_option (\<lambda>r r'. map_res set r = map_res set r')
    (getChildProcesses init_stat (\<lambda>names. names) 1) (getChildProcesses init_stat rev 1)"
  by (rule getChildProcesses_schedule) simp_all

end
