(* ===== verification/CommandRun.thy ===== *)
theory CommandRun
  imports Skew Loaded
begin

text \<open>
  A run of the command on a simulated kernel: two small object files for arm64, and a process whose
  vDSO holds the two functions. It makes the hypotheses of the properties of \<open>Watchmaker\<close> concrete.
\<close>

section \<open>Two object files\<close>

definition run_syms :: "elf_symbol list" where
  "run_syms =
     [\<lparr>sym_name = ''CLOCK_IDS_MASK'', sym_value = 0, sym_size = 8\<rparr>,
      \<lparr>sym_name = ''TV_SEC_DELTA'', sym_value = 0, sym_size = 8\<rparr>,
      \<lparr>sym_name = ''TV_NSEC_DELTA'', sym_value = 0, sym_size = 8\<rparr>]"

definition rela_mask :: Rela64 where "rela_mask = \<lparr>Off = 0, Info = 0x100000000, Addend = 0\<rparr>"
definition rela_sec :: Rela64 where "rela_sec = \<lparr>Off = 4, Info = 0x200000000, Addend = 0\<rparr>"
definition rela_nsec :: Rela64 where "rela_nsec = \<lparr>Off = 8, Info = 0x300000000, Addend = 0\<rparr>"

abbreviation put :: "Rela64 \<Rightarrow> byte list" where
  "put \<equiv> put_rela LittleEndian"

definition clock_section :: "byte list" where
  "clock_section = put rela_mask @ put rela_sec @ put rela_nsec"

definition day_section :: "byte list" where
  "day_section = put rela_sec @ put rela_nsec"

definition object_file :: "byte list \<Rightarrow> elf_file" where
  "object_file rela =
     \<lparr>Machine = EM_AARCH64, ByteOrder = LittleEndian, Progs = [],
      Sections =
        [\<lparr>sec_type = SHT_PROGBITS, sec_name = ''.text'', sec_data = Ok (replicate 16 0x1F)\<rparr>,
         \<lparr>sec_type = SHT_RELA, sec_name = ''.rela.text'', sec_data = Ok rela\<rparr>],
      Symbols = Ok run_syms, DynamicSymbols = Ok []\<rparr>"

definition run_embedded :: "string \<Rightarrow> byte list res" where
  "run_embedded f = Ok (if f = ''fakeclock/fake_clock_gettime_arm64.o'' then [1] else [2])"

text \<open>The parser of ELF files on the two objects and, for any other bytes, on the vDSO.\<close>

definition run_elf :: "byte list \<Rightarrow> elf_file res" where
  "run_elf bs =
     (if length bs = 1 then Ok (object_file (if hd bs = 1 then clock_section else day_section))
      else Ok \<lparr>Machine = EM_AARCH64, ByteOrder = LittleEndian,
        Progs = [\<lparr>prog_type = PT_LOAD, prog_vaddr = 0, prog_off = 0\<rparr>], Sections = [], Symbols = Ok [],
        DynamicSymbols = Ok [\<lparr>sym_name = ''clock_gettime'', sym_value = 0, sym_size = 16\<rparr>,
          \<lparr>sym_name = ''gettimeofday'', sym_value = 16, sym_size = 16\<rparr>]\<rparr>)"

lemma run_relocs:
  "relocs LittleEndian run_syms clock_section =
     [(rela_mask, ''CLOCK_IDS_MASK''), (rela_sec, ''TV_SEC_DELTA''), (rela_nsec, ''TV_NSEC_DELTA'')]"
  "relocs LittleEndian run_syms day_section = [(rela_sec, ''TV_SEC_DELTA''), (rela_nsec, ''TV_NSEC_DELTA'')]"
  by (simp_all add: clock_section_def day_section_def relocs.simps run_syms_def read_put_rela
      read_put_rela [where bs = "[]", simplified] rela_mask_def rela_sec_def rela_nsec_def drop_bit_eq_div Let_def)

lemma clock_load:
  obtains cont where
    "load_relocs ARM64 EM_AARCH64 LittleEndian run_syms clock_section ([], replicate 16 0x1F) =
       Ok ([(''CLOCK_IDS_MASK'', 16), (''TV_SEC_DELTA'', 32), (''TV_NSEC_DELTA'', 48)], cont)"
    "length cont = 64"
proof -
  let ?l = "load_relocs ARM64 EM_AARCH64 LittleEndian run_syms clock_section ([], replicate 16 0x1F)"
  have "is_ok ?l \<and> fst (case ?l of Ok im \<Rightarrow> im) =
      [(''CLOCK_IDS_MASK'', 16), (''TV_SEC_DELTA'', 32), (''TV_NSEC_DELTA'', 48)] \<and>
      length (snd (case ?l of Ok im \<Rightarrow> im)) = 64"
    by (simp add: clock_section_def load_relocs.simps run_syms_def read_put_rela
        read_put_rela [where bs = "[]", simplified] rela_mask_def rela_sec_def rela_nsec_def drop_bit_eq_div
        Let_def EM_X86_64_def EM_AARCH64_def AssetLD_eq varLength_def)
  then show thesis using that by (cases ?l) auto
qed

lemma day_load:
  obtains cont where
    "load_relocs ARM64 EM_AARCH64 LittleEndian run_syms day_section ([], replicate 16 0x1F) =
       Ok ([(''TV_SEC_DELTA'', 16), (''TV_NSEC_DELTA'', 32)], cont)"
    "length cont = 48"
proof -
  let ?l = "load_relocs ARM64 EM_AARCH64 LittleEndian run_syms day_section ([], replicate 16 0x1F)"
  have "is_ok ?l \<and> fst (case ?l of Ok im \<Rightarrow> im) = [(''TV_SEC_DELTA'', 16), (''TV_NSEC_DELTA'', 32)] \<and>
      length (snd (case ?l of Ok im \<Rightarrow> im)) = 48"
    by (simp add: day_section_def load_relocs.simps run_syms_def read_put_rela
        read_put_rela [where bs = "[]", simplified] rela_sec_def rela_nsec_def drop_bit_eq_div
        Let_def EM_X86_64_def EM_AARCH64_def AssetLD_eq varLength_def)
  then show thesis using that by (cases ?l) auto
qed

lemmas load_eval = LoadFakeImageFromEmbedFs_def run_embedded_def run_elf_def object_file_def find_section_def
  SHT_PROGBITS_def SHT_RELA_def

text \<open>The skew that is loaded from them, with the contents of the two images.\<close>

definition loaded_skew :: "byte list \<Rightarrow> byte list \<Rightarrow> Config \<Rightarrow> Skew" where
  "loaded_skew cc dc c =
     \<lparr>SkewConfig = c, time_image = None,
      clockGetTime = NewFakeImage ''clock_gettime'' cc
        [(''CLOCK_IDS_MASK'', 16), (''TV_SEC_DELTA'', 32), (''TV_NSEC_DELTA'', 48)],
      getTimeOfDay = NewFakeImage ''gettimeofday'' dc [(''TV_SEC_DELTA'', 16), (''TV_NSEC_DELTA'', 32)]\<rparr>"

lemma run_skew:
  obtains cc dc where "\<And>c. GetSkew ARM64 run_embedded run_elf c = Ok (loaded_skew cc dc c)"
    "\<And>c. fresh_skew ARM64 (loaded_skew cc dc c)" "length cc = 64" "length dc = 48"
proof -
  obtain cc where cc: "load_relocs ARM64 EM_AARCH64 LittleEndian run_syms clock_section ([], replicate 16 0x1F) =
      Ok ([(''CLOCK_IDS_MASK'', 16), (''TV_SEC_DELTA'', 32), (''TV_NSEC_DELTA'', 48)], cc)" "length cc = 64"
    by (rule clock_load)
  obtain dc where dc: "load_relocs ARM64 EM_AARCH64 LittleEndian run_syms day_section ([], replicate 16 0x1F) =
      Ok ([(''TV_SEC_DELTA'', 16), (''TV_NSEC_DELTA'', 32)], dc)" "length dc = 48"
    by (rule day_load)
  have get: "GetSkew ARM64 run_embedded run_elf c = Ok (loaded_skew cc dc c)" for c
    using cc(1) dc(1) by (simp add: GetSkew_def load_image_def load_eval image_file_def loaded_skew_def)
  have "wf_image ARM64 (clockGetTime (loaded_skew cc dc c))" "wf_image ARM64 (getTimeOfDay (loaded_skew cc dc c))" for c
    by (rule loaded_wf [OF cc(1)], simp_all add: run_relocs NewFakeImage_def loaded_skew_def)
      (rule loaded_wf [OF dc(1)], simp_all add: run_relocs NewFakeImage_def loaded_skew_def)
  then have "fresh_skew ARM64 (loaded_skew cc dc c)" for c
    using cc(2) dc(2) by (simp add: fresh_skew_def NewFakeImage_def loaded_skew_def)
  with get cc(2) dc(2) that show thesis by blast
qed

section \<open>The injection\<close>

lemma run_inject:
  assumes "length cc = 64" "length dc = 48"
  shows "case Skew_Inject ARM64 (sim_kernel ARM64) run_elf (\<lambda>_ vs. vs) 7
      (loaded_skew cc dc c, attach_world) of
     (r, (s', w')) \<Rightarrow> is_ok r \<and> time_image s' = None \<and>
       OriginAddress (clockGetTime s') = 0x1000 \<and> OriginAddress (getTimeOfDay s') = 0x1010"
proof -
  have "cc \<noteq> []" "dc \<noteq> []" using assms by auto
  with assms show ?thesis
    by (simp add: Skew_Inject_def loaded_skew_def time_vars_def clock_vars_def run_elf_def on_image_def attach_eval SetVarUint64_arm64_def)
qed

definition run_order :: "nat \<Rightarrow> (string \<times> u64) list \<Rightarrow> (string \<times> u64) list" where
  "run_order _ vs = vs"

lemma run_injected:
  assumes "length cc = 64" "length dc = 48"
  obtains s' w' where
    "Skew_Inject ARM64 (sim_kernel ARM64) run_elf run_order 7 (loaded_skew cc dc c, attach_world) = (Ok (), (s', w'))"
    "origins s' = [0x1000, 0x1010]"
proof -
  have ord: "run_order = (\<lambda>_ vs. vs)" by (intro ext) (simp add: run_order_def)
  obtain r s' w' where run:
    "Skew_Inject ARM64 (sim_kernel ARM64) run_elf run_order 7 (loaded_skew cc dc c, attach_world) = (r, (s', w'))"
    by (metis surj_pair)
  with run_inject [OF assms, of c] have "is_ok r \<and> time_image s' = None \<and>
      OriginAddress (clockGetTime s') = 0x1000 \<and> OriginAddress (getTimeOfDay s') = 0x1010"
    by (simp add: ord)
  with run that show thesis by (cases r) (auto simp: origins_def)
qed

lemma run_clean:
  assumes "length cc = 64" "length dc = 48"
  shows "clean_inject ARM64 (sim_kernel ARM64) run_elf run_order 7 (loaded_skew cc dc c) attach_world"
proof -
  have "cc \<noteq> []" "dc \<noteq> []" using assms by auto
  with assms show ?thesis
    by (simp add: clean_inject_def clean_mmap_def loaded_skew_def run_order_def time_vars_def clock_vars_def
        run_elf_def attach_eval SetVarUint64_arm64_def)
qed

end
