(* ===== verification/Watchmaker.thy ===== *)
theory Watchmaker
  imports ClkIds Skew OffsetResults ProcTree CommandRun
begin

text \<open>
  \<open>cmd/watchmaker.go\<close>: the command. Its flags are the arguments of \<open>main\<close> (\<open>flag.Parse\<close> has turned
  \<open>-pid\<close> into a \<open>uint64\<close>); what it reads of its surroundings is the record \<open>outside\<close>. A call of
  \<open>log.Fatalln\<close> ends the program: it is the outcome \<open>Err\<close>. The other log messages are left out.
\<close>

section \<open>main\<close>

record 'w outside =
  Embedded :: "string \<Rightarrow> byte list res"
  ElfNewFile :: "byte list \<Rightarrow> elf_file res"
  TimeLib :: time_lib
  Unicode :: unicode_tables
  Now1 :: gotime
  Now2 :: gotime
  ProcFs :: "'w \<Rightarrow> proc_fs"
  Schedule :: "string list \<Rightarrow> string list"
  MapOrder :: "nat \<Rightarrow> nat \<Rightarrow> (string \<times> u64) list \<Rightarrow> (string \<times> u64) list"

definition default_clocks :: "arch \<Rightarrow> string" where
  "default_clocks A =
     (case A of ARM64 \<Rightarrow> ''CLOCK_REALTIME,CLOCK_REALTIME_COARSE'' | AMD64 \<Rightarrow> ''CLOCK_REALTIME'')"

text \<open>The checks of the arguments, and the skew that is made from them.\<close>

definition prepare :: "arch \<Rightarrow> 'w outside \<Rightarrow> u64 \<Rightarrow> string \<Rightarrow> string \<Rightarrow> Skew res" where
  "prepare A X sysPID fakeTime clockIds =
     (if sysPID = 0 then Err (Errorf ''pid can't is zero'' [])
      else if fakeTime = [] then Err (Errorf ''faketime can't is empty'' [])
      else
        res_bind (CalculateOffset (TimeLib X) (Unicode X) (Now1 X) (Now2 X) fakeTime) (\<lambda>offsetTime.
        res_bind (EncodeClkIds (Split CHR '','' (if clockIds = [] then default_clocks A else clockIds))) (\<lambda>clkIds.
          GetSkew A (Embedded X) (ElfNewFile X) (NewConfig 0 (word_of_int offsetTime) clkIds))))"

text \<open>The \<open>i\<close>-th call of \<open>Inject\<close> iterates its maps in the order \<open>MapOrder X i\<close>.\<close>

definition inject_nth ::
  "arch \<Rightarrow> ('w, 'z) kernel_scheme \<Rightarrow> 'w outside \<Rightarrow> nat \<Rightarrow> u64 \<Rightarrow> (Skew \<times> 'w, unit) io" where
  "inject_nth A K X i p = Skew_Inject A K (ElfNewFile X) (MapOrder X i) p"

text \<open>The loop over the children: an error of one child is logged, and the loop goes on.\<close>

fun inject_children ::
  "arch \<Rightarrow> ('w, 'z) kernel_scheme \<Rightarrow> 'w outside \<Rightarrow> Skew \<Rightarrow> nat \<Rightarrow> u64 list \<Rightarrow> ('w, unit) io" where
  "inject_children A K X s i [] w = (Ok (), w)"
| "inject_children A K X s i (childPid # rest) w =
     (case Fork A (Embedded X) (ElfNewFile X) s of
        Panic \<Rightarrow> (Panic, w)
      | Err _ \<Rightarrow> inject_children A K X s i rest w
      | Ok skewFork \<Rightarrow>
          (case inject_nth A K X i childPid (skewFork, w) of
             (Panic, (_, w')) \<Rightarrow> (Panic, w')
           | (_, (_, w')) \<Rightarrow> inject_children A K X s (i + 1) rest w'))"

text \<open>\<open>None\<close>: the program does not end, because the collection of the children does not.\<close>

definition main ::
  "arch \<Rightarrow> ('w, 'z) kernel_scheme \<Rightarrow> 'w outside \<Rightarrow> u64 \<Rightarrow> string \<Rightarrow> string \<Rightarrow> 'w \<Rightarrow> (unit res \<times> 'w) option" where
  "main A K X sysPID fakeTime clockIds w =
     (case prepare A X sysPID fakeTime clockIds of
        Err e \<Rightarrow> Some (Err e, w)
      | Panic \<Rightarrow> Some (Panic, w)
      | Ok skew \<Rightarrow>
          (case inject_nth A K X 0 sysPID (skew, w) of
             (Err e, (_, w1)) \<Rightarrow> Some (Err e, w1)
           | (Panic, (_, w1)) \<Rightarrow> Some (Panic, w1)
           | (Ok _, (skew1, w1)) \<Rightarrow>
               (case getChildProcesses (ProcFs X w1) (Schedule X) sysPID of
                  None \<Rightarrow> None
                | Some (Err e) \<Rightarrow> Some (Err e, w1)
                | Some Panic \<Rightarrow> Some (Panic, w1)
                | Some (Ok childPIDs) \<Rightarrow> Some (inject_children A K X skew1 1 childPIDs w1))))"

section \<open>Arguments that are refused\<close>

text \<open>
  Without a pid, without a fake time, with a fake time that \<open>CalculateOffset\<close> cannot read or with
  an unknown clock the program ends with an error and has not touched any process.
\<close>

theorem main_refuses:
  assumes "sysPID = 0 \<or> fakeTime = [] \<or>
    (\<exists>e. CalculateOffset (TimeLib X) (Unicode X) (Now1 X) (Now2 X) fakeTime = Err e) \<or>
    (\<exists>n. CalculateOffset (TimeLib X) (Unicode X) (Now1 X) (Now2 X) fakeTime = Ok n) \<and> clockIds \<noteq> [] \<and>
      list_ex (\<lambda>s. clk_bit s = None) (Split CHR '','' clockIds)"
  shows "\<exists>e. main A K X sysPID fakeTime clockIds w = Some (Err e, w)"
proof -
  have enc: "EncodeClkIds ids = Err (Errorf ''unknown clock id %s'' [])" if "list_ex (\<lambda>s. clk_bit s = None) ids" for ids
    using encode_loop_err [of 0 ids] that by (simp add: EncodeClkIds_def list_ex_iff)
  have "\<exists>e. prepare A X sysPID fakeTime clockIds = Err e"
    using assms by (elim disjE exE conjE) (simp_all add: prepare_def enc)
  then show ?thesis by (auto simp: main_def)
qed

section \<open>Which processes are written\<close>

lemma inject_nth_keeps: "keeps (snd_rel (same_other K (sint p))) (inject_nth A K X i p)" if "kernel_ok A K"
  unfolding inject_nth_def Skew_Inject_def Let_def
  by (intro other_frame2.keeps_rules other_frame.keeps_state_rules keeps_on_image keeps_Attach that)

definition other_than :: "('w, 'z) kspec_scheme \<Rightarrow> int set \<Rightarrow> 'w \<Rightarrow> 'w \<Rightarrow> bool" where
  "other_than K ps w w' \<longleftrightarrow> (\<forall>q. \<forall>x \<in> still K q. q \<in> ps \<or> mem_of K w' q x = mem_of K w q x)"

lemma other_than_trans:
  "other_than K ps w w1 \<Longrightarrow> other_than K qs w1 w2 \<Longrightarrow> other_than K (ps \<union> qs) w w2"
  unfolding other_than_def by fastforce

lemma other_than_refl: "other_than K ps w w"
  by (simp add: other_than_def)

lemma inject_nth_other:
  assumes "kernel_ok A K" "inject_nth A K X i p (s, w) = (r, (s', w'))"
  shows "other_than K {sint p} w w'"
  using keepsD [OF inject_nth_keeps [OF assms(1)] assms(2)] by (simp add: same_other_def other_than_def)

lemma inject_children_other:
  assumes "kernel_ok A K"
  shows "inject_children A K X s i cs w = (r, w') \<Longrightarrow> other_than K (sint ` set cs) w w'"
proof (induction cs arbitrary: i w)
  case Nil
  then show ?case by (simp add: other_than_refl)
next
  case (Cons c cs)
  show ?case
  proof (cases "Fork A (Embedded X) (ElfNewFile X) s")
    case (Ok sk)
    obtain r1 sk1 w1 where run: "inject_nth A K X i c (sk, w) = (r1, (sk1, w1))" by (metis surj_pair)
    note other = inject_nth_other [OF assms run]
    have "w' = w1 \<or> (\<exists>j. inject_children A K X s j cs w1 = (r, w'))"
      using Cons.prems Ok run by (cases r1) auto
    then have "other_than K (sint ` set cs) w1 w'"
    proof
      assume "w' = w1"
      then show ?thesis by (simp add: other_than_refl)
    next
      assume "\<exists>j. inject_children A K X s j cs w1 = (r, w')"
      then obtain j where "inject_children A K X s j cs w1 = (r, w')" ..
      then show ?thesis by (rule Cons.IH)
    qed
    from other_than_trans [OF other this] show ?thesis by simp
  next
    case (Err e)
    with Cons show ?thesis by (auto simp: other_than_def)
  next
    case Panic
    with Cons show ?thesis by (simp add: other_than_refl)
  qed
qed

text \<open>The descendants of a process in what \<open>/proc\<close> shows.\<close>

definition descendants :: "proc_fs \<Rightarrow> u64 \<Rightarrow> u64 set" where
  "descendants P p =
     {c. \<exists>names. ReadProcDir P = Ok names \<and> (c, p) \<in> (child_rel (scan_procs P names))\<^sup>+}"

lemma getChildProcesses_descendants:
  assumes "\<forall>names. mset (sched names) = mset names" "getChildProcesses P sched p = Some (Ok cs)"
  shows "set cs = descendants P p"
proof -
  obtain names where names: "ReadProcDir P = Ok names"
    and cs: "collectAllChildren p (scan_procs P (sched names)) = Some cs"
    using assms(2) by (auto simp: getChildProcesses_def split: res.splits)
  have "mset (sched names) = mset names" using assms(1) by (rule spec)
  then have rel: "child_rel (scan_procs P (sched names)) = child_rel (scan_procs P names)"
    using scan_procs_perm unfolding child_rel_def by blast
  have "set cs = below_of (scan_procs P (sched names)) p"
    using collect_acc [OF collect_Some_acc [OF cs]] cs by auto
  then show ?thesis by (simp add: below_of_def rel descendants_def names)
qed

text \<open>The parts of a run of \<open>main\<close> that gets past the injection of the process itself.\<close>

lemma main_cases:
  assumes "main A K X sysPID fakeTime clockIds w = Some (r, w')"
  obtains (refused) "\<not> is_ok (prepare A X sysPID fakeTime clockIds)" "\<not> is_ok r" "w' = w"
  | (failed) s r1 s1 where "prepare A X sysPID fakeTime clockIds = Ok s"
      "inject_nth A K X 0 sysPID (s, w) = (r1, (s1, w'))" "\<not> is_ok r1" "\<not> is_ok r"
  | (unlisted) s s1 where "prepare A X sysPID fakeTime clockIds = Ok s"
      "inject_nth A K X 0 sysPID (s, w) = (Ok (), (s1, w'))" "\<not> is_ok r"
      "\<not> is_ok (ReadProcDir (ProcFs X w'))"
  | (listed) s s1 w1 cs where "prepare A X sysPID fakeTime clockIds = Ok s"
      "inject_nth A K X 0 sysPID (s, w) = (Ok (), (s1, w1))"
      "getChildProcesses (ProcFs X w1) (Schedule X) sysPID = Some (Ok cs)"
      "inject_children A K X s1 1 cs w1 = (r, w')"
proof (cases "prepare A X sysPID fakeTime clockIds")
  case (Ok s)
  obtain r1 s1 w1 where run: "inject_nth A K X 0 sysPID (s, w) = (r1, (s1, w1))" by (metis surj_pair)
  show thesis
  proof (cases "r1 = Ok ()")
    case True
    note run = run [unfolded True]
    show thesis
    proof (cases "\<exists>cs. getChildProcesses (ProcFs X w1) (Schedule X) sysPID = Some (Ok cs)")
      case True
      with listed [OF Ok run] assms Ok run show thesis by (auto simp: main_def)
    next
      case False
      then have "\<not> is_ok (ReadProcDir (ProcFs X w1)) \<and> w' = w1 \<and> \<not> is_ok r"
        using assms Ok run
        by (auto simp: main_def getChildProcesses_def split: option.splits res.splits)
      with unlisted [OF Ok] run show thesis by simp
    qed
  next
    case False
    with assms Ok run have "w' = w1 \<and> \<not> is_ok r \<and> \<not> is_ok r1" by (cases r1) (auto simp: main_def)
    with failed [OF Ok] run show thesis by simp
  qed
qed (use assms refused in \<open>auto simp: main_def\<close>)

text \<open>
  C12: whenever \<open>main\<close> ends, in success or failure, it has written the memory of no process but the
  given one and those that \<open>/proc\<close> shows as its descendants after the first injection; without a
  skew it has written nothing.
\<close>

theorem main_writes_descendants:
  assumes "kernel_ok A K" "\<forall>names. mset (Schedule X names) = mset names"
    and "main A K X sysPID fakeTime clockIds w = Some (r, w')"
  shows "case prepare A X sysPID fakeTime clockIds of
      Ok s \<Rightarrow>
        let w1 = snd (snd (inject_nth A K X 0 sysPID (s, w))) in
        \<forall>q. \<forall>x \<in> still K q.
          q = sint sysPID \<or> q \<in> sint ` descendants (ProcFs X w1) sysPID \<or> mem_of K w' q x = mem_of K w q x
    | _ \<Rightarrow> w' = w"
  using assms(3)
proof (cases rule: main_cases)
  case refused
  then show ?thesis by (simp split: res.split)
next
  case (failed s r1 s1)
  with inject_nth_other [OF assms(1) failed(2)] show ?thesis by (auto simp: other_than_def)
next
  case (unlisted s s1)
  with inject_nth_other [OF assms(1) unlisted(2)] show ?thesis by (auto simp: other_than_def)
next
  case (listed s s1 w1 cs)
  from other_than_trans [OF inject_nth_other [OF assms(1) listed(2)] inject_children_other [OF assms(1) listed(4)]]
  have "other_than K ({sint sysPID} \<union> sint ` descendants (ProcFs X w1) sysPID) w w'"
    by (simp add: getChildProcesses_descendants [OF assms(2) listed(3)])
  with listed show ?thesis by (simp add: other_than_def)
qed

lemma inject_children_no_error: "inject_children A K X s i cs w = (r, w') \<Longrightarrow> r = Ok () \<or> r = Panic"
  by (induction cs arbitrary: i w) (auto split: res.splits prod.splits)

text \<open>
  C28: the exit status tells about the given process only: an error is reported only when the
  arguments were refused, or its injection or the listing of \<open>/proc\<close> failed, never for a child.
\<close>

theorem main_exit_status:
  assumes "main A K X sysPID fakeTime clockIds w = Some (Err e, w')"
  shows "\<not> is_ok (prepare A X sysPID fakeTime clockIds) \<or>
    (\<exists>s. prepare A X sysPID fakeTime clockIds = Ok s \<and>
      (let (r1, (s1, w1)) = inject_nth A K X 0 sysPID (s, w) in
        \<not> is_ok r1 \<or> \<not> is_ok (ReadProcDir (ProcFs X w1))))"
  using assms
proof (cases rule: main_cases)
  case (listed s s1 w1 cs)
  from inject_children_no_error [OF listed(4)] show ?thesis by simp
qed auto

section \<open>The process itself\<close>

lemma prepare_config:
  assumes "prepare A X sysPID fakeTime clockIds = Ok s"
  obtains offset mask where
    "CalculateOffset (TimeLib X) (Unicode X) (Now1 X) (Now2 X) fakeTime = Ok offset"
    "EncodeClkIds (Split CHR '','' (if clockIds = [] then default_clocks A else clockIds)) = Ok mask"
    "SkewConfig s = NewConfig 0 (word_of_int offset) mask"
  using assms
  by (auto simp: prepare_def GetSkew_def Let_def res_bind_Ok_iff split: if_splits)

text \<open>The images that are loaded: that of \<open>time\<close> is missing on arm64.\<close>

lemma prepare_images:
  assumes "prepare A X sysPID fakeTime clockIds = Ok s"
  shows "case time_image s of None \<Rightarrow> A = ARM64 | Some im \<Rightarrow> A = AMD64 \<and> symbolName im = ''time''"
    "symbolName (clockGetTime s) = ''clock_gettime''" "symbolName (getTimeOfDay s) = ''gettimeofday''"
  using assms
  by (cases A; auto simp: prepare_def GetSkew_def load_image_def NewFakeImage_def Let_def res_bind_Ok_iff
      map_res_Ok_iff map_err_Ok_iff split: if_splits)+

text \<open>
  \<open>redirected\<close>: in \<open>w'\<close> the vDSO function \<open>name\<close>, at the address it has when the process is traced in
  \<open>u\<close>, is redirected to the live image \<open>im\<close>, whose variables have the values \<open>vs\<close>.
\<close>

definition redirected ::
  "arch \<Rightarrow> ('w, 'z) kspec_scheme \<Rightarrow> 'w outside \<Rightarrow> int \<Rightarrow> 'w \<Rightarrow> 'w \<Rightarrow> string \<Rightarrow> FakeImage \<Rightarrow> (string \<times> u64) list \<Rightarrow> bool"
where
  "redirected A K X p u w' name im vs \<longleftrightarrow>
     vdso_symbol A K (ElfNewFile X) p u name (OriginAddress im) \<and> (\<exists>e. fake_live A K p im e vs w')"

lemma collected_not_itself:
  assumes "\<forall>names. mset (sched names) = mset names" "getChildProcesses P sched p = Some (Ok cs)"
  shows "p \<notin> set cs"
proof -
  obtain names where cs: "collectAllChildren p (scan_procs P (sched names)) = Some cs"
    using assms(2) by (auto simp: getChildProcesses_def split: res.splits)
  from collect_Some_acc [OF this] have acc: "p \<in> Wellfounded.acc (child_rel (scan_procs P (sched names)))" .
  from collect_acc [OF acc] cs acc_no_cycle [OF acc] show ?thesis by (auto simp: below_of_def)
qed

text \<open>
  C1: the whole way from the command line to the running process. When \<open>main\<close> succeeds, the functions
  \<open>clock_gettime\<close>, \<open>gettimeofday\<close> and, on amd64, \<open>time\<close> of the vDSO of the process are redirected to
  images that are live at the end, after the injection into its children, and whose variables hold
  the offset that \<open>CalculateOffset\<close> returned and the mask of the clocks. Each function is the symbol
  of that name in the vDSO, as it is when its own injection begins. (Asked of the kernel, the object
  files and the addresses of the functions is what \<open>Inject\<close> asks.)
\<close>

theorem main_makes_live:
  assumes ok: "kernel_ok A K" and page: "Getpagesize K = 2 ^ k" "k \<le> 32"
    and ord: "\<And>i vs. mset (MapOrder X 0 i vs) = mset vs" "\<forall>names. mset (Schedule X names) = mset names"
    and skew: "prepare A X sysPID fakeTime clockIds = Ok s" "fresh_skew A s"
      "clean_inject A K (ElfNewFile X) (MapOrder X 0) (sint sysPID) s w"
    and inj: "inject_nth A K X 0 sysPID (s, w) = (Ok (), (s1, w1))"
    and fn: "list_all (\<lambda>o1. mapped_still K (sint sysPID) w o1 16) (origins s1)" "sorted_wrt disjoint16 (origins s1)"
    and run: "main A K X sysPID fakeTime clockIds w = Some (Ok u, w')"
  shows "\<exists>offset mask c. CalculateOffset (TimeLib X) (Unicode X) (Now1 X) (Now2 X) fakeTime = Ok offset \<and>
    EncodeClkIds (Split CHR '','' (if clockIds = [] then default_clocks A else clockIds)) = Ok mask \<and>
    c = NewConfig 0 (word_of_int offset) mask \<and>
    (case time_image s1 of
       None \<Rightarrow> A = ARM64
     | Some im \<Rightarrow> A = AMD64 \<and>
         redirected A K X (sint sysPID) w w' ''time'' im (MapOrder X 0 0 (time_vars c))) \<and>
    redirected A K X (sint sysPID) (before_clock A K (ElfNewFile X) (MapOrder X 0) (sint sysPID) s w) w'
      ''clock_gettime'' (clockGetTime s1) (MapOrder X 0 1 (clock_vars c)) \<and>
    redirected A K X (sint sysPID) (before_day A K (ElfNewFile X) (MapOrder X 0) (sint sysPID) s w) w'
      ''gettimeofday'' (getTimeOfDay s1) (MapOrder X 0 2 (time_vars c))"
proof -
  let ?p = "sint sysPID"
  obtain offset mask where cfg: "CalculateOffset (TimeLib X) (Unicode X) (Now1 X) (Now2 X) fakeTime = Ok offset"
    "EncodeClkIds (Split CHR '','' (if clockIds = [] then default_clocks A else clockIds)) = Ok mask"
    "SkewConfig s = NewConfig 0 (word_of_int offset) mask"
    by (rule prepare_config [OF skew(1)])
  have sinj: "Skew_Inject A K (ElfNewFile X) (MapOrder X 0) sysPID (s, w) = (Ok (), (s1, w1))"
    using inj by (simp add: inject_nth_def)
  note live = Skew_Inject_live [OF ok page skew(2,3) ord(1) sinj fn]
  note sym = Skew_Inject_symbols [OF ok page skew(2,3) sinj] and names = prepare_images [OF skew(1)]
  obtain cs where cs: "getChildProcesses (ProcFs X w1) (Schedule X) sysPID = Some (Ok cs)"
    "inject_children A K X s1 1 cs w1 = (Ok u, w')"
    using run by (cases rule: main_cases) (use skew(1) inj in auto)
  have inj: "inj (sint :: u64 \<Rightarrow> int)" by (rule injI) (simp add: signed_word_eqI)
  have "?p \<notin> sint ` set cs"
    using collected_not_itself [OF ord(2) cs(1)] inj by (simp add: inj_image_mem_iff)
  with inject_children_other [OF ok cs(2)]
  have same: "\<forall>x \<in> still K ?p. mem_of K w' ?p x = mem_of K w1 ?p x"
    by (simp add: other_than_def) blast
  have fin: "redirected A K X ?p u2 w' name im vs"
    if "vdso_symbol A K (ElfNewFile X) ?p u2 name (OriginAddress im)" "\<exists>e. live_in A K ?p w w1 (im, e, vs)"
    for u2 name im vs
    using that live_in_unwritten [OF _ same] live_in_fake unfolding redirected_def by fast
  have "case time_image s1 of None \<Rightarrow> A = ARM64
     | Some im \<Rightarrow> A = AMD64 \<and> redirected A K X ?p w w' ''time'' im (MapOrder X 0 0 (time_vars (SkewConfig s)))"
  proof (cases "time_image s")
    case None
    with sym(1) names(1) show ?thesis by simp
  next
    case (Some im)
    with sym(1) names(1) live fin show ?thesis by auto
  qed
  moreover have "redirected A K X ?p (before_clock A K (ElfNewFile X) (MapOrder X 0) ?p s w) w'
      ''clock_gettime'' (clockGetTime s1) (MapOrder X 0 1 (clock_vars (SkewConfig s)))"
    using sym(2) names(2) live by (intro fin) simp_all
  moreover have "redirected A K X ?p (before_day A K (ElfNewFile X) (MapOrder X 0) ?p s w) w'
      ''gettimeofday'' (getTimeOfDay s1) (MapOrder X 0 2 (time_vars (SkewConfig s)))"
    using sym(3) names(3) live by (intro fin) simp_all
  ultimately show ?thesis using cfg by (intro exI [of _ offset] exI [of _ mask] exI [of _ "SkewConfig s"]) simp
qed

text \<open>
  C23: a process that \<open>/proc\<close> shows as its own child (its command name can make it so) has its clock
  changed, but \<open>main\<close> never gets to the children: its recursion does not end (in Go, until the stack
  is exhausted).
\<close>

theorem main_never_ends:
  assumes "prepare A X sysPID fakeTime clockIds = Ok s"
    and "inject_nth A K X 0 sysPID (s, w) = (Ok (), (s1, w1))"
    and "ReadProcDir (ProcFs X w1) = Ok names" "\<forall>names. mset (Schedule X names) = mset names"
    and "name \<in> set names" "stat_entry (ProcFs X w1) name = Some (sysPID, sysPID)"
  shows "main A K X sysPID fakeTime clockIds w = None"
  using self_child_diverges [OF assms(3-6)] assms(1,2) by (simp add: main_def)

section \<open>A concrete run\<close>

definition no_lib :: time_lib where
  "no_lib = \<lparr>Parse = (\<lambda>_ _ _. Err ErrSyntax), ErrorText = (\<lambda>_. [])\<rparr>"

definition no_tables :: unicode_tables where
  "no_tables = \<lparr>uni_letter = (\<lambda>_. False), uni_digit = (\<lambda>_. False), uni_lower = id\<rparr>"

definition run_outside :: "proc_fs \<Rightarrow> sim outside" where
  "run_outside P =
     \<lparr>Embedded = run_embedded, ElfNewFile = run_elf, TimeLib = no_lib, Unicode = no_tables,
      Now1 = Unix 0 0, Now2 = Unix 0 0, ProcFs = (\<lambda>_. P), Schedule = (\<lambda>names. names),
      MapOrder = (\<lambda>_. run_order)\<rparr>"

lemma run_outside_simps [simp]:
  "Embedded (run_outside P) = run_embedded" "ElfNewFile (run_outside P) = run_elf"
  "TimeLib (run_outside P) = no_lib" "Unicode (run_outside P) = no_tables" "Now1 (run_outside P) = Unix 0 0"
  "Now2 (run_outside P) = Unix 0 0" "ProcFs (run_outside P) w = P" "Schedule (run_outside P) names = names"
  "MapOrder (run_outside P) i = run_order"
  by (simp_all add: run_outside_def)

lemma run_offset: "CalculateOffset no_lib no_tables (Unix 0 0) (Unix 0 0) ''-90m'' = Ok (- 5400000000000)"
proof -
  have "decimal ''90'' = 90" by (simp add: char_of_eq_iff)
  moreover have "int64 (- 5400000000000) = - 5400000000000" by (rule int64_id) simp_all
  ultimately show ?thesis
    using CalculateOffset_signed [of "CHR ''-''" "''90''" "''m''" no_lib no_tables "Unix 0 0" "Unix 0 0"]
    by (simp add: all_digits_def unit_ns_def)
qed

lemma run_mask: "EncodeClkIds (Split CHR '','' (default_clocks ARM64)) = Ok 33"
  by (simp add: default_clocks_def EncodeClkIds_def clk_bit_def)

definition run_config :: Config where
  "run_config = NewConfig 0 (word_of_int (- 5400000000000)) 33"

lemma run_prepare:
  assumes "\<And>c. GetSkew ARM64 run_embedded run_elf c = Ok (loaded_skew cc dc c)"
  shows "prepare ARM64 (run_outside P) 7 ''-90m'' [] = Ok (loaded_skew cc dc run_config)"
  by (simp add: prepare_def run_offset run_mask assms run_config_def)

lemma run_started:
  assumes "\<And>c. GetSkew ARM64 run_embedded run_elf c = Ok (loaded_skew cc dc c)" "length cc = 64" "length dc = 48"
  obtains s1 w1 where
    "inject_nth ARM64 (sim_kernel ARM64) (run_outside P) 0 7 (loaded_skew cc dc run_config, attach_world) = (Ok (), (s1, w1))"
    "origins s1 = [0x1000, 0x1010]"
  using run_injected [OF assms(2,3), of run_config] by (simp add: inject_nth_def) blast

text \<open>No process is below process 7 in \<open>init_stat\<close>; in \<open>odd_stat\<close> it is its own child.\<close>

lemma init_children: "getChildProcesses init_stat (\<lambda>names. names) 7 = Some (Ok [])"
proof -
  have w: "word ''(sh)''" "word ''S''" by (simp_all add: ascii_def word_def is_space_def)
  have e: "digits_end (runes '' 7 7'')" by (intro runes_digits_end) (simp add: rune_digit_def)
  have "scan_stat (stat_line 7 ''sh'' ''S'' 1 '' 7 7'') = Some (7, 1)"
    using scan_stat_words [OF _ w _ e, of 7 1] by (simp add: stat_line_def)
  then show ?thesis
    by (simp add: getChildProcesses_def init_stat_def scan_procs_def processStat_def ParseUint_7 collectAllChildren_def)
qed

lemma run_main:
  assumes "\<And>c. GetSkew ARM64 run_embedded run_elf c = Ok (loaded_skew cc dc c)"
    and "inject_nth ARM64 (sim_kernel ARM64) (run_outside init_stat) 0 7 (loaded_skew cc dc run_config, attach_world) =
      (Ok (), (s1, w1))"
  shows "main ARM64 (sim_kernel ARM64) (run_outside init_stat) 7 ''-90m'' [] attach_world = Some (Ok (), w1)"
proof -
  have sched: "Schedule (run_outside P) = (\<lambda>names. names)" for P by (intro ext) simp
  show ?thesis by (simp add: main_def run_prepare [OF assms(1)] assms(2) sched init_children)
qed

theorem main_makes_live_witness:
  "\<exists>w' (s1 :: Skew) e. main ARM64 (sim_kernel ARM64) (run_outside init_stat) 7 ''-90m'' [] attach_world = Some (Ok (), w') \<and>
     fake_live ARM64 (sim_kernel ARM64) 7 (clockGetTime s1) e
       (clock_vars (NewConfig 0 (word_of_int (- 5400000000000)) 33)) w'"
proof -
  obtain cc dc where sk: "\<And>c. GetSkew ARM64 run_embedded run_elf c = Ok (loaded_skew cc dc c)"
    "\<And>c. fresh_skew ARM64 (loaded_skew cc dc c)" "length cc = 64" "length dc = 48"
    by (rule run_skew) blast
  obtain s1 w1 where inj: "inject_nth ARM64 (sim_kernel ARM64) (run_outside init_stat) 0 7
      (loaded_skew cc dc run_config, attach_world) = (Ok (), (s1, w1))" "origins s1 = [0x1000, 0x1010]"
    by (rule run_started [OF sk(1,3,4)])
  note run = run_main [OF sk(1) inj(1)]
  have ord: "MapOrder (run_outside P) i j vs = vs" for P i j vs by (simp add: run_order_def)
  have "\<exists>e. fake_live ARM64 (sim_kernel ARM64) 7 (clockGetTime s1) e
      (clock_vars (NewConfig 0 (word_of_int (- 5400000000000)) 33)) w1"
    using main_makes_live [OF sim_kernel_ok _ _ _ _ run_prepare [OF sk(1)] sk(2) _ inj(1) _ _ run, of 4]
      run_clean [OF sk(3,4)] demo_mapped demo_mapped2 disjoint_demo
    by (simp add: inj(2) run_offset run_mask run_order_def redirected_def)
  with run show ?thesis by blast
qed

theorem main_writes_descendants_witness:
  "\<exists>w'. main ARM64 (sim_kernel ARM64) (run_outside init_stat) 7 ''-90m'' [] attach_world = Some (Ok (), w') \<and>
     s_mem w' 8 0x1000 = s_mem attach_world 8 0x1000"
proof -
  obtain cc dc where sk: "\<And>c. GetSkew ARM64 run_embedded run_elf c = Ok (loaded_skew cc dc c)"
    "\<And>c. fresh_skew ARM64 (loaded_skew cc dc c)" "length cc = 64" "length dc = 48"
    by (rule run_skew) blast
  obtain s1 w1 where inj: "inject_nth ARM64 (sim_kernel ARM64) (run_outside init_stat) 0 7
      (loaded_skew cc dc run_config, attach_world) = (Ok (), (s1, w1))"
    by (rule run_started [OF sk(1,3,4)])
  note run = run_main [OF sk(1) inj]
  have "set ([] :: u64 list) = descendants init_stat 7"
    by (rule getChildProcesses_descendants [OF _ init_children]) simp
  then have "descendants init_stat 7 = {}" by simp
  then have "\<forall>q. \<forall>x \<in> still (sim_kernel ARM64) q. q = 7 \<or> s_mem w1 q x = s_mem attach_world q x"
    using main_writes_descendants [OF sim_kernel_ok _ run]
    by (simp add: run_prepare [OF sk(1)] inj del: attach_world_fields)
  then have "s_mem w1 8 0x1000 = s_mem attach_world 8 0x1000"
    by (elim allE [of _ 8]) (simp del: attach_world_fields)
  with run show ?thesis by blast
qed

theorem main_never_ends_witness:
  "main ARM64 (sim_kernel ARM64) (run_outside odd_stat) 7 ''-90m'' [] attach_world = None"
proof -
  obtain cc dc where sk: "\<And>c. GetSkew ARM64 run_embedded run_elf c = Ok (loaded_skew cc dc c)"
    "\<And>c. fresh_skew ARM64 (loaded_skew cc dc c)" "length cc = 64" "length dc = 48"
    by (rule run_skew) blast
  obtain s1 w1 where inj: "inject_nth ARM64 (sim_kernel ARM64) (run_outside odd_stat) 0 7
      (loaded_skew cc dc run_config, attach_world) = (Ok (), (s1, w1))"
    by (rule run_started [OF sk(1,3,4)])
  show ?thesis
    by (rule main_never_ends [OF run_prepare [OF sk(1)] inj, where names = "[''7'']" and name = "''7''"])
      (simp_all add: odd_entry, simp add: odd_stat_def)
qed

theorem main_refuses_witness:
  "\<exists>e. main ARM64 (sim_kernel ARM64) (run_outside init_stat) 7 ''-90m'' ''CLOCK_REALTIME,CLOCK'' attach_world =
     Some (Err e, attach_world)"
  by (rule main_refuses) (simp add: run_offset clk_bit_def)

theorem main_exit_status_witness:
  "\<exists>e. main ARM64 (sim_kernel ARM64) (run_outside init_stat) 0 ''-90m'' [] attach_world = Some (Err e, attach_world) \<and>
     \<not> is_ok (prepare ARM64 (run_outside init_stat) 0 ''-90m'' [])"
proof -
  obtain e where "main ARM64 (sim_kernel ARM64) (run_outside init_stat) 0 ''-90m'' [] attach_world =
      Some (Err e, attach_world)"
    by (auto simp: main_def prepare_def)
  with main_exit_status [OF this] show ?thesis by (auto simp: prepare_def)
qed

end
