(* ===== verification/Spec2Isabelle.thy ===== *)
theory Spec2Isabelle
  imports Loaded Watchmaker
begin

text \<open>
  A verification development of watchmaker, a program that changes the time a running Linux process
  sees. The command computes an offset from a fake time, attaches to the process with ptrace, maps a
  small piece of code into it (a \<^emph>\<open>fake image\<close>, cut out of an embedded object file), writes the
  offset into the variables of that code, and overwrites the first bytes of the vDSO functions
  \<open>clock_gettime\<close>, \<open>gettimeofday\<close> and (on amd64) \<open>time\<close> with a jump to it. Then it does the same to all
  descendants of the process.

  \<^bold>\<open>Conventions.\<close> A Go function with an error result returns a value of \<open>res\<close> (\<open>Prelude\<close>): \<open>Ok\<close>, \<open>Err\<close> or
  \<open>Panic\<close>, where \<open>Panic\<close> is a run-time panic such as an index out of range. A function with effects has
  type \<open>('s, 'a) io\<close>, from the state before to the outcome and the state after, which is given on
  every outcome. Machine integers of the injection are words; the \<open>int\<close>s of the parser are indices and
  are unbounded, a \<open>time.Duration\<close> is an \<open>int\<close> that \<open>int64\<close> wraps. Strings are lists of bytes. A Go map
  whose order matters is an association list, and the order of an iteration is an argument. The
  definitions have the names of the Go functions; a function of two architecture files is a
  definition \<open>_amd64\<close> and \<open>_arm64\<close>, selected by the argument \<open>A\<close>.

  \<^bold>\<open>The injection.\<close>
  \<^item> \<open>GoBytes\<close>, \<open>GoStrings\<close>: \<open>encoding/binary\<close> (the locale \<open>int_codec\<close>), \<open>strings\<close>, \<open>strconv\<close>, \<open>utf8\<close>.
  \<^item> \<open>Kernel\<close>: the system calls as fields of a record, and \<open>kernel_ok\<close>, their documented behaviour on
    the memory that a stopped process does not write itself (\<open>still\<close>). \<open>SimKernel\<close>: a concrete kernel
    that has it; the witnesses run on it.
  \<^item> \<open>ClkIds\<close> (\<open>encode_clk_ids.go\<close>), \<open>MapsReader\<close> (\<open>maps_reader.go\<close>).
  \<^item> \<open>Tracing\<close>, \<open>TraceeMemory\<close>, \<open>RemoteCall\<close>, \<open>Elf\<close>: \<open>ptrace_linux.go\<close> and its two architecture files.
    \<open>Tracing\<close> has \<open>Trace\<close> and \<open>Detach\<close>; \<open>TraceeMemory\<close> reading and writing, with the locale
    \<open>tracee_memory\<close> that both ways of writing satisfy; \<open>RemoteCall\<close> the system calls inside the process
    and \<open>Mmap\<close>; \<open>Elf\<close> the search for a symbol. \<open>Trampoline\<close> decodes the jump that was written.
  \<^item> \<open>Asset\<close> (\<open>asset_linux*.go\<close>): loading and relocating an object file. \<open>FakeImage\<close>, \<open>Injection\<close>
    (\<open>fake_image_linux*.go\<close>): the methods, and what they do to a process. \<open>Loaded\<close>: the instructions of a
    loaded image read the values that were set. \<open>Skew\<close> (\<open>time_skew_linux.go\<close>): the three images of one
    process.

  \<^bold>\<open>The fake time.\<close>
  \<^item> \<open>DateParser\<close>, \<open>DateStates\<close>, \<open>DateAlphaStates\<close>, \<open>TimeStates\<close>, \<open>DateParse\<close>: \<open>date_parse.go\<close>, a definition
    for each state of its two state machines, in the order of the code, then the final switch, the
    recursion and the exported functions. \<open>GoTime\<close>: \<open>time.Parse\<close> of the library, the instance of the
    parameter \<open>time_lib\<close>.
  \<^item> \<open>DateInvariant\<close>, \<open>DateSafety\<close>: the indices stay in range, the layout keeps the length of the string,
    and the strings of recursive calls get smaller. The two loops end because the index grows.
  \<^item> \<open>DateFormats\<close>, \<open>DateValues\<close>, \<open>DateResults\<close>: what the parser makes of the documented formats, for all
    digits: the layout, the time, the effect of the options.
  \<^item> \<open>DateOffset\<close>, \<open>OffsetResults\<close>: \<open>date_offset.go\<close>, relative and absolute fake times.

  \<^bold>\<open>The command.\<close>
  \<^item> \<open>ProcTree\<close>: \<open>getChildProcesses\<close> of \<open>cmd/watchmaker.go\<close>. \<open>collectAllChildren\<close> may recurse for ever, so it
    is a partial function: \<open>None\<close> when it does not return, which is exactly when there is a cycle (Go then
    runs out of stack). The
    goroutines act one after the other, in any order.
  \<^item> \<open>Watchmaker\<close>: \<open>main\<close>, from the fake time to the processes. \<open>CommandRun\<close>: a concrete run.

  \<^bold>\<open>What the groups of lemmas show.\<close> Frame lemmas (the locale \<open>io_frame\<close>: relations that every step of a
  computation keeps) say which memory an operation leaves alone: that of other processes
  (\<open>keeps_Attach\<close>), that outside the slots, that outside the jump. On top of them a successful operation
  has its effect (\<open>Attach_makes_live\<close>, \<open>Skew_Inject_all_live\<close>, \<open>main_makes_live\<close>), it can be undone as
  far as \<open>Attach_Recover_roundtrip\<close> says, and failures leave what the theorems of kind error say. The parser
  has invariants of its loops, and symbolic runs over strings of arbitrary digits.

  \<^bold>\<open>Hypotheses.\<close> \<open>kernel_ok\<close> (among it \<open>attach_ok\<close>: what ptrace(2) says of attaching, stopping and
  detaching threads), \<open>reads_total\<close> (a read of mapped memory is complete), the page size is a
  power of two; the first \<open>mmap\<close> does not fail half way (\<open>clean_mmap\<close>: else the code leaves the registers
  changed, see the findings); the object files have the relocations of the documented kind; the
  sixteen bytes at each function that is overwritten are mapped, and do not overlap. \<open>lib_total\<close>: the parser of the library
  does not panic. No fuel is used: the loops end by measures, except \<open>collectAllChildren\<close>.

  \<^bold>\<open>Not modelled.\<close> The parser of ELF files, the embedded bytes, the kernel, the Unicode tables and
  the time zone data are parameters. Left out are the log messages, \<open>LockOSThread\<close>, the mutex of a skew
  (each call is atomic), the package \<open>flag\<close>, and \<open>ts\<close> and \<open>ds\<close> of the date parser, which only debugging
  uses. The C code in \<open>fakeclock\<close>, the examples, the test scripts and the build files are not Go code of
  the program.
\<close>

end
